(* ===== verification/Cbe_Prelude.thy ===== *)
theory Cbe_Prelude
  imports Main "HOL-Library.Word"
begin

text \<open>
  The prelude of the development: the machine types of the C++ code, the exceptions it
  throws, the combinator for its \<open>while (true)\<close> loops with its rules, and byte memory.

  \<^item> \<open>u8\<close>, \<open>u32\<close>, \<open>u64\<close> are Genode's fixed-width unsigned types. \<open>size_t\<close>,
    \<open>unsigned long\<close> and the VFS types \<open>file_size\<close> and \<open>file_offset\<close> are 64 bits wide.
  \<^item> An operation that may throw returns \<open>exn + 'a\<close>. An operation with a loop whose end
    depends on code outside the model returns \<open>'a run\<close>, where \<open>None\<close> means that the
    loop does not end.
  \<^item> \<open>run_loop\<close> is the loop combinator. \<open>run_loop_rule\<close> is its partial-correctness rule,
    \<open>run_loop_total\<close> its termination rule and \<open>run_loop_diverges\<close> shows that a loop
    never ends.
\<close>

section \<open>Machine types\<close>

type_synonym u8 = "8 word"
type_synonym u32 = "32 word"
type_synonym u64 = "64 word"

type_synonym bytes = "u8 list"

lemma ucast_u32_u64: "unat (x :: u64) < 2 ^ 32 \<Longrightarrow> ucast (ucast x :: u32) = x"
  by (simp add: word_unat_eq_iff unsigned_ucast_eq unsigned_take_bit_eq take_bit_nat_eq_self)

lemma unat_u64_less: "unat (x :: u64) < 2 ^ 64"
  using unsigned_less [of x] by simp

lemma unat_u64_plus:
  fixes a b :: u64
  shows "unat (a + b) = (if unat a + unat b < 2 ^ 64 then unat a + unat b else unat a + unat b - 2 ^ 64)"
  using unat_plus_if_size [of a b] by (simp add: word_size)

named_theorems model_defs \<open>definitions of the model that evaluate by unfolding\<close>

section \<open>Exceptions\<close>

text \<open>The exception types that the modelled code throws, and the SPARK runtime's own.\<close>

datatype exn =
    Bad_index
  | Unsupported_Operation
  | Invalid_state
  | Unknown_operation_type
  | Operation_type_not_convertable
  | Object_size_mismatch
  | Program_Error
  | Constraint_Error
  | Thrown_int int
  | Data_nullptr
  | Deref_unconstructed_object
  | Cbe_Not_Initialized
  | Could_not_open_block_backend
  | Buffer_too_small
  | Invalid_index
  | Invalid_path
  | Invalid_io_request
  | Failed_to_find_created_snapshot
  | Configuration_Invalid
  | Unexpected_request
  | Request_not_acceptable
  | Io_error
  | Nonexistent_sub_node
  | Genode_Exception
  | Packet_alloc_failed
  | Bad_node string

type_synonym 'a run = "(exn + 'a) option"

definition bind_exn :: "exn + 'a \<Rightarrow> ('a \<Rightarrow> exn + 'b) \<Rightarrow> exn + 'b" where
  "bind_exn m f = (case m of Inl e \<Rightarrow> Inl e | Inr x \<Rightarrow> f x)"

definition bind_run :: "'a run \<Rightarrow> ('a \<Rightarrow> 'b run) \<Rightarrow> 'b run" where
  "bind_run m f =
     (case m of None \<Rightarrow> None | Some (Inl e) \<Rightarrow> Some (Inl e) | Some (Inr x) \<Rightarrow> f x)"

lemma bind_exn_simps [simp]:
  "bind_exn (Inl e) f = Inl e"
  "bind_exn (Inr x) f = f x"
  by (simp_all add: bind_exn_def)

lemma bind_run_simps [simp]:
  "bind_run None f = None"
  "bind_run (Some (Inl e)) f = Some (Inl e)"
  "bind_run (Some (Inr x)) f = f x"
  by (simp_all add: bind_run_def)

lemma bind_exn_InrE:
  assumes "bind_exn m f = Inr y"
  obtains x where "m = Inr x" and "f x = Inr y"
  using assms by (cases m) auto

lemma bind_run_InrE:
  assumes "bind_run m f = Some (Inr y)"
  obtains x where "m = Some (Inr x)" and "f x = Some (Inr y)"
  using assms by (auto simp: bind_run_def split: option.splits sum.splits)

lemma bind_run_image:
  assumes "\<And>x. g (f x) = map_option (map_sum id f') (h x)"
  shows "bind_run (map_option (map_sum id f) m) g = map_option (map_sum id f') (bind_run m h)"
  using assms by (auto simp: bind_run_def split: option.splits sum.splits)

section \<open>Configuration nodes\<close>

text \<open>
  A configuration node: its type, its attributes and its sub-nodes. \<open>attribute_value\<close> is
  an attribute that may be absent, with its default.
\<close>

datatype xml = Xml (xml_type: string) (xml_attributes: "(string \<times> string) list") (xml_nodes: "xml list")

definition has_type :: "xml \<Rightarrow> string \<Rightarrow> bool" where
  "has_type node name \<longleftrightarrow> xml_type node = name"

definition attribute_value :: "'a option \<Rightarrow> 'a \<Rightarrow> 'a" where
  "attribute_value v default_value = (case v of None \<Rightarrow> default_value | Some x \<Rightarrow> x)"

definition xml_attribute :: "xml \<Rightarrow> string \<Rightarrow> string \<Rightarrow> string" where
  "xml_attribute node name default_value = attribute_value (map_of (xml_attributes node) name) default_value"

section \<open>Loops\<close>

text \<open>
  One pass through the body of a \<open>while (true)\<close> loop ends with the next pass
  (\<open>Continue\<close>, also the end of the body), with \<open>break\<close>, or with an exception.
\<close>

datatype ('s, 'e) loop_step = Continue 's | Break 's | Throw 'e

partial_function (option) run_loop :: "('s \<Rightarrow> ('s, 'e) loop_step) \<Rightarrow> 's \<Rightarrow> ('e + 's) option" where
  "run_loop body s =
     (case body s of
        Continue s' \<Rightarrow> run_loop body s'
      | Break s' \<Rightarrow> Some (Inr s')
      | Throw e \<Rightarrow> Some (Inl e))"

lemma run_loop_Break: "body s = Break s' \<Longrightarrow> run_loop body s = Some (Inr s')"
  by (simp add: run_loop.simps)

lemma run_loop_Throw: "body s = Throw e \<Longrightarrow> run_loop body s = Some (Inl e)"
  by (simp add: run_loop.simps)

lemma run_loop_Continue: "body s = Continue s' \<Longrightarrow> run_loop body s = run_loop body s'"
  by (simp add: run_loop.simps)

lemma run_loop_rule:
  fixes body :: "'s \<Rightarrow> ('s, 'e) loop_step"
  assumes ret: "run_loop body s = Some r"
    and init: "I s"
    and cont: "\<And>s s'. I s \<Longrightarrow> body s = Continue s' \<Longrightarrow> I s'"
    and brk: "\<And>s s'. I s \<Longrightarrow> body s = Break s' \<Longrightarrow> Q (Inr s')"
    and thr: "\<And>s e. I s \<Longrightarrow> body s = Throw e \<Longrightarrow> Q (Inl e)"
  shows "Q r"
proof -
  let ?P = "\<lambda>b t r. b = body \<longrightarrow> I t \<longrightarrow> Q r"
  have "?P body s r"
  proof (rule run_loop.raw_induct [where P = ?P, OF _ ret])
    fix rl :: "('s \<Rightarrow> ('s, 'e) loop_step) \<Rightarrow> 's \<Rightarrow> ('e + 's) option" and b t u
    assume IH: "\<And>b t r. rl b t = Some r \<Longrightarrow> ?P b t r"
      and eq: "(case b t of Continue s' \<Rightarrow> rl b s' | Break s' \<Rightarrow> Some (Inr s')
                | Throw e \<Rightarrow> Some (Inl e)) = Some u"
    show "?P b t u"
    proof (intro impI)
      assume b: "b = body" and t: "I t"
      show "Q u"
        using eq IH b cont [OF t] brk [OF t] thr [OF t]
        by (cases "b t") auto
    qed
  qed
  with init show ?thesis by blast
qed

lemma run_loop_total:
  fixes m :: "'s \<Rightarrow> 'm :: wellorder"
  assumes init: "I s"
    and cont: "\<And>s s'. I s \<Longrightarrow> body s = Continue s' \<Longrightarrow> I s' \<and> m s' < m s"
  shows "\<exists>r. run_loop body s = Some r"
  using init
proof (induction "m s" arbitrary: s rule: less_induct)
  case less
  show ?case
  proof (cases "body s")
    case (Continue s')
    with less.prems cont have "I s'" and "m s' < m s" by blast+
    with less.hyps Continue show ?thesis by (auto simp: run_loop_Continue)
  qed (simp_all add: run_loop_Break run_loop_Throw)
qed

lemma run_loop_diverges:
  assumes "I s" and step: "\<And>s. I s \<Longrightarrow> \<exists>s'. body s = Continue s' \<and> I s'"
  shows "run_loop body s = None"
proof (cases "run_loop body s")
  case (Some r)
  have False
    by (rule run_loop_rule [where Q = "\<lambda>_. False", OF Some, of I]) (use assms in fastforce)+
  then show ?thesis ..
qed

text \<open>Two loops whose bodies agree along a projection of the state.\<close>

lemma run_loop_image:
  fixes body :: "'s \<Rightarrow> ('s, 'e) loop_step" and f :: "'s \<Rightarrow> 't"
  assumes body: "\<And>s. body' (f s) = map_loop_step f id (body s)"
  shows "run_loop body' (f s) = map_option (map_sum id f) (run_loop body s)"
proof (cases "run_loop body s")
  case (Some r)
  let ?P = "\<lambda>b t r. b = body \<longrightarrow> run_loop body' (f t) = Some (map_sum id f r)"
  have "?P body s r"
  proof (rule run_loop.raw_induct [where P = ?P, OF _ Some])
    fix rl :: "('s \<Rightarrow> ('s, 'e) loop_step) \<Rightarrow> 's \<Rightarrow> ('e + 's) option" and b t u
    assume IH: "\<And>b t r. rl b t = Some r \<Longrightarrow> ?P b t r"
      and eq: "(case b t of Continue s' \<Rightarrow> rl b s' | Break s' \<Rightarrow> Some (Inr s')
                | Throw e \<Rightarrow> Some (Inl e)) = Some u"
    show "?P b t u"
    proof
      assume b: "b = body"
      show "run_loop body' (f t) = Some (map_sum id f u)"
        using eq IH b body [of t]
        by (cases "b t") (auto simp: run_loop_Continue run_loop_Break run_loop_Throw)
    qed
  qed
  with Some show ?thesis by simp
next
  case None
  have "run_loop body' (f s) = None"
  proof (rule run_loop_diverges [where I = "\<lambda>t. \<exists>u. t = f u \<and> run_loop body u = None"])
    fix t assume "\<exists>u. t = f u \<and> run_loop body u = None"
    then obtain u where u: "t = f u" "run_loop body u = None" by blast
    then obtain u' where "body u = Continue u'"
      by (cases "body u") (auto simp: run_loop_Break run_loop_Throw)
    with u body [of u] show "\<exists>s'. body' t = Continue s' \<and> (\<exists>u. s' = f u \<and> run_loop body u = None)"
      by (auto simp: run_loop_Continue)
  qed (use None in blast)
  with None show ?thesis by simp
qed

text \<open>
  The loops that repeat a body which reports whether it made progress, until it made none.
\<close>

partial_function (option) run_while :: "('s \<Rightarrow> ('s \<times> bool) run) \<Rightarrow> 's \<Rightarrow> 's run" where
  "run_while body s =
     (case body s of
        None \<Rightarrow> None
      | Some (Inl e) \<Rightarrow> Some (Inl e)
      | Some (Inr (s', progress)) \<Rightarrow> if progress then run_while body s' else Some (Inr s'))"

lemma run_while_stop: "body s = Some (Inr (s', False)) \<Longrightarrow> run_while body s = Some (Inr s')"
  by (simp add: run_while.simps)

lemma run_while_throw: "body s = Some (Inl e) \<Longrightarrow> run_while body s = Some (Inl e)"
  by (simp add: run_while.simps)

lemma run_while_again: "body s = Some (Inr (s', True)) \<Longrightarrow> run_while body s = run_while body s'"
  by (subst run_while.simps) simp

lemma run_cases:
  fixes r :: "('s \<times> bool) run"
  obtains "r = None" | e where "r = Some (Inl e)" | s where "r = Some (Inr (s, False))"
    | s where "r = Some (Inr (s, True))"
proof (cases r)
  case (Some x)
  show ?thesis
  proof (cases x)
    case (Inl e)
    with Some that(2) show ?thesis by simp
  next
    case (Inr p)
    obtain s b where "p = (s, b)" by (cases p)
    with Some Inr that(3,4) show ?thesis by (cases b) simp_all
  qed
qed (rule that(1))

lemma run_while_rule:
  fixes body :: "'s \<Rightarrow> ('s \<times> bool) run"
  assumes ret: "run_while body s = Some r"
    and init: "I s"
    and again: "\<And>s s'. I s \<Longrightarrow> body s = Some (Inr (s', True)) \<Longrightarrow> I s'"
    and stop: "\<And>s s'. I s \<Longrightarrow> body s = Some (Inr (s', False)) \<Longrightarrow> Q (Inr s')"
    and thr: "\<And>s e. I s \<Longrightarrow> body s = Some (Inl e) \<Longrightarrow> Q (Inl e)"
  shows "Q r"
proof -
  let ?P = "\<lambda>b t r. b = body \<longrightarrow> I t \<longrightarrow> Q r"
  have "?P body s r"
  proof (rule run_while.raw_induct [where P = ?P, OF _ ret])
    fix rw :: "('s \<Rightarrow> ('s \<times> bool) run) \<Rightarrow> 's \<Rightarrow> 's run" and b t u
    assume IH: "\<And>b t r. rw b t = Some r \<Longrightarrow> ?P b t r"
      and eq: "(case b t of None \<Rightarrow> None | Some (Inl e) \<Rightarrow> Some (Inl e)
                | Some (Inr (s', progress)) \<Rightarrow> if progress then rw b s' else Some (Inr s')) = Some u"
    show "?P b t u"
    proof (intro impI)
      assume b: "b = body" and t: "I t"
      show "Q u"
        using eq IH b again [OF t] stop [OF t] thr [OF t]
        by (auto split: option.splits sum.splits prod.splits if_splits)
    qed
  qed
  with init show ?thesis by blast
qed

lemma run_while_total:
  fixes m :: "'s \<Rightarrow> 'm :: wellorder"
  assumes init: "I s"
    and body: "\<And>s. I s \<Longrightarrow> body s \<noteq> None"
    and again: "\<And>s s'. I s \<Longrightarrow> body s = Some (Inr (s', True)) \<Longrightarrow> I s' \<and> m s' < m s"
  shows "\<exists>r. run_while body s = Some r"
  using init
proof (induction "m s" arbitrary: s rule: less_induct)
  case less
  consider (thr) e where "body s = Some (Inl e)" | (stop) s' where "body s = Some (Inr (s', False))"
    | (again) s' where "body s = Some (Inr (s', True))"
    using body [OF less.prems] by (cases "body s" rule: run_cases) blast+
  then show ?case
  proof cases
    case again
    with less assms(3) show ?thesis by (simp add: run_while_again)
  qed (simp_all add: run_while_stop run_while_throw)
qed

lemma run_while_diverges:
  assumes "I s" and step: "\<And>s. I s \<Longrightarrow> \<exists>s'. body s = Some (Inr (s', True)) \<and> I s'"
  shows "run_while body s = None"
proof (cases "run_while body s")
  case (Some r)
  have False
    by (rule run_while_rule [where Q = "\<lambda>_. False", OF Some, of I]) (use assms in fastforce)+
  then show ?thesis ..
qed

lemma run_while_image:
  fixes body :: "'s \<Rightarrow> ('s \<times> bool) run" and f :: "'s \<Rightarrow> 't"
  assumes body: "\<And>s. body' (f s) = map_option (map_sum id (map_prod f id)) (body s)"
  shows "run_while body' (f s) = map_option (map_sum id f) (run_while body s)"
proof (cases "run_while body s")
  case (Some r)
  let ?P = "\<lambda>b t r. b = body \<longrightarrow> run_while body' (f t) = Some (map_sum id f r)"
  have "?P body s r"
  proof (rule run_while.raw_induct [where P = ?P, OF _ Some])
    fix rw :: "('s \<Rightarrow> ('s \<times> bool) run) \<Rightarrow> 's \<Rightarrow> 's run" and b t u
    assume IH: "\<And>b t r. rw b t = Some r \<Longrightarrow> ?P b t r"
      and eq: "(case b t of None \<Rightarrow> None | Some (Inl e) \<Rightarrow> Some (Inl e)
                | Some (Inr (s', progress)) \<Rightarrow> if progress then rw b s' else Some (Inr s')) = Some u"
    show "?P b t u"
    proof
      assume b: "b = body"
      show "run_while body' (f t) = Some (map_sum id f u)"
        using eq IH b body [of t]
        by (cases "b t" rule: run_cases) (auto simp: run_while_stop run_while_throw run_while_again)
    qed
  qed
  with Some show ?thesis by simp
next
  case None
  have "run_while body' (f s) = None"
  proof (cases "run_while body' (f s)")
    case (Some r)
    let ?P = "\<lambda>b t r. b = body' \<longrightarrow> (\<forall>u. t = f u \<longrightarrow> run_while body u \<noteq> None)"
    have "?P body' (f s) r"
    proof (rule run_while.raw_induct [where P = ?P, OF _ Some])
      fix rw :: "('t \<Rightarrow> ('t \<times> bool) run) \<Rightarrow> 't \<Rightarrow> 't run" and b t v
      assume IH: "\<And>b t r. rw b t = Some r \<Longrightarrow> ?P b t r"
        and eq: "(case b t of None \<Rightarrow> None | Some (Inl e) \<Rightarrow> Some (Inl e)
                | Some (Inr (s', progress)) \<Rightarrow> if progress then rw b s' else Some (Inr s')) = Some v"
      show "?P b t v"
      proof (intro impI allI)
        fix u assume b: "b = body'" and t: "t = f u"
        show "run_while body u \<noteq> None"
          using eq IH b t body [of u]
          by (cases "body u" rule: run_cases) (auto simp: run_while_stop run_while_throw run_while_again)
      qed
    qed
    with None show ?thesis by blast
  qed
  with None show ?thesis by simp
qed

section \<open>Byte memory\<close>

text \<open>
  The client's memory is a map from 64-bit addresses to bytes. \<open>mem_write m a bs\<close> is
  \<open>memcpy\<close> to address \<open>a\<close>; \<open>mem_read m a n\<close> reads \<open>n\<close> bytes from \<open>a\<close>.
  \<open>overwrite xs k bs\<close> is \<open>memcpy\<close> to offset \<open>k\<close> of a buffer \<open>xs\<close>.
\<close>

type_synonym memory = "u64 \<Rightarrow> u8"

definition mem_read :: "memory \<Rightarrow> u64 \<Rightarrow> nat \<Rightarrow> bytes" where
  "mem_read m a n = map (\<lambda>i. m (a + of_nat i)) [0..<n]"

definition mem_write :: "memory \<Rightarrow> u64 \<Rightarrow> bytes \<Rightarrow> memory" where
  "mem_write m a bs = (\<lambda>x. if unat (x - a) < length bs then bs ! unat (x - a) else m x)"

definition overwrite :: "'a list \<Rightarrow> nat \<Rightarrow> 'a list \<Rightarrow> 'a list" where
  "overwrite xs k bs = take k xs @ bs @ drop (k + length bs) xs"

lemma length_mem_read [simp]: "length (mem_read m a n) = n"
  by (simp add: mem_read_def)

lemma mem_read_write:
  assumes "length bs \<le> 2 ^ 64"
  shows "mem_read (mem_write m a bs) a (length bs) = bs"
proof (rule nth_equalityI)
  fix i assume "i < length (mem_read (mem_write m a bs) a (length bs))"
  then have i: "i < length bs" by simp
  with assms have "i < 2 ^ 64" by simp
  then have "unat (of_nat i :: u64) = i" by (simp add: unat_of_nat)
  with i show "mem_read (mem_write m a bs) a (length bs) ! i = bs ! i"
    by (simp add: mem_read_def mem_write_def)
qed simp

lemma mem_write_other:
  "length bs \<le> unat (x - a) \<Longrightarrow> mem_write m a bs x = m x"
  by (simp add: mem_write_def)

lemma length_overwrite [simp]:
  "k + length bs \<le> length xs \<Longrightarrow> length (overwrite xs k bs) = length xs"
  by (simp add: overwrite_def)

lemma take_drop_overwrite:
  "k + length bs \<le> length xs \<Longrightarrow> take (length bs) (drop k (overwrite xs k bs)) = bs"
  by (simp add: overwrite_def)

lemma nth_overwrite:
  assumes "k + length bs \<le> length xs" and "i < length xs"
  shows "overwrite xs k bs ! i = (if k \<le> i \<and> i < k + length bs then bs ! (i - k) else xs ! i)"
  using assms by (auto simp: overwrite_def nth_append min_def)

end
