(* ===== verification/Cbe_Types.thy ===== *)
theory Cbe_Types
  imports Cbe_Prelude
begin

text \<open>
  The data that crosses the interface of the CBE library: \<open>include/cbe/types.h\<close>,
  \<open>include/cbe/spark_object.h\<close> and \<open>include/util/sha256_4k.h\<close>.

  \<^item> \<open>operation\<close> and \<open>request\<close> are \<open>Cbe::Request::Operation\<close> and \<open>Cbe::Request\<close>;
    \<open>op_code\<close> gives the values the enumeration fixes for the SPARK side.
  \<^item> \<open>block_request\<close> holds the fields of Genode's \<open>Block::Request\<close> that the two
    conversions read and write.
  \<^item> The three buffer classes share one shape, a one-block array with a checked index.
  \<^item> What is handed to Genode's \<open>print\<close> is a list of \<open>out_item\<close>; how Genode formats a
    number is not modelled.
\<close>

section \<open>Constants and requests\<close>

definition BLOCK_SIZE :: u64 where "BLOCK_SIZE = 4096"

definition NR_OF_SNAPSHOTS :: nat where "NR_OF_SNAPSHOTS = 48"

declare BLOCK_SIZE_def [model_defs] NR_OF_SNAPSHOTS_def [model_defs]

lemma unat_BLOCK_SIZE [simp]: "unat BLOCK_SIZE = 4096"
  by (simp add: BLOCK_SIZE_def)

datatype operation =
    INVALID | READ | WRITE | SYNC | CREATE_SNAPSHOT | DISCARD_SNAPSHOT | REKEY
  | EXTEND_VBD | EXTEND_FT | RESUME_REKEYING | DEINITIALIZE | INITIALIZE

fun op_code :: "operation \<Rightarrow> u32" where
  "op_code INVALID = 0"
| "op_code READ = 1"
| "op_code WRITE = 2"
| "op_code SYNC = 3"
| "op_code CREATE_SNAPSHOT = 4"
| "op_code DISCARD_SNAPSHOT = 5"
| "op_code REKEY = 6"
| "op_code EXTEND_VBD = 7"
| "op_code EXTEND_FT = 8"
| "op_code RESUME_REKEYING = 10"
| "op_code DEINITIALIZE = 11"
| "op_code INITIALIZE = 12"

record request =
  req_operation :: operation
  req_success :: bool
  req_block_number :: u64
  req_offset :: u64
  req_count :: u64
  req_key_id :: u32
  req_tag :: u32

definition make_request ::
  "operation \<Rightarrow> bool \<Rightarrow> u64 \<Rightarrow> u64 \<Rightarrow> u64 \<Rightarrow> u32 \<Rightarrow> u32 \<Rightarrow> request" where
  "make_request op success block_number offset count key_id tag =
     \<lparr> req_operation = op, req_success = success, req_block_number = block_number,
       req_offset = offset, req_count = count, req_key_id = key_id, req_tag = tag \<rparr>"

definition invalid_request :: request where
  "invalid_request =
     \<lparr> req_operation = INVALID, req_success = False, req_block_number = 0,
       req_offset = 0, req_count = 0, req_key_id = 0, req_tag = 0 \<rparr>"

definition valid :: "request \<Rightarrow> bool" where
  "valid r \<longleftrightarrow> req_operation r \<noteq> INVALID"

definition set_success :: "request \<Rightarrow> bool \<Rightarrow> request" where
  "set_success r arg = r\<lparr>req_success := arg\<rparr>"

definition set_tag :: "request \<Rightarrow> u32 \<Rightarrow> request" where
  "set_tag r arg = r\<lparr>req_tag := arg\<rparr>"

declare make_request_def [model_defs] invalid_request_def [model_defs] valid_def [model_defs]
  set_success_def [model_defs] set_tag_def [model_defs]

lemma valid_invalid_request [simp]: "\<not> valid invalid_request"
  by (simp add: valid_def invalid_request_def)

lemma valid_make_request [simp]: "valid (make_request op s b off c k t) \<longleftrightarrow> op \<noteq> INVALID"
  by (simp add: valid_def make_request_def)

lemma valid_setters [simp]: "valid (set_success r b) = valid r" "valid (set_tag r t) = valid r"
  by (simp_all add: valid_def set_success_def set_tag_def)

lemma request_setters_sel [simp]:
  "req_operation (set_tag r t) = req_operation r"
  "req_block_number (set_tag r t) = req_block_number r"
  "req_count (set_tag r t) = req_count r"
  "req_tag (set_tag r t) = t"
  "req_operation (set_success r b) = req_operation r"
  "req_block_number (set_success r b) = req_block_number r"
  "req_tag (set_success r b) = req_tag r"
  "req_success (set_success r b) = b"
  by (simp_all add: set_tag_def set_success_def)

lemma make_request_sel [simp]:
  "req_operation (make_request op s b off c k t) = op"
  "req_success (make_request op s b off c k t) = s"
  "req_block_number (make_request op s b off c k t) = b"
  "req_offset (make_request op s b off c k t) = off"
  "req_count (make_request op s b off c k t) = c"
  "req_key_id (make_request op s b off c k t) = k"
  "req_tag (make_request op s b off c k t) = t"
  by (simp_all add: make_request_def)

subsection \<open>The operations read from a code\<close>

text \<open>
  The enumeration has a fixed underlying type, so a request filled in by the SPARK side can
  hold any 32-bit code. \<open>to_string\<close> switches on the code and throws for one that is not
  listed; 9 is such a code.
\<close>

fun operation_name :: "operation \<Rightarrow> string" where
  "operation_name INVALID = ''invalid''"
| "operation_name READ = ''read''"
| "operation_name WRITE = ''write''"
| "operation_name SYNC = ''sync''"
| "operation_name CREATE_SNAPSHOT = ''create_snapshot''"
| "operation_name DISCARD_SNAPSHOT = ''discard_snapshot''"
| "operation_name REKEY = ''rekey''"
| "operation_name EXTEND_VBD = ''extend_vbd''"
| "operation_name EXTEND_FT = ''extend_ft''"
| "operation_name RESUME_REKEYING = ''resume_rekeying''"
| "operation_name DEINITIALIZE = ''deinitialize''"
| "operation_name INITIALIZE = ''initialize''"

definition all_operations :: "operation list" where
  "all_operations =
     [INVALID, READ, WRITE, SYNC, CREATE_SNAPSHOT, DISCARD_SNAPSHOT, REKEY, EXTEND_VBD,
      EXTEND_FT, RESUME_REKEYING, DEINITIALIZE, INITIALIZE]"

definition operation_of_code :: "u32 \<Rightarrow> operation option" where
  "operation_of_code c = find (\<lambda>op. op_code op = c) all_operations"

definition to_string_operation :: "u32 \<Rightarrow> exn + string" where
  "to_string_operation c =
     (case operation_of_code c of
        Some op \<Rightarrow> Inr (operation_name op)
      | None \<Rightarrow> Inl Unknown_operation_type)"

lemma operation_of_code_op_code [simp]: "operation_of_code (op_code op) = Some op"
  by (cases op) (simp_all add: operation_of_code_def all_operations_def)

lemma op_code_inject: "op_code a = op_code b \<Longrightarrow> a = b"
  by (metis operation_of_code_op_code option.inject)

lemma operation_name_inject: "operation_name a = operation_name b \<Longrightarrow> a = b"
  by (cases a; cases b) simp_all

subsection \<open>Printing\<close>

datatype out_item =
    OStr string | OU32 u32 | OU64 u64 | OBool bool | OHex u8

definition print_request :: "request \<Rightarrow> out_item list" where
  "print_request r =
     (if \<not> valid r then [OStr ''<invalid>'']
      else
        [OStr ''tag: '', OU32 (req_tag r),
         OStr '' block_number: '', OU64 (req_block_number r),
         OStr '' count: '', OU64 (req_count r),
         OStr '' key_id: '', OU32 (req_key_id r),
         OStr '' offset: '', OU64 (req_offset r),
         OStr '' op: '', OStr (operation_name (req_operation r)),
         OStr '' success: '', OBool (req_success r)])"

section \<open>Conversion from and to block-session requests\<close>

datatype block_op_type = B_INVALID | B_READ | B_WRITE | B_SYNC | B_TRIM

record block_request =
  blk_type :: block_op_type
  blk_block_number :: u64
  blk_count :: u64
  blk_success :: bool
  blk_offset :: u64
  blk_tag :: u64

fun to_string_block_op :: "block_op_type \<Rightarrow> string" where
  "to_string_block_op B_INVALID = ''invalid''"
| "to_string_block_op B_READ = ''read''"
| "to_string_block_op B_WRITE = ''write''"
| "to_string_block_op B_SYNC = ''sync''"
| "to_string_block_op B_TRIM = ''trim''"

fun convert_op_from :: "operation \<Rightarrow> exn + block_op_type" where
  "convert_op_from INVALID = Inr B_INVALID"
| "convert_op_from READ = Inr B_READ"
| "convert_op_from WRITE = Inr B_WRITE"
| "convert_op_from SYNC = Inr B_SYNC"
| "convert_op_from CREATE_SNAPSHOT = Inl Operation_type_not_convertable"
| "convert_op_from DISCARD_SNAPSHOT = Inl Operation_type_not_convertable"
| "convert_op_from REKEY = Inl Operation_type_not_convertable"
| "convert_op_from EXTEND_VBD = Inl Operation_type_not_convertable"
| "convert_op_from EXTEND_FT = Inl Operation_type_not_convertable"
| "convert_op_from RESUME_REKEYING = Inl Operation_type_not_convertable"
| "convert_op_from DEINITIALIZE = Inl Operation_type_not_convertable"
| "convert_op_from INITIALIZE = Inl Operation_type_not_convertable"

definition convert_from :: "request \<Rightarrow> exn + block_request" where
  "convert_from r =
     bind_exn (convert_op_from (req_operation r)) (\<lambda>t.
       Inr \<lparr> blk_type = t,
             blk_block_number = req_block_number r,
             blk_count = req_count r,
             blk_success = req_success r,
             blk_offset = req_offset r,
             blk_tag = ucast (req_tag r) \<rparr>)"

fun convert_op_to :: "block_op_type \<Rightarrow> operation" where
  "convert_op_to B_INVALID = INVALID"
| "convert_op_to B_READ = READ"
| "convert_op_to B_WRITE = WRITE"
| "convert_op_to B_SYNC = SYNC"
| "convert_op_to B_TRIM = INVALID"

definition convert_to :: "block_request \<Rightarrow> request" where
  "convert_to r =
     make_request (convert_op_to (blk_type r)) (blk_success r) (blk_block_number r)
       (blk_offset r) (blk_count r) 0 (ucast (blk_tag r))"

declare convert_from_def [model_defs] convert_to_def [model_defs]

section \<open>Buffers, keys and snapshots\<close>

type_synonym block_data = bytes

definition wf_block :: "block_data \<Rightarrow> bool" where
  "wf_block b \<longleftrightarrow> length b = unat BLOCK_SIZE"

definition zero_block :: block_data where
  "zero_block = replicate 4096 0"

lemma wf_zero_block [simp]: "wf_block zero_block"
  by (simp add: wf_block_def zero_block_def)

text \<open>
  \<open>Io_buffer\<close>, \<open>Crypto_plain_buffer\<close> and \<open>Crypto_cipher_buffer\<close>: an array of blocks
  behind an index check. \<open>item\<close> reads an entry, \<open>set_item\<close> assigns through the
  reference that \<open>item\<close> returns.
\<close>

type_synonym block_buffer = "block_data list"

definition new_buffer :: block_buffer where
  "new_buffer = [zero_block]"

definition item :: "block_buffer \<Rightarrow> u32 \<Rightarrow> exn + block_data" where
  "item items idx = (if unat idx \<ge> length items then Inl Bad_index else Inr (items ! unat idx))"

definition set_item :: "block_buffer \<Rightarrow> u32 \<Rightarrow> block_data \<Rightarrow> exn + block_buffer" where
  "set_item items idx b =
     (if unat idx \<ge> length items then Inl Bad_index else Inr (items[unat idx := b]))"

declare item_def [model_defs] set_item_def [model_defs] new_buffer_def [model_defs]

definition wf_buffer :: "block_buffer \<Rightarrow> bool" where
  "wf_buffer items \<longleftrightarrow> length items = 1 \<and> list_all wf_block items"

lemma wf_new_buffer [simp]: "wf_buffer new_buffer"
  by (simp add: wf_buffer_def new_buffer_def)

lemma item_wf_buffer:
  assumes "wf_buffer items"
  shows "item items idx = (if idx = 0 then Inr (items ! 0) else Inl Bad_index)"
  using assms
  by (cases "unat idx") (auto simp: item_def wf_buffer_def unat_eq_0)

lemma set_item_wf_buffer:
  assumes "wf_buffer items" "wf_block b" "set_item items idx b = Inr items'"
  shows "wf_buffer items' \<and> item items' idx = Inr b"
  using assms
  by (auto simp: set_item_def item_def wf_buffer_def list_all_length nth_list_update
      split: if_splits)

record key =
  key_value :: bytes
  key_ident :: u32

definition print_key :: "key \<Rightarrow> out_item list" where
  "print_key k =
     [OStr ''['', OU32 (key_ident k), OStr '', '']
     @ map OHex (take 4 (key_value k)) @ [OStr ''...]'']"

record info =
  info_valid :: bool
  info_rekeying :: bool
  info_extending_vbd :: bool
  info_extending_ft :: bool

definition print_block_data :: "block_data \<Rightarrow> out_item list" where
  "print_block_data b = concat (map (\<lambda>c. [OHex c, OStr '' '']) b) @ [OStr [CHR 0x0A]]"

definition print_hash :: "bytes \<Rightarrow> out_item list" where
  "print_hash h = map OHex h"

section \<open>Opaque SPARK objects\<close>

text \<open>
  \<open>Spark_object<BYTES>\<close> reserves \<open>long\<close> words for a SPARK record. The check at start-up
  compares the size the SPARK side reports with the bytes reserved.
\<close>

definition spark_space_words :: "u32 \<Rightarrow> nat" where
  "spark_space_words BYTES = (unat BYTES + 8 - 1) div 8"

definition assert_valid_object_size :: "u32 \<Rightarrow> u32 \<Rightarrow> exn + unit" where
  "assert_valid_object_size object_size BYTES =
     (if object_size > BYTES then Inl Object_size_mismatch else Inr ())"

definition assert_same_object_size :: "u32 \<Rightarrow> u32 \<Rightarrow> exn + unit" where
  "assert_same_object_size object_size BYTES =
     (if object_size \<noteq> BYTES then Inl Object_size_mismatch else Inr ())"

section \<open>Properties\<close>

lemma unat_u32_u64: "unat (ucast (x :: u32) :: u64) = unat x"
proof -
  have "unat x < 2 ^ 64" using unsigned_less [of x, where 'a = nat] by simp
  then show ?thesis by (simp add: unsigned_ucast_eq take_bit_nat_eq_self)
qed

lemma ucast_tag: "ucast (ucast t :: u32) = (t :: u64) \<longleftrightarrow> unat t < 2 ^ 32"
proof
  assume "ucast (ucast t :: u32) = t"
  then have "unat t = unat (ucast t :: u32)" using unat_u32_u64 by metis
  then show "unat t < 2 ^ 32" using unsigned_less [of "ucast t :: u32", where 'a = nat] by simp
qed (rule ucast_u32_u64)

lemma convert_op_round_trip:
  "convert_op_from (convert_op_to ty) = Inr (if ty = B_TRIM then B_INVALID else ty)"
  by (cases ty) simp_all

lemma convert_op_round_trip_back: "convert_op_from op = Inr ty \<Longrightarrow> convert_op_to ty = op"
  by (cases op) auto

lemma ucast_u64_u32: "ucast (ucast (x :: u32) :: u64) = x"
  by (simp add: word_unat_eq_iff unsigned_ucast_eq unat_u32_u64 take_bit_word_eq_self)

theorem convert_round_trip:
  "(convert_from (convert_to b) = Inr b \<longleftrightarrow> blk_type b \<noteq> B_TRIM \<and> unat (blk_tag b) < 2 ^ 32)
   \<and> (convert_from r = Inr b' \<longrightarrow> convert_to b' = r\<lparr>req_key_id := 0\<rparr>)"
proof
  show "convert_from (convert_to b) = Inr b \<longleftrightarrow> blk_type b \<noteq> B_TRIM \<and> unat (blk_tag b) < 2 ^ 32"
    by (cases b) (auto simp: convert_from_def convert_to_def convert_op_round_trip ucast_tag)
next
  show "convert_from r = Inr b' \<longrightarrow> convert_to b' = r\<lparr>req_key_id := 0\<rparr>"
    by (cases r)
      (auto simp: convert_from_def convert_to_def make_request_def ucast_u64_u32
        elim!: bind_exn_InrE dest!: convert_op_round_trip_back)
qed

theorem convert_round_trip_witness:
  "convert_to \<lparr> blk_type = B_WRITE, blk_block_number = 7, blk_count = 1, blk_success = True,
      blk_offset = 8192, blk_tag = 3 \<rparr> = make_request WRITE True 7 8192 1 0 3"
  using convert_round_trip [of "\<lparr> blk_type = B_WRITE, blk_block_number = 7, blk_count = 1,
      blk_success = True, blk_offset = 8192, blk_tag = 3 \<rparr>" "make_request WRITE True 7 8192 1 5 3"
      "\<lparr> blk_type = B_WRITE, blk_block_number = 7, blk_count = 1, blk_success = True,
         blk_offset = 8192, blk_tag = 3 \<rparr>"]
  by (simp add: convert_from_def make_request_def)

end
