(* ===== verification/Cbe_Library.thy ===== *)
theory Cbe_Library
  imports Cbe_Types
begin

text \<open>
  The two interfaces the C++ code drives.

  \<^item> \<open>cbe_library\<close> is the class \<open>Cbe::Library\<close> of \<open>include/cbe/library.h\<close>. Its methods are
    implemented by the SPARK library, which is not modelled: the record's fields are the
    methods, functions on an abstract library state \<open>'l\<close>, and every definition that uses
    the library takes such a record as an argument. A method that fills a reference
    argument returns it beside its result. The definitions below the record are the
    inline methods, which build an invalid request and hand it to the SPARK binding.
  \<^item> \<open>check_library\<close> is the common shape of \<open>Cbe_init::Library\<close>, \<open>Cbe_check::Library\<close>
    and \<open>Cbe_dump::Library\<close>.
  \<^item> \<open>vfs_file\<close> holds the operations of Genode's VFS on an open file, with the result codes
    that the source distinguishes. Genode is not part of the repository, so these too are
    an argument of the definitions.
\<close>

section \<open>The library\<close>

record 'l cbe_library =
  max_vba :: "'l \<Rightarrow> u64"
  lib_info :: "'l \<Rightarrow> info \<Rightarrow> info"
  lib_execute :: "'l \<Rightarrow> block_buffer \<Rightarrow> block_buffer \<Rightarrow> block_buffer
                    \<Rightarrow> 'l \<times> block_buffer \<times> block_buffer \<times> block_buffer"
  execute_progress :: "'l \<Rightarrow> bool"
  client_request_acceptable :: "'l \<Rightarrow> bool"
  submit_client_request :: "'l \<Rightarrow> request \<Rightarrow> u32 \<Rightarrow> 'l"
  peek_completed_client_request :: "'l \<Rightarrow> request"
  drop_completed_client_request :: "'l \<Rightarrow> request \<Rightarrow> 'l"
  io_request_completed :: "'l \<Rightarrow> u32 \<Rightarrow> bool \<Rightarrow> 'l"
  lib_has_io_request :: "'l \<Rightarrow> request \<Rightarrow> u32 \<Rightarrow> request \<times> u32"
  io_request_in_progress :: "'l \<Rightarrow> u32 \<Rightarrow> 'l"
  lib_client_data_ready :: "'l \<Rightarrow> request \<Rightarrow> request \<times> 'l"
  client_data_index :: "'l \<Rightarrow> request \<Rightarrow> u64"
  lib_obtain_client_data :: "'l \<Rightarrow> request \<Rightarrow> u32 \<Rightarrow> bool \<Rightarrow> (bool \<times> u32) \<times> 'l"
  lib_client_data_required :: "'l \<Rightarrow> request \<Rightarrow> request \<times> 'l"
  lib_supply_client_data :: "'l \<Rightarrow> request \<Rightarrow> block_data \<Rightarrow> bool \<Rightarrow> bool \<times> 'l"
  active_snapshot_ids :: "'l \<Rightarrow> u64 list"
  lib_crypto_add_key_required :: "'l \<Rightarrow> request \<Rightarrow> key \<Rightarrow> request \<times> key"
  crypto_add_key_requested :: "'l \<Rightarrow> request \<Rightarrow> 'l"
  crypto_add_key_completed :: "'l \<Rightarrow> request \<Rightarrow> 'l"
  lib_crypto_remove_key_required :: "'l \<Rightarrow> request \<Rightarrow> u32 \<Rightarrow> request \<times> u32"
  crypto_remove_key_requested :: "'l \<Rightarrow> request \<Rightarrow> 'l"
  crypto_remove_key_completed :: "'l \<Rightarrow> request \<Rightarrow> 'l"
  lib_crypto_cipher_data_required :: "'l \<Rightarrow> request \<Rightarrow> u32 \<Rightarrow> request \<times> u32"
  crypto_cipher_data_requested :: "'l \<Rightarrow> u32 \<Rightarrow> 'l"
  supply_crypto_cipher_data :: "'l \<Rightarrow> u32 \<Rightarrow> bool \<Rightarrow> 'l"
  lib_crypto_plain_data_required :: "'l \<Rightarrow> request \<Rightarrow> u32 \<Rightarrow> request \<times> u32"
  crypto_plain_data_requested :: "'l \<Rightarrow> u32 \<Rightarrow> 'l"
  supply_crypto_plain_data :: "'l \<Rightarrow> u32 \<Rightarrow> bool \<Rightarrow> 'l"

text \<open>The inline methods, each with the initial values it hands to the SPARK binding.\<close>

definition library_info :: "'l cbe_library \<Rightarrow> 'l \<Rightarrow> info" where
  "library_info L l =
     lib_info L l \<lparr> info_valid = False, info_rekeying = False, info_extending_vbd = False,
                    info_extending_ft = False \<rparr>"

definition has_io_request :: "'l cbe_library \<Rightarrow> 'l \<Rightarrow> u32 \<Rightarrow> request \<times> u32" where
  "has_io_request L l data_index = lib_has_io_request L l invalid_request data_index"

definition client_data_ready :: "'l cbe_library \<Rightarrow> 'l \<Rightarrow> request \<times> 'l" where
  "client_data_ready L l = lib_client_data_ready L l invalid_request"

definition obtain_client_data ::
  "'l cbe_library \<Rightarrow> 'l \<Rightarrow> request \<Rightarrow> u32 \<Rightarrow> (bool \<times> u32) \<times> 'l" where
  "obtain_client_data L l r data_index = lib_obtain_client_data L l r data_index False"

definition client_data_required :: "'l cbe_library \<Rightarrow> 'l \<Rightarrow> request \<times> 'l" where
  "client_data_required L l = lib_client_data_required L l invalid_request"

definition supply_client_data ::
  "'l cbe_library \<Rightarrow> 'l \<Rightarrow> request \<Rightarrow> block_data \<Rightarrow> bool \<times> 'l" where
  "supply_client_data L l r data = lib_supply_client_data L l r data False"

definition crypto_add_key_required :: "'l cbe_library \<Rightarrow> 'l \<Rightarrow> key \<Rightarrow> request \<times> key" where
  "crypto_add_key_required L l k = lib_crypto_add_key_required L l invalid_request k"

definition crypto_remove_key_required :: "'l cbe_library \<Rightarrow> 'l \<Rightarrow> u32 \<Rightarrow> request \<times> u32" where
  "crypto_remove_key_required L l kid = lib_crypto_remove_key_required L l invalid_request kid"

definition crypto_cipher_data_required :: "'l cbe_library \<Rightarrow> 'l \<Rightarrow> u32 \<Rightarrow> request \<times> u32" where
  "crypto_cipher_data_required L l data_index =
     lib_crypto_cipher_data_required L l invalid_request data_index"

definition crypto_plain_data_required :: "'l cbe_library \<Rightarrow> 'l \<Rightarrow> u32 \<Rightarrow> request \<times> u32" where
  "crypto_plain_data_required L l data_index =
     lib_crypto_plain_data_required L l invalid_request data_index"

text \<open>
  A library that has nothing to do; the examples change the methods they need.
\<close>

definition null_library :: "'l cbe_library" where
  "null_library =
     \<lparr> max_vba = (\<lambda>l. 0), lib_info = (\<lambda>l i. i),
       lib_execute = (\<lambda>l io plain cipher. (l, io, plain, cipher)), execute_progress = (\<lambda>l. False),
       client_request_acceptable = (\<lambda>l. True), submit_client_request = (\<lambda>l r n. l),
       peek_completed_client_request = (\<lambda>l. invalid_request),
       drop_completed_client_request = (\<lambda>l r. l), io_request_completed = (\<lambda>l n b. l),
       lib_has_io_request = (\<lambda>l r n. (r, n)), io_request_in_progress = (\<lambda>l n. l),
       lib_client_data_ready = (\<lambda>l r. (r, l)), client_data_index = (\<lambda>l r. 0),
       lib_obtain_client_data = (\<lambda>l r n b. ((b, n), l)),
       lib_client_data_required = (\<lambda>l r. (r, l)), lib_supply_client_data = (\<lambda>l r d b. (b, l)),
       active_snapshot_ids = (\<lambda>l. []), lib_crypto_add_key_required = (\<lambda>l r k. (r, k)),
       crypto_add_key_requested = (\<lambda>l r. l), crypto_add_key_completed = (\<lambda>l r. l),
       lib_crypto_remove_key_required = (\<lambda>l r n. (r, n)),
       crypto_remove_key_requested = (\<lambda>l r. l), crypto_remove_key_completed = (\<lambda>l r. l),
       lib_crypto_cipher_data_required = (\<lambda>l r n. (r, n)),
       crypto_cipher_data_requested = (\<lambda>l n. l), supply_crypto_cipher_data = (\<lambda>l n b. l),
       lib_crypto_plain_data_required = (\<lambda>l r n. (r, n)),
       crypto_plain_data_requested = (\<lambda>l n. l), supply_crypto_plain_data = (\<lambda>l n b. l) \<rparr>"

section \<open>The libraries behind the tools\<close>

record 'l check_library =
  tool_client_request_acceptable :: "'l \<Rightarrow> bool"
  tool_peek_completed_client_request :: "'l \<Rightarrow> request"
  tool_drop_completed_client_request :: "'l \<Rightarrow> request \<Rightarrow> 'l"
  tool_execute :: "'l \<Rightarrow> block_buffer \<Rightarrow> 'l \<times> block_buffer"
  tool_execute_progress :: "'l \<Rightarrow> bool"
  tool_io_request_completed :: "'l \<Rightarrow> u32 \<Rightarrow> bool \<Rightarrow> 'l"
  tool_has_io_request :: "'l \<Rightarrow> request \<Rightarrow> u32 \<Rightarrow> request \<times> u32"
  tool_io_request_in_progress :: "'l \<Rightarrow> u32 \<Rightarrow> 'l"

section \<open>Open files of the VFS\<close>

datatype read_result =
    READ_ERR_AGAIN | READ_ERR_WOULD_BLOCK | READ_ERR_INVALID | READ_ERR_IO
  | READ_ERR_INTERRUPT | READ_QUEUED | READ_OK

datatype write_result =
    WRITE_ERR_AGAIN | WRITE_ERR_WOULD_BLOCK | WRITE_ERR_INVALID | WRITE_ERR_IO
  | WRITE_ERR_INTERRUPT | WRITE_OK

text \<open>A \<open>write\<close> may leave with the exception \<open>Insufficient_buffer\<close>, which its callers catch.\<close>

datatype write_outcome = Insufficient_buffer | Wrote write_result

datatype sync_result = SYNC_QUEUED | SYNC_ERR_INVALID | SYNC_OK

text \<open>
  \<open>complete_read\<close> returns the result, \<open>out_count\<close> and the bytes it stored at the
  destination; \<open>write\<close> gets the bytes at the source pointer and returns \<open>out_count\<close>.
\<close>

record 'f vfs_file =
  vfs_seek :: "'f \<Rightarrow> u64 \<Rightarrow> 'f"
  vfs_queue_read :: "'f \<Rightarrow> u64 \<Rightarrow> bool \<times> 'f"
  vfs_complete_read :: "'f \<Rightarrow> u64 \<Rightarrow> (read_result \<times> u64 \<times> bytes) \<times> 'f"
  vfs_write :: "'f \<Rightarrow> bytes \<Rightarrow> u64 \<Rightarrow> (write_outcome \<times> u64) \<times> 'f"
  vfs_queue_sync :: "'f \<Rightarrow> bool \<times> 'f"
  vfs_complete_sync :: "'f \<Rightarrow> sync_result \<times> 'f"

end
