(* ===== verification/Io_Job.thy ===== *)
theory Io_Job
  imports Cbe_Library
begin

text \<open>
  The back-end I/O job of the VFS plugin (\<open>src/lib/vfs/cbe/io_job.h\<close>) and the contract of
  a transfer in pieces.

  A job moves \<open>length\<close> bytes between a file and one block of the I/O buffer. The file may
  answer with fewer bytes than asked, may ask to come back later, or may fail. The state
  \<open>PENDING \<rightarrow> IN_PROGRESS \<rightarrow> COMPLETE\<close> is walked with C++ fallthrough, so one call can do
  all three; each state is one definition and the earlier one calls the next.

  The locale \<open>transfer_job\<close> is the contract of such a transfer. Its client lemmas speak of
  any number of calls with arbitrary changes of the environment in between (\<open>job_run\<close>).
  Here it is interpreted for reading and for writing; the replay tool interprets it again.
\<close>

section \<open>State\<close>

datatype io_state = PENDING | IN_PROGRESS | COMPLETE

fun io_state_rank :: "io_state \<Rightarrow> nat" where
  "io_state_rank PENDING = 0"
| "io_state_rank IN_PROGRESS = 1"
| "io_state_rank COMPLETE = 2"

lemma io_state_rank_inject [simp]: "io_state_rank a = io_state_rank b \<longleftrightarrow> a = b"
  by (cases a; cases b) simp_all

text \<open>The enumeration's order.\<close>

instantiation io_state :: linorder
begin

definition less_eq_io_state :: "io_state \<Rightarrow> io_state \<Rightarrow> bool" where
  "less_eq_io_state a b \<longleftrightarrow> io_state_rank a \<le> io_state_rank b"

definition less_io_state :: "io_state \<Rightarrow> io_state \<Rightarrow> bool" where
  "less_io_state a b \<longleftrightarrow> io_state_rank a < io_state_rank b"

instance
  by standard (auto simp: less_eq_io_state_def less_io_state_def)

end

fun initial_state :: "operation \<Rightarrow> exn + io_state" where
  "initial_state READ = Inr PENDING"
| "initial_state WRITE = Inr PENDING"
| "initial_state SYNC = Inr PENDING"
| "initial_state op = Inl Unsupported_Operation"

fun state_to_string :: "io_state \<Rightarrow> string" where
  "state_to_string PENDING = ''PENDING''"
| "state_to_string IN_PROGRESS = ''IN_PROGRESS''"
| "state_to_string COMPLETE = ''COMPLETE''"

record io_job =
  job_op :: operation
  job_index :: u32
  job_io_state :: io_state
  job_base_offset :: u64
  job_current_offset :: u64
  job_current_count :: u64
  job_success :: bool
  job_complete :: bool

definition new_io_job :: "operation \<Rightarrow> u32 \<Rightarrow> u64 \<Rightarrow> u64 \<Rightarrow> exn + io_job" where
  "new_io_job op index base_offset len =
     bind_exn (initial_state op) (\<lambda>s.
       Inr \<lparr> job_op = op, job_index = index, job_io_state = s, job_base_offset = base_offset,
             job_current_offset = 0, job_current_count = len, job_success = False,
             job_complete = False \<rparr>)"

text \<open>What a call of the job can change: the job, the file, the library and the I/O buffer.\<close>

record ('f, 'l) io_env =
  env_job :: io_job
  env_file :: 'f
  env_lib :: 'l
  env_io_data :: block_buffer

section \<open>Reading and writing\<close>

definition job_done :: "'l cbe_library \<Rightarrow> ('f, 'l) io_env \<Rightarrow> ('f, 'l) io_env \<times> bool" where
  "job_done L e =
     (e\<lparr>env_lib := io_request_completed L (env_lib e) (job_index (env_job e)) (job_success (env_job e)),
        env_job := (env_job e)\<lparr>job_complete := True\<rparr>\<rparr>, True)"

text \<open>
  How the code classifies a result: come back later, moved \<open>out\<close> bytes, or failed. The tail
  of \<open>_read\<close> and \<open>_write\<close> after the classification is the same code.
\<close>

datatype answer = Wait | Moved u64 | Failed

fun read_answer :: "read_result \<Rightarrow> u64 \<Rightarrow> answer" where
  "read_answer READ_QUEUED out = Wait"
| "read_answer READ_ERR_INTERRUPT out = Wait"
| "read_answer READ_ERR_AGAIN out = Wait"
| "read_answer READ_ERR_WOULD_BLOCK out = Wait"
| "read_answer READ_OK out = Moved out"
| "read_answer READ_ERR_IO out = Failed"
| "read_answer READ_ERR_INVALID out = Failed"

fun write_answer :: "write_outcome \<Rightarrow> u64 \<Rightarrow> answer" where
  "write_answer Insufficient_buffer out = Wait"
| "write_answer (Wrote WRITE_ERR_AGAIN) out = Wait"
| "write_answer (Wrote WRITE_ERR_INTERRUPT) out = Wait"
| "write_answer (Wrote WRITE_ERR_WOULD_BLOCK) out = Wait"
| "write_answer (Wrote WRITE_OK) out = Moved out"
| "write_answer (Wrote WRITE_ERR_IO) out = Failed"
| "write_answer (Wrote WRITE_ERR_INVALID) out = Failed"

definition apply_answer ::
  "'l cbe_library \<Rightarrow> bool \<Rightarrow> answer \<Rightarrow> ('f, 'l) io_env \<Rightarrow> ('f, 'l) io_env \<times> bool" where
  "apply_answer L progress a e =
     (case a of
        Wait \<Rightarrow> (e, progress)
      | Moved out \<Rightarrow>
          (let j = (env_job e)\<lparr>job_current_offset := job_current_offset (env_job e) + out,
                               job_current_count := job_current_count (env_job e) - out,
                               job_success := True\<rparr>
           in if job_current_count j = 0
              then job_done L (e\<lparr>env_job := j\<lparr>job_io_state := COMPLETE\<rparr>\<rparr>)
              else (e\<lparr>env_job := j\<lparr>job_io_state := PENDING\<rparr>\<rparr>, True))
      | Failed \<Rightarrow>
          job_done L (e\<lparr>env_job := (env_job e)\<lparr>job_success := False, job_io_state := COMPLETE\<rparr>\<rparr>))"

definition read_in_progress ::
  "'f vfs_file \<Rightarrow> 'l cbe_library \<Rightarrow> bool \<Rightarrow> ('f, 'l) io_env \<Rightarrow> exn + (('f, 'l) io_env \<times> bool)" where
  "read_in_progress F L progress e =
     (let j = env_job e in
      bind_exn (item (env_io_data e) (job_index j)) (\<lambda>data.
        case vfs_complete_read F (env_file e) (job_current_count j) of ((result, out, bs), f') \<Rightarrow>
        bind_exn (set_item (env_io_data e) (job_index j)
                    (overwrite data (unat (job_current_offset j)) bs)) (\<lambda>io'.
          Inr (apply_answer L progress (read_answer result out)
                 (e\<lparr>env_file := f', env_io_data := io'\<rparr>)))))"

definition io_read ::
  "'f vfs_file \<Rightarrow> 'l cbe_library \<Rightarrow> ('f, 'l) io_env \<Rightarrow> exn + (('f, 'l) io_env \<times> bool)" where
  "io_read F L e =
     (let j = env_job e in
      case job_io_state j of
        PENDING \<Rightarrow>
          (let f1 = vfs_seek F (env_file e) (job_base_offset j + job_current_offset j) in
           case vfs_queue_read F f1 (job_current_count j) of (queued, f2) \<Rightarrow>
           if \<not> queued then Inr (e\<lparr>env_file := f2\<rparr>, False)
           else read_in_progress F L True
                  (e\<lparr>env_file := f2,
                     env_lib := io_request_in_progress L (env_lib e) (job_index j),
                     env_job := j\<lparr>job_io_state := IN_PROGRESS\<rparr>\<rparr>))
      | IN_PROGRESS \<Rightarrow> read_in_progress F L False e
      | COMPLETE \<Rightarrow> Inr (job_done L e))"

definition write_in_progress ::
  "'f vfs_file \<Rightarrow> 'l cbe_library \<Rightarrow> bool \<Rightarrow> ('f, 'l) io_env \<Rightarrow> exn + (('f, 'l) io_env \<times> bool)" where
  "write_in_progress F L progress e =
     (let j = env_job e in
      bind_exn (item (env_io_data e) (job_index j)) (\<lambda>data.
        case vfs_write F (env_file e)
               (take (unat (job_current_count j)) (drop (unat (job_current_offset j)) data))
               (job_current_count j) of ((outcome, out), f') \<Rightarrow>
        Inr (apply_answer L progress (write_answer outcome out) (e\<lparr>env_file := f'\<rparr>))))"

definition io_write ::
  "'f vfs_file \<Rightarrow> 'l cbe_library \<Rightarrow> ('f, 'l) io_env \<Rightarrow> exn + (('f, 'l) io_env \<times> bool)" where
  "io_write F L e =
     (let j = env_job e in
      case job_io_state j of
        PENDING \<Rightarrow>
          write_in_progress F L True
            (e\<lparr>env_file := vfs_seek F (env_file e) (job_base_offset j + job_current_offset j),
               env_lib := io_request_in_progress L (env_lib e) (job_index j),
               env_job := j\<lparr>job_io_state := IN_PROGRESS\<rparr>\<rparr>)
      | IN_PROGRESS \<Rightarrow> write_in_progress F L False e
      | COMPLETE \<Rightarrow> Inr (job_done L e))"

section \<open>Synchronisation\<close>

definition sync_in_progress ::
  "'f vfs_file \<Rightarrow> 'l cbe_library \<Rightarrow> bool \<Rightarrow> ('f, 'l) io_env \<Rightarrow> exn + (('f, 'l) io_env \<times> bool)" where
  "sync_in_progress F L progress e =
     (let j = env_job e in
      case vfs_complete_sync F (env_file e) of (result, f') \<Rightarrow>
      let e1 = e\<lparr>env_file := f'\<rparr> in
      case result of
        SYNC_QUEUED \<Rightarrow> Inr (e1, progress)
      | SYNC_ERR_INVALID \<Rightarrow>
          Inr (job_done L (e1\<lparr>env_job := j\<lparr>job_success := False, job_io_state := COMPLETE\<rparr>\<rparr>))
      | SYNC_OK \<Rightarrow>
          Inr (job_done L (e1\<lparr>env_job := j\<lparr>job_success := True, job_io_state := COMPLETE\<rparr>\<rparr>)))"

definition io_sync ::
  "'f vfs_file \<Rightarrow> 'l cbe_library \<Rightarrow> ('f, 'l) io_env \<Rightarrow> exn + (('f, 'l) io_env \<times> bool)" where
  "io_sync F L e =
     (let j = env_job e in
      case job_io_state j of
        PENDING \<Rightarrow>
          (case vfs_queue_sync F (env_file e) of (queued, f1) \<Rightarrow>
           if \<not> queued then Inr (e\<lparr>env_file := f1\<rparr>, False)
           else sync_in_progress F L True
                  (e\<lparr>env_file := f1,
                     env_lib := io_request_in_progress L (env_lib e) (job_index j),
                     env_job := j\<lparr>job_io_state := IN_PROGRESS\<rparr>\<rparr>))
      | IN_PROGRESS \<Rightarrow> sync_in_progress F L False e
      | COMPLETE \<Rightarrow> Inr (job_done L e))"

section \<open>The job\<close>

definition job_completed :: "io_job \<Rightarrow> bool" where
  "job_completed j \<longleftrightarrow> job_complete j"

definition job_succeeded :: "io_job \<Rightarrow> bool" where
  "job_succeeded j \<longleftrightarrow> job_success j"

definition print_job :: "io_job \<Rightarrow> out_item list" where
  "print_job j =
     [OStr ''('', OStr (operation_name (job_op j)), OStr '')'',
      OStr '' state: '', OStr (state_to_string (job_io_state j)),
      OStr '' base_offset: '', OU64 (job_base_offset j),
      OStr '' current_offset: '', OU64 (job_current_offset j),
      OStr '' current_count: '', OU64 (job_current_count j),
      OStr '' success: '', OBool (job_success j),
      OStr '' complete: '', OBool (job_complete j)]"

definition job_execute ::
  "'f vfs_file \<Rightarrow> 'l cbe_library \<Rightarrow> ('f, 'l) io_env \<Rightarrow> exn + (('f, 'l) io_env \<times> bool)" where
  "job_execute F L e =
     (if job_op (env_job e) = READ then io_read F L e
      else if job_op (env_job e) = WRITE then io_write F L e
      else if job_op (env_job e) = SYNC then io_sync F L e
      else Inr (e, False))"

section \<open>The contract of a transfer in pieces\<close>

text \<open>
  A run of a job: calls of its step function, and changes of everything that the projection
  \<open>job\<close> does not see. \<open>ok\<close> restricts the states in which a call is made.
\<close>

definition open_job :: "('f, 'l) io_env \<Rightarrow> bool" where
  "open_job e \<longleftrightarrow> \<not> job_completed (env_job e)"

inductive job_run ::
  "('s \<Rightarrow> exn + ('s \<times> bool)) \<Rightarrow> ('s \<Rightarrow> 'j) \<Rightarrow> ('s \<Rightarrow> bool) \<Rightarrow> 's \<Rightarrow> 's \<Rightarrow> bool"
  for step job ok where
  start: "job_run step job ok s s"
| call: "job_run step job ok s t \<Longrightarrow> ok t \<Longrightarrow> step t = Inr (u, p) \<Longrightarrow> job_run step job ok s u"
| environment: "job_run step job ok s t \<Longrightarrow> job u = job t \<Longrightarrow> job_run step job ok s u"

locale transfer_job =
  fixes step :: "'s \<Rightarrow> exn + ('s \<times> bool)"
    and job :: "'s \<Rightarrow> 'j"
    and ready :: "'j \<Rightarrow> bool"
    and off :: "'j \<Rightarrow> u64"
    and cnt :: "'j \<Rightarrow> u64"
    and complete :: "'j \<Rightarrow> bool"
    and success :: "'j \<Rightarrow> bool"
    and bounded :: "'s \<Rightarrow> bool"
  assumes ready_step: "ready (job s) \<Longrightarrow> \<not> complete (job s) \<Longrightarrow> step s = Inr (s', p) \<Longrightarrow> ready (job s')"
    and ready_finish: "ready j \<Longrightarrow> complete j \<Longrightarrow> success j \<Longrightarrow> cnt j = 0"
    and conserve: "step s = Inr (s', p) \<Longrightarrow> off (job s') + cnt (job s') = off (job s) + cnt (job s)"
    and bounded_le: "step s = Inr (s', p) \<Longrightarrow> bounded s \<Longrightarrow> cnt (job s') \<le> cnt (job s)"
begin

lemma run_ready:
  assumes "job_run step job ok s t" "ready (job s)" "\<And>u. ok u \<Longrightarrow> \<not> complete (job u)"
  shows "ready (job t)"
  using assms by (induction rule: job_run.induct) (auto intro: ready_step)

lemma run_conserve:
  "job_run step job ok s t \<Longrightarrow> off (job t) + cnt (job t) = off (job s) + cnt (job s)"
  by (induction rule: job_run.induct) (auto dest: conserve)

text \<open>A job that ends with success has moved all it was asked to move.\<close>

lemma run_complete:
  assumes "job_run step job ok s t" "ready (job s)" "complete (job t)" "success (job t)"
    and "\<And>u. ok u \<Longrightarrow> \<not> complete (job u)"
  shows "off (job t) = off (job s) + cnt (job s) \<and> cnt (job t) = 0"
  using run_ready [OF assms(1,2,5)] run_conserve [OF assms(1)] ready_finish assms(3,4) by fastforce

text \<open>If no answer exceeds what was asked, the window only moves forward and never wraps.\<close>

lemma run_bounded:
  assumes "job_run step job bounded s t" "unat (off (job s)) + unat (cnt (job s)) < 2 ^ 64"
  shows "unat (off (job t)) + unat (cnt (job t)) = unat (off (job s)) + unat (cnt (job s))
       \<and> cnt (job t) \<le> cnt (job s)"
  using assms
proof (induction rule: job_run.induct)
  case (start s)
  then show ?case by simp
next
  case (call s t u p)
  from call have t: "unat (off (job t)) + unat (cnt (job t)) < 2 ^ 64" by simp
  have le: "cnt (job u) \<le> cnt (job t)" using call bounded_le by blast
  have sum: "off (job u) + cnt (job u) = off (job t) + cnt (job t)" using call conserve by blast
  have "unat (off (job t) + cnt (job t)) = unat (off (job t)) + unat (cnt (job t))"
    using t unat_add_lem [of "off (job t)" "cnt (job t)"] by simp
  moreover have "unat (cnt (job u)) \<le> unat (cnt (job t))" using le by (simp add: word_le_nat_alt)
  moreover have "off (job u) = (off (job t) + cnt (job t)) - cnt (job u)"
    by (metis add_diff_cancel_right' sum)
  ultimately have "unat (off (job u)) = unat (off (job t)) + unat (cnt (job t)) - unat (cnt (job u))"
    by (simp add: unat_sub word_le_nat_alt)
  with \<open>unat (cnt (job u)) \<le> unat (cnt (job t))\<close> le call show ?case by auto
next
  case (environment s t u)
  then show ?case by simp
qed

end

section \<open>The reading and the writing job\<close>

definition job_ready :: "io_job \<Rightarrow> bool" where
  "job_ready j \<longleftrightarrow>
     (job_complete j \<and> job_success j \<longrightarrow> job_current_count j = 0)
     \<and> (job_io_state j = COMPLETE \<longleftrightarrow> job_complete j)"

text \<open>The VFS answers with at most the count asked, and stores no more than it says.\<close>

definition file_bounded :: "'f vfs_file \<Rightarrow> bool" where
  "file_bounded F \<longleftrightarrow>
     (\<forall>f n result out bs f'. vfs_complete_read F f n = ((result, out, bs), f')
        \<longrightarrow> out \<le> n \<and> length bs \<le> unat n)
     \<and> (\<forall>f d n outcome out f'. vfs_write F f d n = ((outcome, out), f') \<longrightarrow> out \<le> n)"

lemma open_jobD: "open_job e \<Longrightarrow> \<not> job_complete (env_job e)"
  by (simp add: open_job_def job_completed_def)

lemma read_answer_Moved: "read_answer result out = Moved n \<Longrightarrow> n = out"
  by (cases result) simp_all

lemma write_answer_Moved: "write_answer outcome out = Moved n \<Longrightarrow> n = out"
  by (cases "(outcome, out)" rule: write_answer.cases) simp_all

text \<open>What one call does to the job.\<close>

inductive job_step :: "bool \<Rightarrow> io_job \<Rightarrow> io_job \<Rightarrow> bool" for bounded where
  same: "job_step bounded j j"
| wait: "job_io_state j = PENDING \<Longrightarrow> job_step bounded j (j\<lparr>job_io_state := IN_PROGRESS\<rparr>)"
| moved_all: "job_io_state j \<noteq> COMPLETE \<Longrightarrow> out = job_current_count j \<Longrightarrow>
    job_step bounded j (j\<lparr>job_current_offset := job_current_offset j + out, job_current_count := 0,
      job_success := True, job_io_state := COMPLETE, job_complete := True\<rparr>)"
| moved_some: "job_io_state j \<noteq> COMPLETE \<Longrightarrow> out \<noteq> job_current_count j \<Longrightarrow>
    \<not> bounded \<or> out \<le> job_current_count j \<Longrightarrow>
    job_step bounded j (j\<lparr>job_current_offset := job_current_offset j + out,
      job_current_count := job_current_count j - out,
      job_success := True, job_io_state := PENDING\<rparr>)"
| failed: "job_io_state j \<noteq> COMPLETE \<Longrightarrow>
    job_step bounded j (j\<lparr>job_success := False, job_io_state := COMPLETE, job_complete := True\<rparr>)"
| again: "job_io_state j = COMPLETE \<Longrightarrow> job_step bounded j (j\<lparr>job_complete := True\<rparr>)"

inductive_cases job_stepE: "job_step bounded j j'"

lemma apply_answer_step:
  assumes e': "apply_answer L progress a e = (e', p)"
    and st: "job_io_state (env_job e) \<noteq> COMPLETE"
    and le: "\<And>out. a = Moved out \<Longrightarrow> \<not> bounded \<or> out \<le> job_current_count (env_job e)"
  shows "job_step bounded (env_job e) (env_job e')"
proof (cases a)
  case Wait
  then show ?thesis using e' job_step.same by (simp add: apply_answer_def)
next
  case (Moved out)
  show ?thesis
  proof (cases "out = job_current_count (env_job e)")
    case True
    then show ?thesis using e' Moved job_step.moved_all [OF st True, of bounded]
      by (auto simp: apply_answer_def job_done_def)
  next
    case False
    then show ?thesis using e' Moved job_step.moved_some [OF st False, of bounded] le
      by (auto simp: apply_answer_def)
  qed
next
  case Failed
  then show ?thesis
    using e' job_step.failed [OF st, of bounded] by (auto simp: apply_answer_def job_done_def)
qed

lemma apply_answer_frame [simp]:
  "env_file (fst (apply_answer L progress a e)) = env_file e"
  "env_io_data (fst (apply_answer L progress a e)) = env_io_data e"
  by (simp_all add: apply_answer_def job_done_def Let_def split: answer.split)

text \<open>The state \<open>IN_PROGRESS\<close> that a pending job passes through does not show in the result.\<close>

lemma job_step_pending:
  assumes "job_io_state j = PENDING" "job_step bounded (j\<lparr>job_io_state := IN_PROGRESS\<rparr>) j'"
  shows "job_step bounded j j'"
  using assms(2)
  by (cases rule: job_step.cases)
    (use assms(1) job_step.wait [OF assms(1)] job_step.moved_all [of j _ bounded]
      job_step.moved_some [of j _ bounded] job_step.failed [of j bounded] in auto)

lemma read_in_progressE:
  assumes "read_in_progress F L progress e = Inr (e', p)"
  obtains data result out bs f' io' where
    "item (env_io_data e) (job_index (env_job e)) = Inr data"
    "vfs_complete_read F (env_file e) (job_current_count (env_job e)) = ((result, out, bs), f')"
    "set_item (env_io_data e) (job_index (env_job e))
       (overwrite data (unat (job_current_offset (env_job e))) bs) = Inr io'"
    "apply_answer L progress (read_answer result out) (e\<lparr>env_file := f', env_io_data := io'\<rparr>) = (e', p)"
  using assms
  by (auto simp: read_in_progress_def Let_def split: prod.splits elim!: bind_exn_InrE)

lemma write_in_progressE:
  assumes "write_in_progress F L progress e = Inr (e', p)"
  obtains data outcome out f' where
    "item (env_io_data e) (job_index (env_job e)) = Inr data"
    "vfs_write F (env_file e)
       (take (unat (job_current_count (env_job e))) (drop (unat (job_current_offset (env_job e))) data))
       (job_current_count (env_job e)) = ((outcome, out), f')"
    "apply_answer L progress (write_answer outcome out) (e\<lparr>env_file := f'\<rparr>) = (e', p)"
  using assms
  by (auto simp: write_in_progress_def Let_def split: prod.splits elim!: bind_exn_InrE)

lemma read_in_progress_step:
  assumes "read_in_progress F L progress e = Inr (e', p)" "job_io_state (env_job e) \<noteq> COMPLETE"
  shows "job_step (file_bounded F) (env_job e) (env_job e')"
  using assms(1)
proof (rule read_in_progressE)
  fix data result out bs f' io'
  assume r: "vfs_complete_read F (env_file e) (job_current_count (env_job e)) = ((result, out, bs), f')"
    and e': "apply_answer L progress (read_answer result out) (e\<lparr>env_file := f', env_io_data := io'\<rparr>) = (e', p)"
  have "\<not> file_bounded F \<or> out \<le> job_current_count (env_job e)"
    using r unfolding file_bounded_def by blast
  with apply_answer_step [OF e', of "file_bounded F"] assms(2) show ?thesis
    by (auto dest: read_answer_Moved)
qed

lemma write_in_progress_step:
  assumes "write_in_progress F L progress e = Inr (e', p)" "job_io_state (env_job e) \<noteq> COMPLETE"
  shows "job_step (file_bounded F) (env_job e) (env_job e')"
  using assms(1)
proof (rule write_in_progressE)
  fix data outcome out f'
  assume r: "vfs_write F (env_file e)
      (take (unat (job_current_count (env_job e))) (drop (unat (job_current_offset (env_job e))) data))
      (job_current_count (env_job e)) = ((outcome, out), f')"
    and e': "apply_answer L progress (write_answer outcome out) (e\<lparr>env_file := f'\<rparr>) = (e', p)"
  have "\<not> file_bounded F \<or> out \<le> job_current_count (env_job e)"
    using r unfolding file_bounded_def by blast
  with apply_answer_step [OF e', of "file_bounded F"] assms(2) show ?thesis
    by (auto dest: write_answer_Moved)
qed

lemma io_read_step: "io_read F L e = Inr (e', p) \<Longrightarrow> job_step (file_bounded F) (env_job e) (env_job e')"
  by (auto simp: io_read_def Let_def job_done_def split: io_state.splits prod.splits if_splits
      dest!: read_in_progress_step intro: job_step.same job_step.again job_step_pending)

lemma io_write_step: "io_write F L e = Inr (e', p) \<Longrightarrow> job_step (file_bounded F) (env_job e) (env_job e')"
  by (auto simp: io_write_def Let_def job_done_def split: io_state.splits
      dest!: write_in_progress_step intro: job_step.same job_step.again job_step_pending)

lemma job_step_ready: "job_step b j j' \<Longrightarrow> job_ready j \<Longrightarrow> job_ready j'"
  by (elim job_stepE) (auto simp: job_ready_def)

lemma job_step_conserve:
  "job_step b j j' \<Longrightarrow>
   job_current_offset j' + job_current_count j' = job_current_offset j + job_current_count j"
  by (elim job_stepE) auto

lemma job_step_bounded:
  "job_step b j j' \<Longrightarrow> b \<Longrightarrow> job_current_count j' \<le> job_current_count j"
  by (elim job_stepE) (auto simp: word_sub_le)

lemma job_ready_finish: "job_ready j \<Longrightarrow> job_complete j \<Longrightarrow> job_success j \<Longrightarrow> job_current_count j = 0"
  by (simp add: job_ready_def)

interpretation reading: transfer_job "io_read F L" env_job job_ready job_current_offset
  job_current_count job_complete job_success "\<lambda>_. file_bounded F" for F L
  by unfold_locales
    (blast intro: job_step_ready job_ready_finish job_step_conserve job_step_bounded dest: io_read_step)+

interpretation writing: transfer_job "io_write F L" env_job job_ready job_current_offset
  job_current_count job_complete job_success "\<lambda>_. file_bounded F" for F L
  by unfold_locales
    (blast intro: job_step_ready job_ready_finish job_step_conserve job_step_bounded dest: io_write_step)+

section \<open>What a read job leaves in the buffer\<close>

text \<open>
  A file of fixed contents: \<open>pos\<close> is the seek position of the handle, a read stores the
  bytes at that position, as many as it says, and does not move the position.
\<close>

definition file_holds :: "'f vfs_file \<Rightarrow> ('f \<Rightarrow> u64) \<Rightarrow> bytes \<Rightarrow> bool" where
  "file_holds F pos contents \<longleftrightarrow>
     (\<forall>f p. pos (vfs_seek F f p) = p)
     \<and> (\<forall>f n. pos (snd (vfs_queue_read F f n)) = pos f)
     \<and> (\<forall>f n result out bs f'. vfs_complete_read F f n = ((result, out, bs), f') \<longrightarrow>
          pos f' = pos f \<and> out \<le> n
          \<and> (if result = READ_OK
             then bs = take (unat out) (drop (unat (pos f)) contents) \<and> length bs = unat out
             else bs = []))"

lemma file_holds_seek: "file_holds F pos contents \<Longrightarrow> pos (vfs_seek F f p) = p"
  by (simp add: file_holds_def)

lemma file_holds_queue:
  "file_holds F pos contents \<Longrightarrow> vfs_queue_read F f n = (q, f') \<Longrightarrow> pos f' = pos f"
  by (simp add: file_holds_def) (metis snd_conv)

lemma file_holds_read:
  assumes "file_holds F pos contents" "vfs_complete_read F f n = ((result, out, bs), f')"
  shows "pos f' = pos f" "out \<le> n"
    "result = READ_OK \<Longrightarrow> bs = take (unat out) (drop (unat (pos f)) contents) \<and> length bs = unat out"
    "result \<noteq> READ_OK \<Longrightarrow> bs = []"
proof -
  from assms have "pos f' = pos f \<and> out \<le> n
      \<and> (if result = READ_OK
         then bs = take (unat out) (drop (unat (pos f)) contents) \<and> length bs = unat out
         else bs = [])"
    unfolding file_holds_def by blast
  then show "pos f' = pos f" "out \<le> n"
    "result = READ_OK \<Longrightarrow> bs = take (unat out) (drop (unat (pos f)) contents) \<and> length bs = unat out"
    "result \<noteq> READ_OK \<Longrightarrow> bs = []"
    by metis+
qed

definition window_inv :: "u64 \<Rightarrow> nat \<Rightarrow> bytes \<Rightarrow> io_job \<Rightarrow> block_buffer \<Rightarrow> bool" where
  "window_inv base n contents j io \<longleftrightarrow>
     job_base_offset j = base \<and> job_index j = 0 \<and> wf_buffer io
     \<and> unat (job_current_offset j) + unat (job_current_count j) = n
     \<and> take (unat (job_current_offset j)) (io ! 0)
         = take (unat (job_current_offset j)) (drop (unat base) contents)"

definition read_inv :: "('f \<Rightarrow> u64) \<Rightarrow> u64 \<Rightarrow> nat \<Rightarrow> bytes \<Rightarrow> io_job \<Rightarrow> 'f \<Rightarrow> block_buffer \<Rightarrow> bool" where
  "read_inv pos base n contents j f io \<longleftrightarrow>
     window_inv base n contents j io
     \<and> (job_io_state j = IN_PROGRESS \<longrightarrow> pos f = base + job_current_offset j)"

lemma overwrite_Nil [simp]: "overwrite xs k [] = xs"
  by (simp add: overwrite_def)

lemma take_overwrite:
  assumes "k \<le> length xs"
  shows "take (k + length bs) (overwrite xs k bs) = take k xs @ bs"
  using assms by (simp add: overwrite_def min_def)

lemma set_item_window:
  assumes "wf_buffer io" "length bs + k \<le> 4096"
  shows "set_item io 0 (overwrite (io ! 0) k bs) = Inr [overwrite (io ! 0) k bs]
       \<and> wf_buffer [overwrite (io ! 0) k bs]"
proof -
  from assms(1) obtain b where io: "io = [b]" and len: "length b = 4096"
    by (auto simp: wf_buffer_def wf_block_def length_Suc_conv)
  with assms(2) show ?thesis by (simp add: set_item_def wf_buffer_def wf_block_def)
qed

lemma window_advance:
  assumes w: "window_inv base n contents j io" and n: "n \<le> 4096" "unat base + n < 2 ^ 64"
    and out: "out \<le> job_current_count j"
    and bs: "bs = take (unat out) (drop (unat (base + job_current_offset j)) contents)"
      "length bs = unat out"
    and io': "set_item io 0 (overwrite (io ! 0) (unat (job_current_offset j)) bs) = Inr io'"
    and j': "job_base_offset j' = base" "job_index j' = 0"
      "job_current_offset j' = job_current_offset j + out"
      "job_current_count j' = job_current_count j - out"
  shows "window_inv base n contents j' io'"
proof -
  let ?k = "unat (job_current_offset j)"
  from w have wf: "wf_buffer io" and sum: "?k + unat (job_current_count j) = n"
    and pre: "take ?k (io ! 0) = take ?k (drop (unat base) contents)"
    by (simp_all add: window_inv_def)
  have le: "unat out \<le> unat (job_current_count j)" using out by (simp add: word_le_nat_alt)
  have off: "unat (job_current_offset j + out) = ?k + unat out"
    using sum le n unat_add_lem [of "job_current_offset j" out] by simp
  have cnt: "unat (job_current_count j - out) = unat (job_current_count j) - unat out"
    using out by (simp add: unat_sub)
  have pos: "unat (base + job_current_offset j) = unat base + ?k"
    using sum n unat_add_lem [of base "job_current_offset j"] by simp
  have io'_eq: "io' = [overwrite (io ! 0) ?k bs]" "wf_buffer io'"
    using set_item_window [OF wf, of bs ?k] io' bs(2) sum le n(1) by simp_all
  have len: "length (io ! 0) = 4096"
    using wf by (auto simp: wf_buffer_def wf_block_def length_Suc_conv)
  have "take (?k + unat out) (io' ! 0) = take ?k (io ! 0) @ bs"
    using take_overwrite [of ?k "io ! 0" bs] len sum n(1) bs(2) by (simp add: io'_eq)
  also have "\<dots> = take (?k + unat out) (drop (unat base) contents)"
    by (simp add: pre bs(1) pos take_add add.commute [of "unat base"])
  finally show ?thesis
    using io'_eq off cnt sum le j' by (simp add: window_inv_def)
qed

lemma read_in_progress_inv:
  assumes F: "file_holds F pos contents" and n: "n \<le> 4096" "unat base + n < 2 ^ 64"
    and w: "window_inv base n contents (env_job e) (env_io_data e)"
    and p: "pos (env_file e) = base + job_current_offset (env_job e)"
    and r: "read_in_progress F L progress e = Inr (e', q)"
  shows "read_inv pos base n contents (env_job e') (env_file e') (env_io_data e')"
  using r
proof (rule read_in_progressE)
  fix data result out bs f' io'
  assume item: "item (env_io_data e) (job_index (env_job e)) = Inr data"
    and cr: "vfs_complete_read F (env_file e) (job_current_count (env_job e)) = ((result, out, bs), f')"
    and io': "set_item (env_io_data e) (job_index (env_job e))
       (overwrite data (unat (job_current_offset (env_job e))) bs) = Inr io'"
    and e': "apply_answer L progress (read_answer result out) (e\<lparr>env_file := f', env_io_data := io'\<rparr>) = (e', q)"
  note fh = file_holds_read [OF F cr]
  have wf: "wf_buffer (env_io_data e)" and idx: "job_index (env_job e) = 0"
    using w by (simp_all add: window_inv_def)
  have data: "data = env_io_data e ! 0"
    using item item_wf_buffer [OF wf, of 0] idx by simp
  show ?thesis
  proof (cases "result = READ_OK")
    case True
    have "window_inv base n contents (env_job e') io'"
      by (rule window_advance [OF w n fh(2), of bs])
        (use fh(3) [OF True] io' e' True p data idx w in
          \<open>auto simp: apply_answer_def job_done_def Let_def window_inv_def split: if_splits\<close>)
    moreover have "job_io_state (env_job e') \<noteq> IN_PROGRESS" "env_io_data e' = io'"
      using e' True by (auto simp: apply_answer_def job_done_def Let_def split: if_splits)
    ultimately show ?thesis by (simp add: read_inv_def)
  next
    case False
    with fh(4) have "bs = []" by simp
    with io' idx data wf have "io' = env_io_data e"
      by (auto simp: set_item_def wf_buffer_def length_Suc_conv)
    with e' False w p fh(1) show ?thesis
      by (cases result) (auto simp: apply_answer_def job_done_def read_inv_def window_inv_def)
  qed
qed

lemma io_read_inv:
  assumes F: "file_holds F pos contents" and n: "n \<le> 4096" "unat base + n < 2 ^ 64"
    and inv: "read_inv pos base n contents (env_job e) (env_file e) (env_io_data e)"
    and r: "io_read F L e = Inr (e', q)"
  shows "read_inv pos base n contents (env_job e') (env_file e') (env_io_data e')"
proof (cases "job_io_state (env_job e)")
  case PENDING
  let ?j = "env_job e"
  obtain qd f2 where qr: "vfs_queue_read F (vfs_seek F (env_file e) (job_base_offset ?j + job_current_offset ?j))
      (job_current_count ?j) = (qd, f2)" by fastforce
  have w: "window_inv base n contents ?j (env_io_data e)" and base: "job_base_offset ?j = base"
    using inv by (simp_all add: read_inv_def window_inv_def)
  have p: "pos f2 = base + job_current_offset ?j"
    using file_holds_queue [OF F qr] file_holds_seek [OF F] base by simp
  show ?thesis
  proof (cases qd)
    case True
    from r PENDING qr True have
      "read_in_progress F L True
         (e\<lparr>env_file := f2, env_lib := io_request_in_progress L (env_lib e) (job_index ?j),
            env_job := ?j\<lparr>job_io_state := IN_PROGRESS\<rparr>\<rparr>) = Inr (e', q)"
      by (simp add: io_read_def Let_def)
    from read_in_progress_inv [OF F n _ _ this] w p show ?thesis
      by (simp add: window_inv_def)
  next
    case False
    with r PENDING qr w show ?thesis by (auto simp: io_read_def read_inv_def)
  qed
next
  case IN_PROGRESS
  with r have "read_in_progress F L False e = Inr (e', q)" by (simp add: io_read_def)
  from read_in_progress_inv [OF F n _ _ this] inv IN_PROGRESS show ?thesis
    by (simp add: read_inv_def)
next
  case COMPLETE
  with r inv show ?thesis
    by (auto simp: io_read_def Let_def job_done_def read_inv_def window_inv_def)
qed

lemma run_read_inv:
  assumes "job_run (io_read F L) (\<lambda>e. (env_job e, env_file e, env_io_data e)) open_job e e'"
    and "file_holds F pos contents" "n \<le> 4096" "unat base + n < 2 ^ 64"
    and "read_inv pos base n contents (env_job e) (env_file e) (env_io_data e)"
  shows "read_inv pos base n contents (env_job e') (env_file e') (env_io_data e')"
  using assms by (induction rule: job_run.induct) (auto intro: io_read_inv)

text \<open>
  The calls the back end makes until the job reports its completion, at most \<open>k\<close> of them.
\<close>

fun execute_until ::
  "nat \<Rightarrow> 'f vfs_file \<Rightarrow> 'l cbe_library \<Rightarrow> ('f, 'l) io_env \<Rightarrow> exn + ('f, 'l) io_env" where
  "execute_until 0 F L e = Inr e"
| "execute_until (Suc k) F L e =
     (if job_completed (env_job e) then Inr e
      else bind_exn (job_execute F L e) (\<lambda>(e', p). execute_until k F L e'))"

text \<open>A file that accepts every read and answers one inside its contents with at least one byte.\<close>

definition file_delivers :: "'f vfs_file \<Rightarrow> ('f \<Rightarrow> u64) \<Rightarrow> bytes \<Rightarrow> bool" where
  "file_delivers F pos contents \<longleftrightarrow>
     (\<forall>f n. fst (vfs_queue_read F f n))
     \<and> (\<forall>f n. 0 < n \<and> unat (pos f) < length contents \<longrightarrow>
          (case fst (vfs_complete_read F f n) of (result, out, bs) \<Rightarrow> result = READ_OK \<and> 0 < out))"

lemma file_delivers_read:
  assumes "file_delivers F pos contents" "0 < n" "unat (pos f) < length contents"
  obtains out bs f' where "vfs_complete_read F f n = ((READ_OK, out, bs), f')" "0 < out"
proof -
  obtain r out bs f' where r: "vfs_complete_read F f n = ((r, out, bs), f')" by (metis prod_cases4 surj_pair)
  have "case fst (vfs_complete_read F f n) of (result, out, bs) \<Rightarrow> result = READ_OK \<and> 0 < out"
    using assms by (simp add: file_delivers_def)
  with r that show ?thesis by auto
qed

lemma apply_answer_moved:
  assumes "apply_answer L progress (Moved out) e = (e', q)"
  shows "job_op (env_job e') = job_op (env_job e) \<and> job_success (env_job e')
       \<and> job_current_count (env_job e') = job_current_count (env_job e) - out
       \<and> (if job_current_count (env_job e) = out
          then job_complete (env_job e') \<and> job_io_state (env_job e') = COMPLETE
          else job_complete (env_job e') = job_complete (env_job e) \<and> job_io_state (env_job e') = PENDING)"
  using assms by (auto simp: apply_answer_def job_done_def Let_def split: if_splits)

text \<open>One call moves at least one byte when the file delivers.\<close>

lemma io_read_delivers:
  assumes F: "file_delivers F pos contents" "file_holds F pos contents"
    and st: "job_io_state (env_job e) = PENDING" "0 < job_current_count (env_job e)"
    and inside: "unat (job_base_offset (env_job e) + job_current_offset (env_job e)) < length contents"
    and idx: "job_index (env_job e) = 0" and wf: "wf_buffer (env_io_data e)"
  shows "\<exists>e' q. io_read F L e = Inr (e', q) \<and> job_op (env_job e') = job_op (env_job e)
     \<and> job_success (env_job e')
     \<and> unat (job_current_count (env_job e')) < unat (job_current_count (env_job e))
     \<and> (if job_current_count (env_job e') = 0
        then job_complete (env_job e') \<and> job_io_state (env_job e') = COMPLETE
        else job_complete (env_job e') = job_complete (env_job e) \<and> job_io_state (env_job e') = PENDING)"
proof -
  let ?j = "env_job e"
  let ?n = "job_current_count ?j"
  obtain f2 where q: "vfs_queue_read F (vfs_seek F (env_file e) (job_base_offset ?j + job_current_offset ?j)) ?n
      = (True, f2)"
    using F(1) unfolding file_delivers_def by (metis prod.collapse)
  obtain out bs f' where r: "vfs_complete_read F f2 ?n = ((READ_OK, out, bs), f')" and out: "0 < out"
    using file_delivers_read [OF F(1) st(2), of f2] inside
      file_holds_queue [OF F(2) q] file_holds_seek [OF F(2)] by metis
  have le: "out \<le> ?n" using file_holds_read(2) [OF F(2) r] .
  have item: "item (env_io_data e) 0 = Inr (env_io_data e ! 0)"
    using wf by (simp add: item_wf_buffer)
  obtain io' where io': "set_item (env_io_data e) 0
      (overwrite (env_io_data e ! 0) (unat (job_current_offset ?j)) bs) = Inr io'"
    using wf by (cases "env_io_data e") (simp_all add: set_item_def wf_buffer_def)
  let ?e1 = "e\<lparr>env_file := f2, env_lib := io_request_in_progress L (env_lib e) 0,
               env_job := ?j\<lparr>job_io_state := IN_PROGRESS\<rparr>\<rparr>
              \<lparr>env_file := f', env_io_data := io'\<rparr>"
  obtain e' p where a: "apply_answer L True (Moved out) ?e1 = (e', p)" by fastforce
  have "io_read F L e = Inr (e', p)"
    using st idx q r item io' a by (simp add: io_read_def Let_def read_in_progress_def)
  moreover have "unat (?n - out) < unat ?n"
    using le out by (simp add: unat_sub word_le_nat_alt word_less_nat_alt)
  ultimately show ?thesis using apply_answer_moved [OF a] by auto
qed

lemma read_runs_to_completion:
  assumes "file_delivers F pos contents" "file_holds F pos contents" "n \<le> 4096"
      "unat base + n < 2 ^ 64" and fit: "unat base + n \<le> length contents"
    and "read_inv pos base n contents (env_job e) (env_file e) (env_io_data e)"
    and "job_op (env_job e) = READ" "job_io_state (env_job e) = PENDING"
      "\<not> job_complete (env_job e)" "0 < job_current_count (env_job e)"
    and "unat (job_current_count (env_job e)) \<le> k"
  shows "\<exists>e'. execute_until k F L e = Inr e' \<and> job_complete (env_job e') \<and> job_success (env_job e')
     \<and> job_current_count (env_job e') = 0
     \<and> read_inv pos base n contents (env_job e') (env_file e') (env_io_data e')"
  using assms(6-)
proof (induction k arbitrary: e)
  case 0
  then show ?case by (simp add: unat_eq_0 word_gt_0)
next
  case (Suc k)
  have wf: "job_index (env_job e) = 0" "wf_buffer (env_io_data e)"
    using Suc.prems(1) by (simp_all add: read_inv_def window_inv_def)
  have inside: "unat (job_base_offset (env_job e) + job_current_offset (env_job e)) < length contents"
  proof -
    have "job_base_offset (env_job e) = base"
      and sum: "unat (job_current_offset (env_job e)) + unat (job_current_count (env_job e)) = n"
      using Suc.prems(1) by (simp_all add: read_inv_def window_inv_def)
    moreover have "unat (base + job_current_offset (env_job e)) = unat base + unat (job_current_offset (env_job e))"
      using sum assms(4) unat_add_lem [of base "job_current_offset (env_job e)"] by simp
    moreover have "0 < unat (job_current_count (env_job e))"
      using Suc.prems(5) by (simp add: word_less_nat_alt)
    ultimately show ?thesis using fit by simp
  qed
  obtain e' q where e': "io_read F L e = Inr (e', q)" "job_op (env_job e') = READ"
      "job_success (env_job e')"
      "unat (job_current_count (env_job e')) < unat (job_current_count (env_job e))"
      "if job_current_count (env_job e') = 0
       then job_complete (env_job e') \<and> job_io_state (env_job e') = COMPLETE
       else job_complete (env_job e') = job_complete (env_job e) \<and> job_io_state (env_job e') = PENDING"
    using io_read_delivers [OF assms(1,2) Suc.prems(3,5) inside wf] Suc.prems(2) by metis
  have inv: "read_inv pos base n contents (env_job e') (env_file e') (env_io_data e')"
    by (rule io_read_inv [OF assms(2-4) Suc.prems(1) e'(1)])
  have once: "execute_until (Suc k) F L e = execute_until k F L e'"
    using Suc.prems e' by (simp add: job_completed_def job_execute_def)
  show ?case
  proof (cases "job_current_count (env_job e') = 0")
    case True
    with e' have "execute_until k F L e' = Inr e'" by (cases k) (simp_all add: job_completed_def)
    with once True e' inv show ?thesis by auto
  next
    case False
    with e' Suc.prems have "unat (job_current_count (env_job e')) \<le> k" by simp
    with Suc.IH [OF inv e'(2)] False e'(5) Suc.prems once show ?thesis
      by (simp add: word_gt_0)
  qed
qed

section \<open>Properties of the read job\<close>

definition fresh_env :: "('f, 'l) io_env \<Rightarrow> operation \<Rightarrow> u64 \<Rightarrow> u64 \<Rightarrow> bool" where
  "fresh_env e op base len \<longleftrightarrow> new_io_job op 0 base len = Inr (env_job e) \<and> wf_buffer (env_io_data e)"

lemma fresh_env_job:
  "fresh_env e READ base len \<Longrightarrow>
   env_job e = \<lparr> job_op = READ, job_index = 0, job_io_state = PENDING, job_base_offset = base,
                job_current_offset = 0, job_current_count = len, job_success = False,
                job_complete = False \<rparr>"
  "fresh_env e WRITE base len \<Longrightarrow>
   env_job e = \<lparr> job_op = WRITE, job_index = 0, job_io_state = PENDING, job_base_offset = base,
                job_current_offset = 0, job_current_count = len, job_success = False,
                job_complete = False \<rparr>"
  by (auto simp: fresh_env_def new_io_job_def)

lemma fresh_env_read_inv:
  "fresh_env e READ base len \<Longrightarrow>
   read_inv pos base (unat len) contents (env_job e) (env_file e) (env_io_data e)
   \<and> job_op (env_job e) = READ \<and> job_io_state (env_job e) = PENDING
   \<and> \<not> job_complete (env_job e) \<and> job_current_count (env_job e) = len \<and> job_current_offset (env_job e) = 0"
  by (simp add: fresh_env_job read_inv_def window_inv_def) (simp add: fresh_env_def)

text \<open>
  C22. Whatever pieces the device delivers and however often it asks to retry, a read job that
  completes successfully has assembled in the I/O buffer exactly the bytes of the device at its
  range.
\<close>

theorem io_read_contents:
  assumes "fresh_env e READ base len" "len \<le> BLOCK_SIZE" "unat base + unat len < 2 ^ 64"
    and "file_holds F pos contents"
    and "job_run (io_read F L) (\<lambda>e. (env_job e, env_file e, env_io_data e)) open_job e e'"
    and "job_complete (env_job e')" "job_success (env_job e')"
  shows "take (unat len) (env_io_data e' ! 0) = take (unat len) (drop (unat base) contents)"
proof -
  note start = fresh_env_read_inv [OF assms(1), of pos contents]
  have len: "unat len \<le> 4096" using assms(2) by (simp add: word_le_nat_alt)
  have run: "job_run (io_read F L) env_job open_job e e'"
    using assms(5) by (induction rule: job_run.induct) (auto intro: job_run.intros)
  have "job_ready (env_job e)" using start by (simp add: job_ready_def)
  from reading.run_complete [OF run this assms(6,7) open_jobD] start
  have off: "job_current_offset (env_job e') = len" by simp
  have "read_inv pos base (unat len) contents (env_job e') (env_file e') (env_io_data e')"
    using run_read_inv [OF assms(5,4) len assms(3)] start by blast
  with off show ?thesis by (simp add: read_inv_def window_inv_def)
qed

text \<open>
  C21. A read job on a device that delivers at least one byte per call completes successfully
  within as many calls as it has bytes, and its buffer then holds the bytes of the device.
\<close>

theorem io_read_completes:
  assumes "fresh_env e READ base len" "0 < len" "len \<le> BLOCK_SIZE" "unat base + unat len < 2 ^ 64"
    and "file_holds F pos contents" "file_delivers F pos contents"
    and "unat base + unat len \<le> length contents"
  shows "\<exists>e'. execute_until (unat len) F L e = Inr e'
     \<and> job_completed (env_job e') \<and> job_succeeded (env_job e')
     \<and> take (unat len) (env_io_data e' ! 0) = take (unat len) (drop (unat base) contents)"
proof -
  note start = fresh_env_read_inv [OF assms(1), of pos contents]
  have len: "unat len \<le> 4096" using assms(3) by (simp add: word_le_nat_alt)
  obtain e' where e': "execute_until (unat len) F L e = Inr e'" "job_complete (env_job e')"
      "job_success (env_job e')" "job_current_count (env_job e') = 0"
      "read_inv pos base (unat len) contents (env_job e') (env_file e') (env_io_data e')"
    using read_runs_to_completion [OF assms(6,5) len assms(4,7), of e "unat len" L] start assms(2) by auto
  then show ?thesis by (auto simp: job_completed_def job_succeeded_def read_inv_def window_inv_def)
qed

section \<open>What a write job leaves on the device\<close>

text \<open>
  A device of fixed size: a write stores as many of the bytes as it says at the seek position,
  and nothing when it does not return \<open>WRITE_OK\<close>.
\<close>

definition file_stores :: "'f vfs_file \<Rightarrow> ('f \<Rightarrow> u64) \<Rightarrow> ('f \<Rightarrow> bytes) \<Rightarrow> bool" where
  "file_stores F pos disk \<longleftrightarrow>
     (\<forall>f p. pos (vfs_seek F f p) = p \<and> disk (vfs_seek F f p) = disk f)
     \<and> (\<forall>f d n outcome out f'. vfs_write F f d n = ((outcome, out), f') \<longrightarrow>
          out \<le> n \<and> pos f' = pos f
          \<and> disk f' = (if outcome = Wrote WRITE_OK
                       then overwrite (disk f) (unat (pos f)) (take (unat out) d) else disk f))"

lemma file_stores_seek:
  "file_stores F pos disk \<Longrightarrow> pos (vfs_seek F f p) = p \<and> disk (vfs_seek F f p) = disk f"
  by (simp add: file_stores_def)

lemma file_stores_write:
  assumes "file_stores F pos disk" "vfs_write F f d n = ((outcome, out), f')"
  shows "out \<le> n" "pos f' = pos f"
    "disk f' = (if outcome = Wrote WRITE_OK
                then overwrite (disk f) (unat (pos f)) (take (unat out) d) else disk f)"
proof -
  from assms have "out \<le> n \<and> pos f' = pos f
      \<and> disk f' = (if outcome = Wrote WRITE_OK
                   then overwrite (disk f) (unat (pos f)) (take (unat out) d) else disk f)"
    unfolding file_stores_def by blast
  then show "out \<le> n" "pos f' = pos f"
    "disk f' = (if outcome = Wrote WRITE_OK
                then overwrite (disk f) (unat (pos f)) (take (unat out) d) else disk f)"
    by metis+
qed

lemma overwrite_append:
  assumes "k + length as + length bs \<le> length xs"
  shows "overwrite (overwrite xs k as) (k + length as) bs = overwrite xs k (as @ bs)"
  using assms by (simp add: overwrite_def add.assoc add.commute [of "length bs"])

definition device_inv ::
  "('f \<Rightarrow> bytes) \<Rightarrow> u64 \<Rightarrow> nat \<Rightarrow> bytes \<Rightarrow> io_job \<Rightarrow> 'f \<Rightarrow> block_buffer \<Rightarrow> bool" where
  "device_inv disk base n d0 j f io \<longleftrightarrow>
     job_base_offset j = base \<and> job_index j = 0 \<and> wf_buffer io
     \<and> unat (job_current_offset j) + unat (job_current_count j) = n
     \<and> disk f = overwrite d0 (unat base) (take (unat (job_current_offset j)) (io ! 0))"

definition write_inv ::
  "('f \<Rightarrow> u64) \<Rightarrow> ('f \<Rightarrow> bytes) \<Rightarrow> u64 \<Rightarrow> nat \<Rightarrow> bytes \<Rightarrow> io_job \<Rightarrow> 'f \<Rightarrow> block_buffer \<Rightarrow> bool" where
  "write_inv pos disk base n d0 j f io \<longleftrightarrow>
     device_inv disk base n d0 j f io
     \<and> (job_io_state j = IN_PROGRESS \<longrightarrow> pos f = base + job_current_offset j)"

lemma device_advance:
  assumes w: "device_inv disk base n d0 j f io" and n: "n \<le> 4096" "unat base + n \<le> length d0"
    and big: "length d0 < 2 ^ 64" and p: "pos f = base + job_current_offset j"
    and out: "out \<le> job_current_count j"
    and f': "disk f' = overwrite (disk f) (unat (pos f))
               (take (unat out) (take (unat (job_current_count j)) (drop (unat (job_current_offset j)) (io ! 0))))"
    and j': "job_base_offset j' = base" "job_index j' = 0"
      "job_current_offset j' = job_current_offset j + out"
      "job_current_count j' = job_current_count j - out"
  shows "device_inv disk base n d0 j' f' io"
proof -
  let ?k = "unat (job_current_offset j)"
  let ?b = "io ! 0"
  from w have wf: "wf_buffer io" and sum: "?k + unat (job_current_count j) = n"
    and pre: "disk f = overwrite d0 (unat base) (take ?k ?b)"
    by (simp_all add: device_inv_def)
  have le: "unat out \<le> unat (job_current_count j)" using out by (simp add: word_le_nat_alt)
  have off: "unat (job_current_offset j + out) = ?k + unat out"
    using sum le n unat_add_lem [of "job_current_offset j" out] by simp
  have cnt: "unat (job_current_count j - out) = unat (job_current_count j) - unat out"
    using out by (simp add: unat_sub)
  have at: "unat (base + job_current_offset j) = unat base + ?k"
    using sum n big unat_add_lem [of base "job_current_offset j"] by simp
  have len: "length ?b = 4096"
    using wf by (auto simp: wf_buffer_def wf_block_def length_Suc_conv)
  have "disk f' = overwrite (overwrite d0 (unat base) (take ?k ?b)) (unat base + length (take ?k ?b))
                    (take (unat out) (drop ?k ?b))"
    using f' pre p at len sum n le by (simp add: min_def)
  also have "\<dots> = overwrite d0 (unat base) (take ?k ?b @ take (unat out) (drop ?k ?b))"
    by (rule overwrite_append) (use len sum n le in simp)
  also have "\<dots> = overwrite d0 (unat base) (take (?k + unat out) ?b)"
    by (simp add: take_add)
  finally show ?thesis using w off cnt sum le j' by (simp add: device_inv_def)
qed

lemma write_in_progress_inv:
  assumes F: "file_stores F pos disk" and n: "n \<le> 4096" "unat base + n \<le> length d0" "length d0 < 2 ^ 64"
    and w: "device_inv disk base n d0 (env_job e) (env_file e) (env_io_data e)"
    and p: "pos (env_file e) = base + job_current_offset (env_job e)"
    and r: "write_in_progress F L progress e = Inr (e', q)"
  shows "write_inv pos disk base n d0 (env_job e') (env_file e') (env_io_data e')"
  using r
proof (rule write_in_progressE)
  fix data outcome out f'
  let ?j = "env_job e"
  assume item: "item (env_io_data e) (job_index ?j) = Inr data"
    and wr: "vfs_write F (env_file e)
      (take (unat (job_current_count ?j)) (drop (unat (job_current_offset ?j)) data))
      (job_current_count ?j) = ((outcome, out), f')"
    and e': "apply_answer L progress (write_answer outcome out) (e\<lparr>env_file := f'\<rparr>) = (e', q)"
  note fs = file_stores_write [OF F wr]
  have data: "data = env_io_data e ! 0"
    using item item_wf_buffer [of "env_io_data e" 0] w by (simp add: device_inv_def)
  show ?thesis
  proof (cases "outcome = Wrote WRITE_OK")
    case True
    have "env_file e' = f'" "env_io_data e' = env_io_data e"
      using e' by (auto simp: apply_answer_def job_done_def Let_def split: answer.splits if_splits)
    moreover have "device_inv disk base n d0 (env_job e') f' (env_io_data e)"
      by (rule device_advance [where pos = pos and disk = disk and f = "env_file e" and j = "env_job e"
            and j' = "env_job e'" and f' = f', OF w n p fs(1)])
        (use fs(3) e' True data w in
          \<open>auto simp: apply_answer_def job_done_def Let_def device_inv_def split: if_splits\<close>)
    moreover have "job_io_state (env_job e') \<noteq> IN_PROGRESS"
      using e' True by (auto simp: apply_answer_def job_done_def Let_def split: if_splits)
    ultimately show ?thesis by (simp add: write_inv_def)
  next
    case False
    then have "write_answer outcome out = Wait \<or> write_answer outcome out = Failed"
      by (cases "(outcome, out)" rule: write_answer.cases) simp_all
    with e' False w p fs show ?thesis
      by (elim disjE) (auto simp: apply_answer_def job_done_def write_inv_def device_inv_def)
  qed
qed

lemma io_write_inv:
  assumes F: "file_stores F pos disk" and n: "n \<le> 4096" "unat base + n \<le> length d0" "length d0 < 2 ^ 64"
    and inv: "write_inv pos disk base n d0 (env_job e) (env_file e) (env_io_data e)"
    and r: "io_write F L e = Inr (e', q)"
  shows "write_inv pos disk base n d0 (env_job e') (env_file e') (env_io_data e')"
proof (cases "job_io_state (env_job e)")
  case PENDING
  let ?j = "env_job e"
  from r PENDING have
    "write_in_progress F L True
       (e\<lparr>env_file := vfs_seek F (env_file e) (job_base_offset ?j + job_current_offset ?j),
          env_lib := io_request_in_progress L (env_lib e) (job_index ?j),
          env_job := ?j\<lparr>job_io_state := IN_PROGRESS\<rparr>\<rparr>) = Inr (e', q)"
    by (simp add: io_write_def Let_def)
  from write_in_progress_inv [OF F n _ _ this] inv file_stores_seek [OF F] show ?thesis
    by (simp add: write_inv_def device_inv_def)
next
  case IN_PROGRESS
  with r have "write_in_progress F L False e = Inr (e', q)" by (simp add: io_write_def)
  from write_in_progress_inv [OF F n _ _ this] inv IN_PROGRESS show ?thesis
    by (simp add: write_inv_def)
next
  case COMPLETE
  with r inv show ?thesis
    by (auto simp: io_write_def Let_def job_done_def write_inv_def device_inv_def)
qed

lemma two_calls:
  "step s = Inr (t, p) \<Longrightarrow> step t = Inr (u, q) \<Longrightarrow> ok s \<Longrightarrow> ok t \<Longrightarrow> job_run step job ok s u"
  by (blast intro: job_run.intros)

lemma run_write_inv:
  assumes "job_run (io_write F L) (\<lambda>e. (env_job e, env_file e, env_io_data e)) open_job e e'"
    and "file_stores F pos disk" "n \<le> 4096" "unat base + n \<le> length d0" "length d0 < 2 ^ 64"
    and "write_inv pos disk base n d0 (env_job e) (env_file e) (env_io_data e)"
  shows "write_inv pos disk base n d0 (env_job e') (env_file e') (env_io_data e')"
  using assms by (induction rule: job_run.induct) (auto intro: io_write_inv)

lemma io_write_io_data: "io_write F L e = Inr (e', q) \<Longrightarrow> env_io_data e' = env_io_data e"
  by (auto simp: io_write_def Let_def job_done_def apply_answer_def split: io_state.splits answer.splits
      if_splits elim!: write_in_progressE)

lemma run_write_io_data:
  "job_run (io_write F L) (\<lambda>e. (env_job e, env_file e, env_io_data e)) open_job e e' \<Longrightarrow>
   env_io_data e' = env_io_data e"
  by (induction rule: job_run.induct) (auto dest: io_write_io_data)

text \<open>
  C23. Whatever pieces the device accepts and however often it asks to retry, a write job that
  completes successfully has changed the device in exactly its range, to the bytes of the I/O
  buffer.
\<close>

theorem io_write_contents:
  assumes "fresh_env e WRITE base len" "len \<le> BLOCK_SIZE"
    and "file_stores F pos disk" "unat base + unat len \<le> length (disk (env_file e))"
      "length (disk (env_file e)) < 2 ^ 64"
    and "job_run (io_write F L) (\<lambda>e. (env_job e, env_file e, env_io_data e)) open_job e e'"
    and "job_complete (env_job e')" "job_success (env_job e')"
  shows "disk (env_file e')
       = overwrite (disk (env_file e)) (unat base) (take (unat len) (env_io_data e ! 0))"
proof -
  note job = fresh_env_job(2) [OF assms(1)]
  have wf: "wf_buffer (env_io_data e)" using assms(1) by (simp add: fresh_env_def)
  have len: "unat len \<le> 4096" using assms(2) by (simp add: word_le_nat_alt)
  have run: "job_run (io_write F L) env_job open_job e e'"
    using assms(6) by (induction rule: job_run.induct) (auto intro: job_run.intros)
  have "job_ready (env_job e)" using job by (simp add: job_ready_def)
  from writing.run_complete [OF run this assms(7,8) open_jobD] job
  have off: "job_current_offset (env_job e') = len" by simp
  have "write_inv pos disk base (unat len) (disk (env_file e)) (env_job e) (env_file e) (env_io_data e)"
    using job wf by (simp add: write_inv_def device_inv_def)
  from run_write_inv [OF assms(6,3) len assms(4,5) this] off run_write_io_data [OF assms(6)]
  show ?thesis by (simp add: write_inv_def device_inv_def)
qed

section \<open>What the library is told\<close>

lemma apply_answer_told:
  assumes "apply_answer L progress a e = (e', q)" "\<not> job_complete (env_job e)"
  shows "job_index (env_job e') = job_index (env_job e)
       \<and> env_lib e' = (if job_complete (env_job e')
            then io_request_completed L (env_lib e) (job_index (env_job e)) (job_success (env_job e'))
            else env_lib e)"
  using assms by (auto simp: apply_answer_def job_done_def Let_def split: answer.splits if_splits)

text \<open>The call with which a pending job starts a transfer: the file takes the request.\<close>

definition job_starts :: "'f vfs_file \<Rightarrow> ('f, 'l) io_env \<Rightarrow> bool" where
  "job_starts F e \<longleftrightarrow>
     (let j = env_job e in
      job_io_state j = PENDING
      \<and> (job_op j = READ
           \<and> fst (vfs_queue_read F (vfs_seek F (env_file e) (job_base_offset j + job_current_offset j))
               (job_current_count j))
         \<or> job_op j = WRITE
         \<or> job_op j = SYNC \<and> fst (vfs_queue_sync F (env_file e))))"

text \<open>
  C24. A call of a job tells the library that its request is in progress exactly when the job is
  pending and the file takes the transfer (a read or sync that the file cannot queue is not
  announced, a job that is resumed is not announced again), then that the request has completed,
  with the job's success flag, exactly when the job completes, and nothing else.
\<close>

theorem job_execute_notifies:
  assumes "job_execute F L e = Inr (e', q)" "job_io_state (env_job e) \<noteq> COMPLETE"
    "\<not> job_complete (env_job e)"
  shows "env_lib e' =
     (let l = (if job_starts F e then io_request_in_progress L (env_lib e) (job_index (env_job e)) else env_lib e)
      in if job_completed (env_job e')
         then io_request_completed L l (job_index (env_job e)) (job_succeeded (env_job e')) else l)"
proof -
  have r: "read_in_progress F L pr d = Inr (e', q) \<Longrightarrow> \<not> job_complete (env_job d) \<Longrightarrow>
      env_lib e' = (if job_complete (env_job e')
        then io_request_completed L (env_lib d) (job_index (env_job d)) (job_success (env_job e'))
        else env_lib d)" for pr d
    by (elim read_in_progressE) (drule apply_answer_told, simp_all)
  have w: "write_in_progress F L pr d = Inr (e', q) \<Longrightarrow> \<not> job_complete (env_job d) \<Longrightarrow>
      env_lib e' = (if job_complete (env_job e')
        then io_request_completed L (env_lib d) (job_index (env_job d)) (job_success (env_job e'))
        else env_lib d)" for pr d
    by (elim write_in_progressE) (drule apply_answer_told, simp_all)
  have s: "sync_in_progress F L pr d = Inr (e', q) \<Longrightarrow> \<not> job_complete (env_job d) \<Longrightarrow>
      env_lib e' = (if job_complete (env_job e')
        then io_request_completed L (env_lib d) (job_index (env_job d)) (job_success (env_job e'))
        else env_lib d)" for pr d
    by (auto simp: sync_in_progress_def Let_def job_done_def split: prod.splits sync_result.splits)
  show ?thesis
    using assms
    by (cases "job_io_state (env_job e)")
      (auto simp: job_execute_def io_read_def io_write_def io_sync_def job_starts_def Let_def
        job_completed_def job_succeeded_def split: if_splits prod.splits dest!: r w s)
qed

section \<open>A back end that ends early\<close>

text \<open>
  A file behind whose end a read returns \<open>READ_OK\<close> with no bytes, as Genode's file systems
  do.
\<close>

definition file_at_end :: "'f vfs_file \<Rightarrow> bool" where
  "file_at_end F \<longleftrightarrow>
     (\<forall>f n. fst (vfs_queue_read F f n)) \<and> (\<forall>f n. fst (vfs_complete_read F f n) = (READ_OK, 0, []))"

text \<open>
  A read job at the end of a file that returns READ_OK with no bytes reports progress without
  making any.
\<close>

definition job_stuck :: "io_job \<Rightarrow> bool" where
  "job_stuck j \<longleftrightarrow>
     job_op j = READ \<and> job_io_state j = PENDING \<and> 0 < job_current_count j \<and> \<not> job_complete j"

lemma io_read_stuck_at_end:
  assumes "file_at_end F" "job_stuck (env_job e)" "job_execute F L e = Inr (e', p)"
  shows "p \<and> env_job e' = (env_job e)\<lparr>job_success := True\<rparr> \<and> job_stuck (env_job e')"
proof -
  let ?j = "env_job e"
  obtain f2 where q: "vfs_queue_read F (vfs_seek F (env_file e) (job_base_offset ?j + job_current_offset ?j))
      (job_current_count ?j) = (True, f2)"
    using assms(1) unfolding file_at_end_def by (metis prod.collapse)
  obtain f' where r: "vfs_complete_read F f2 (job_current_count ?j) = ((READ_OK, 0, []), f')"
    using assms(1) unfolding file_at_end_def by (metis prod.collapse)
  show ?thesis
    using assms q r
    by (auto simp: job_stuck_def job_execute_def io_read_def Let_def read_in_progress_def apply_answer_def
        bind_exn_def word_gt_0 split: sum.splits)
qed

section \<open>Examples\<close>

text \<open>
  \<open>sample_reader\<close> reads fixed contents in pieces of at most three bytes; its state is the
  seek position. \<open>sample_device\<close> stores what is written, also in such pieces.
  \<open>empty_reader\<close> is always at its end.
\<close>

definition sample_out :: "bytes \<Rightarrow> u64 \<Rightarrow> u64 \<Rightarrow> u64" where
  "sample_out contents p n = min n (of_nat (min 3 (length contents - unat p)))"

definition sample_reader :: "bytes \<Rightarrow> u64 vfs_file" where
  "sample_reader contents =
     \<lparr> vfs_seek = (\<lambda>f p. p), vfs_queue_read = (\<lambda>f n. (True, f)),
       vfs_complete_read = (\<lambda>p n.
         (if 0 < n \<and> unat p < length contents
          then (READ_OK, sample_out contents p n,
                take (unat (sample_out contents p n)) (drop (unat p) contents))
          else (READ_ERR_IO, 0, []), p)),
       vfs_write = (\<lambda>f d n. ((Wrote WRITE_ERR_IO, 0), f)),
       vfs_queue_sync = (\<lambda>f. (True, f)), vfs_complete_sync = (\<lambda>f. (SYNC_OK, f)) \<rparr>"

definition sample_device :: "(u64 \<times> bytes) vfs_file" where
  "sample_device =
     \<lparr> vfs_seek = (\<lambda>f p. (p, snd f)), vfs_queue_read = (\<lambda>f n. (False, f)),
       vfs_complete_read = (\<lambda>f n. ((READ_ERR_IO, 0, []), f)),
       vfs_write = (\<lambda>f d n.
         ((Wrote WRITE_OK, min n 3), (fst f, overwrite (snd f) (unat (fst f)) (take (unat (min n 3)) d)))),
       vfs_queue_sync = (\<lambda>f. (True, f)), vfs_complete_sync = (\<lambda>f. (SYNC_OK, f)) \<rparr>"

definition empty_reader :: "unit vfs_file" where
  "empty_reader =
     \<lparr> vfs_seek = (\<lambda>f p. f), vfs_queue_read = (\<lambda>f n. (True, f)),
       vfs_complete_read = (\<lambda>f n. ((READ_OK, 0, []), f)),
       vfs_write = (\<lambda>f d n. ((Wrote WRITE_ERR_IO, 0), f)),
       vfs_queue_sync = (\<lambda>f. (True, f)), vfs_complete_sync = (\<lambda>f. (SYNC_OK, f)) \<rparr>"

definition sample_env :: "operation \<Rightarrow> u64 \<Rightarrow> u64 \<Rightarrow> 'f \<Rightarrow> bytes \<Rightarrow> ('f, nat) io_env" where
  "sample_env op base len f b =
     \<lparr> env_job = \<lparr> job_op = op, job_index = 0, job_io_state = PENDING, job_base_offset = base,
                   job_current_offset = 0, job_current_count = len, job_success = False,
                   job_complete = False \<rparr>,
       env_file = f, env_lib = 0, env_io_data = [overwrite zero_block 0 b] \<rparr>"

lemma unat_sample_out:
  "unat (sample_out contents p n) \<le> length contents - unat p"
  "sample_out contents p n \<le> n"
proof -
  have "unat (of_nat (min 3 (length contents - unat p)) :: u64) = min 3 (length contents - unat p)"
    by (simp add: unat_of_nat)
  then show "unat (sample_out contents p n) \<le> length contents - unat p"
    by (simp add: sample_out_def min_def word_le_nat_alt)
  show "sample_out contents p n \<le> n" by (simp add: sample_out_def)
qed

lemma sample_reader_holds: "file_holds (sample_reader contents) id contents"
  using unat_sample_out [of contents]
  by (auto simp: file_holds_def sample_reader_def min_def intro!: le_antisym)

lemma sample_out_pos: "0 < n \<Longrightarrow> unat p < length contents \<Longrightarrow> 0 < sample_out contents p n"
proof -
  assume "0 < n" "unat p < length contents"
  moreover have "unat (of_nat (min 3 (length contents - unat p)) :: u64) = min 3 (length contents - unat p)"
    by (simp add: unat_of_nat)
  ultimately show ?thesis
    by (simp add: sample_out_def word_less_nat_alt min_def)
qed

lemma sample_reader_delivers: "file_delivers (sample_reader contents) id contents"
  using sample_out_pos [of _ _ contents] by (auto simp: file_delivers_def sample_reader_def)

lemma sample_device_stores: "file_stores sample_device fst snd"
  by (auto simp: file_stores_def sample_device_def min_def)

lemma sample_env_fresh:
  "op = READ \<or> op = WRITE \<Longrightarrow> length b \<le> 4096 \<Longrightarrow> fresh_env (sample_env op base len f b) op base len"
  by (auto simp: fresh_env_def sample_env_def new_io_job_def wf_buffer_def wf_block_def zero_block_def)

theorem io_read_completes_witness:
  "\<exists>e'. execute_until 4 (sample_reader [1, 2, 3, 4, 5]) null_library (sample_env READ 1 4 0 []) = Inr e'
     \<and> job_completed (env_job e') \<and> job_succeeded (env_job e')
     \<and> take 4 (env_io_data e' ! 0) = [2, 3, 4, 5]"
  using io_read_completes [where e = "sample_env READ 1 4 0 []" and base = 1 and len = 4
      and contents = "[1, 2, 3, 4, 5]" and F = "sample_reader [1, 2, 3, 4, 5]" and pos = id
      and L = null_library, OF sample_env_fresh]
  by (simp add: sample_reader_holds sample_reader_delivers BLOCK_SIZE_def)

lemmas sample_run =
  io_read_def io_write_def Let_def read_in_progress_def write_in_progress_def sample_env_def
  sample_reader_def sample_device_def sample_out_def item_def set_item_def apply_answer_def job_done_def
  null_library_def

theorem io_read_contents_witness:
  "\<exists>e'. job_run (io_read (sample_reader [1, 2, 3, 4, 5]) null_library)
       (\<lambda>e. (env_job e, env_file e, env_io_data e)) open_job (sample_env READ 1 4 0 []) e'
     \<and> job_complete (env_job e') \<and> job_success (env_job e')
     \<and> take 4 (env_io_data e' ! 0) = [2, 3, 4, 5]"
proof -
  let ?F = "sample_reader [1, 2, 3, 4, 5]"
  let ?e = "sample_env READ 1 4 0 [] :: (u64, nat) io_env"
  obtain e1 e2 where e1: "io_read ?F null_library ?e = Inr (e1, True)"
    and e2: "io_read ?F null_library e1 = Inr (e2, True)"
    and fin: "job_complete (env_job e2)" "job_success (env_job e2)"
    and op: "open_job ?e" "open_job e1"
    by (simp add: sample_run open_job_def job_completed_def)
  have run: "job_run (io_read ?F null_library) (\<lambda>e. (env_job e, env_file e, env_io_data e)) open_job ?e e2"
    by (rule two_calls [OF e1 e2 op])
  from io_read_contents [OF sample_env_fresh _ _ sample_reader_holds run fin] run fin show ?thesis
    by (auto simp: BLOCK_SIZE_def)
qed

theorem io_write_contents_witness:
  "\<exists>e'. job_run (io_write sample_device null_library)
       (\<lambda>e. (env_job e, env_file e, env_io_data e)) open_job
       (sample_env WRITE 1 4 (0, [0, 0, 0, 0, 0, 9]) [1, 2, 3, 4]) e'
     \<and> job_complete (env_job e') \<and> job_success (env_job e')
     \<and> snd (env_file e') = [0, 1, 2, 3, 4, 9]"
proof -
  let ?e = "sample_env WRITE 1 4 (0, [0, 0, 0, 0, 0, 9]) [1, 2, 3, 4] :: (u64 \<times> bytes, nat) io_env"
  obtain e1 e2 where e1: "io_write sample_device null_library ?e = Inr (e1, True)"
    and e2: "io_write sample_device null_library e1 = Inr (e2, True)"
    and fin: "job_complete (env_job e2)" "job_success (env_job e2)"
    and op: "open_job ?e" "open_job e1"
    by (simp add: sample_run open_job_def job_completed_def)
  have run: "job_run (io_write sample_device null_library)
      (\<lambda>e. (env_job e, env_file e, env_io_data e)) open_job ?e e2"
    by (rule two_calls [OF e1 e2 op])
  from io_write_contents [OF sample_env_fresh _ sample_device_stores _ _ run fin] run fin show ?thesis
    by (auto simp: BLOCK_SIZE_def sample_env_def overwrite_def)
qed

theorem job_execute_notifies_witness:
  "\<exists>e'. job_execute (sample_reader [7]) (null_library\<lparr>io_request_completed := (\<lambda>l i b. l + (if b then 1 else 100)),
         io_request_in_progress := (\<lambda>l i. l + 10)\<rparr>)
       (sample_env READ 0 1 0 []) = Inr (e', True)
     \<and> job_completed (env_job e') \<and> env_lib e' = 11"
proof -
  let ?L = "null_library\<lparr>io_request_completed := (\<lambda>l i b. l + (if b then 1 else 100)),
         io_request_in_progress := (\<lambda>l i. l + 10)\<rparr>"
  let ?e = "sample_env READ 0 1 0 [] :: (u64, nat) io_env"
  obtain e' where e': "job_execute (sample_reader [7]) ?L ?e = Inr (e', True)"
    and fin: "job_completed (env_job e')" "job_succeeded (env_job e')"
    by (simp add: sample_run job_execute_def job_completed_def job_succeeded_def)
  have "job_starts (sample_reader [7]) ?e"
    by (simp add: job_starts_def sample_env_def sample_reader_def)
  with job_execute_notifies [OF e'] fin e' show ?thesis
    by (auto simp: sample_env_def null_library_def)
qed

end
