(* ===== verification/Spark_Boundary.thy ===== *)
theory Spark_Boundary
  imports Cbe_Types
begin

unbundle bit_operations_syntax

text \<open>
  The boundary between the C++ code and the SPARK library
  (\<open>src/lib/cbe_cxx_common/cbe-cxx.ads\<close>, \<open>cbe-cxx.adb\<close>): packed records are passed by
  reference and read on the other side by the field order that side declares.

  \<^item> \<open>request_bytes\<close> is the packed layout that \<open>include/cbe/types.h\<close> gives
    \<open>Cbe::Request\<close>; \<open>cxx_request_of_bytes\<close> reads the same bytes by the SPARK record.
  \<^item> \<open>cxx_request_to_spark\<close> and \<open>cxx_request_from_spark\<close> are the two conversions of the
    SPARK side, with its \<open>Program_Error\<close> for codes and Booleans out of range and the
    \<open>Constraint_Error\<close> of the range check on the number of blocks.
  \<^item> \<open>cxx_info_bytes\<close> is the layout the SPARK side writes for \<open>Info\<close>, \<open>info_of_bytes\<close>
    the layout the C++ side reads.
\<close>

section \<open>Little-endian fields\<close>

primrec le_bytes :: "nat \<Rightarrow> 'a::len word \<Rightarrow> bytes" where
  "le_bytes 0 w = []"
| "le_bytes (Suc n) w = ucast w # le_bytes n (drop_bit 8 w)"

primrec le_read :: "bytes \<Rightarrow> 'a::len word" where
  "le_read [] = 0"
| "le_read (b # bs) = ucast b OR push_bit 8 (le_read bs)"

lemma length_le_bytes [simp]: "length (le_bytes n w) = n"
  by (induction n arbitrary: w) simp_all

lemma le_read_le_bytes: "le_read (le_bytes n w) = take_bit (8 * n) (w :: 'a::len word)"
proof (induction n arbitrary: w)
  case 0
  show ?case by simp
next
  case (Suc n)
  show ?case
    by (rule bit_word_eqI)
      (auto simp: Suc bit_simps not_le not_less dest: bit_imp_le_length)
qed

lemma le_read_u32 [simp]: "le_read (le_bytes 4 (w :: u32)) = w"
  by (simp add: le_read_le_bytes take_bit_word_eq_self)

lemma le_read_u64 [simp]: "le_read (le_bytes 8 (w :: u64)) = w"
  by (simp add: le_read_le_bytes take_bit_word_eq_self)

section \<open>Requests\<close>

definition cxx_bool :: "bool \<Rightarrow> u8" where
  "cxx_bool b = (if b then 1 else 0)"

definition cxx_bool_to_spark :: "u8 \<Rightarrow> exn + bool" where
  "cxx_bool_to_spark b =
     (if b = 0 then Inr False else if b = 1 then Inr True else Inl Program_Error)"

text \<open>The packed layout of the private fields of \<open>Cbe::Request\<close>.\<close>

definition request_bytes :: "request \<Rightarrow> bytes" where
  "request_bytes r =
     le_bytes 4 (op_code (req_operation r)) @ [cxx_bool (req_success r)]
     @ le_bytes 8 (req_block_number r) @ le_bytes 8 (req_offset r)
     @ le_bytes 8 (req_count r) @ le_bytes 4 (req_key_id r) @ le_bytes 4 (req_tag r)"

record cxx_request =
  cxx_operation :: u32
  cxx_success :: u8
  cxx_block_number :: u64
  cxx_offset :: u64
  cxx_count :: u64
  cxx_key_id :: u32
  cxx_tag :: u32

text \<open>The bytes as the packed \<open>CXX_Request_Type\<close> reads them.\<close>

definition cxx_request_of_bytes :: "bytes \<Rightarrow> cxx_request" where
  "cxx_request_of_bytes bs =
     \<lparr> cxx_operation = le_read (take 4 bs),
       cxx_success = le_read (take 1 (drop 4 bs)),
       cxx_block_number = le_read (take 8 (drop 5 bs)),
       cxx_offset = le_read (take 8 (drop 13 bs)),
       cxx_count = le_read (take 8 (drop 21 bs)),
       cxx_key_id = le_read (take 4 (drop 29 bs)),
       cxx_tag = le_read (take 4 (drop 33 bs)) \<rparr>"

text \<open>
  A SPARK request has a \<open>Valid\<close> flag beside its operation; its operation type has no
  invalid value. \<open>spark_operation\<close> of an invalid request is \<open>Read\<close>.
\<close>

record spark_request =
  spark_valid :: bool
  spark_operation :: operation
  spark_success :: bool
  spark_block_number :: u64
  spark_offset :: u64
  spark_count :: u64
  spark_key_id :: u32
  spark_tag :: u32

definition spark_invalid_object :: spark_request where
  "spark_invalid_object =
     \<lparr> spark_valid = False, spark_operation = READ, spark_success = False,
       spark_block_number = 0, spark_offset = 0, spark_count = 0, spark_key_id = 0,
       spark_tag = 0 \<rparr>"

text \<open>
  The number of blocks has a range on the SPARK side, \<open>0 .. Tree_Max_Number_Of_Leafs\<close>; the other
  fields take all values of their width.
\<close>

definition Tree_Max_Number_Of_Leafs :: u64 where
  "Tree_Max_Number_Of_Leafs = 64 ^ 5"

lemma Tree_Max_Number_Of_Leafs_eq: "Tree_Max_Number_Of_Leafs = 2 ^ 30"
  by (simp add: Tree_Max_Number_Of_Leafs_def)

definition count_to_spark :: "u64 \<Rightarrow> exn + u64" where
  "count_to_spark n = (if Tree_Max_Number_Of_Leafs < n then Inl Constraint_Error else Inr n)"

definition cxx_request_valid_to_spark :: "cxx_request \<Rightarrow> operation \<Rightarrow> exn + spark_request" where
  "cxx_request_valid_to_spark r op =
     bind_exn (cxx_bool_to_spark (cxx_success r)) (\<lambda>s.
     bind_exn (count_to_spark (cxx_count r)) (\<lambda>n.
       Inr \<lparr> spark_valid = True, spark_operation = op, spark_success = s,
             spark_block_number = cxx_block_number r, spark_offset = cxx_offset r,
             spark_count = n, spark_key_id = cxx_key_id r, spark_tag = cxx_tag r \<rparr>))"

definition cxx_request_to_spark :: "cxx_request \<Rightarrow> exn + spark_request" where
  "cxx_request_to_spark r =
     (if cxx_operation r = 0 then Inr spark_invalid_object
      else if cxx_operation r = 1 then cxx_request_valid_to_spark r READ
      else if cxx_operation r = 2 then cxx_request_valid_to_spark r WRITE
      else if cxx_operation r = 3 then cxx_request_valid_to_spark r SYNC
      else if cxx_operation r = 4 then cxx_request_valid_to_spark r CREATE_SNAPSHOT
      else if cxx_operation r = 5 then cxx_request_valid_to_spark r DISCARD_SNAPSHOT
      else if cxx_operation r = 6 then cxx_request_valid_to_spark r REKEY
      else if cxx_operation r = 7 then cxx_request_valid_to_spark r EXTEND_VBD
      else if cxx_operation r = 8 then cxx_request_valid_to_spark r EXTEND_FT
      else if cxx_operation r = 10 then cxx_request_valid_to_spark r RESUME_REKEYING
      else if cxx_operation r = 11 then cxx_request_valid_to_spark r DEINITIALIZE
      else if cxx_operation r = 12 then cxx_request_valid_to_spark r INITIALIZE
      else Inl Program_Error)"

fun cxx_operation_from_spark :: "operation \<Rightarrow> u32" where
  "cxx_operation_from_spark READ = 1"
| "cxx_operation_from_spark WRITE = 2"
| "cxx_operation_from_spark SYNC = 3"
| "cxx_operation_from_spark CREATE_SNAPSHOT = 4"
| "cxx_operation_from_spark DISCARD_SNAPSHOT = 5"
| "cxx_operation_from_spark REKEY = 6"
| "cxx_operation_from_spark EXTEND_VBD = 7"
| "cxx_operation_from_spark EXTEND_FT = 8"
| "cxx_operation_from_spark RESUME_REKEYING = 10"
| "cxx_operation_from_spark DEINITIALIZE = 11"
| "cxx_operation_from_spark INITIALIZE = 12"
| "cxx_operation_from_spark INVALID = 0"

definition cxx_request_from_spark :: "spark_request \<Rightarrow> cxx_request" where
  "cxx_request_from_spark r =
     (if spark_valid r
      then \<lparr> cxx_operation = cxx_operation_from_spark (spark_operation r),
             cxx_success = cxx_bool (spark_success r),
             cxx_block_number = spark_block_number r, cxx_offset = spark_offset r,
             cxx_count = spark_count r, cxx_key_id = spark_key_id r,
             cxx_tag = spark_tag r \<rparr>
      else \<lparr> cxx_operation = 0, cxx_success = 0, cxx_block_number = 0, cxx_offset = 0,
             cxx_count = 0, cxx_key_id = 0, cxx_tag = 0 \<rparr>)"

text \<open>The C++ side reads the result by the codes of its enumeration.\<close>

definition request_of_cxx :: "cxx_request \<Rightarrow> request option" where
  "request_of_cxx r =
     (case operation_of_code (cxx_operation r) of
        None \<Rightarrow> None
      | Some op \<Rightarrow>
          Some (make_request op (cxx_success r \<noteq> 0) (cxx_block_number r) (cxx_offset r)
                  (cxx_count r) (cxx_key_id r) (cxx_tag r)))"

lemma cxx_request_of_request_bytes:
  "cxx_request_of_bytes (request_bytes r) =
     \<lparr> cxx_operation = op_code (req_operation r), cxx_success = cxx_bool (req_success r),
       cxx_block_number = req_block_number r, cxx_offset = req_offset r,
       cxx_count = req_count r, cxx_key_id = req_key_id r, cxx_tag = req_tag r \<rparr>"
  by (simp add: cxx_request_of_bytes_def request_bytes_def)

lemma cxx_bool_roundtrip [simp]: "cxx_bool_to_spark (cxx_bool b) = Inr b"
  by (simp add: cxx_bool_to_spark_def cxx_bool_def)

lemma cxx_bool_nonzero [simp]: "cxx_bool b \<noteq> 0 \<longleftrightarrow> b"
  by (simp add: cxx_bool_def)

text \<open>
  The two sides composed, on a request that C++ code built: every operation of a SPARK object
  that takes a request converts it by \<open>spark_of_request\<close>. \<open>to_spark\<close> is its value where it has
  one, \<open>from_spark\<close> the way back.
\<close>

definition spark_of_request :: "request \<Rightarrow> exn + spark_request" where
  "spark_of_request r = cxx_request_to_spark (cxx_request_of_bytes (request_bytes r))"

definition count_in_range :: "request \<Rightarrow> bool" where
  "count_in_range r \<longleftrightarrow> \<not> valid r \<or> req_count r \<le> Tree_Max_Number_Of_Leafs"

definition to_spark :: "request \<Rightarrow> spark_request" where
  "to_spark r =
     (if valid r
      then \<lparr> spark_valid = True, spark_operation = req_operation r,
             spark_success = req_success r, spark_block_number = req_block_number r,
             spark_offset = req_offset r, spark_count = req_count r,
             spark_key_id = req_key_id r, spark_tag = req_tag r \<rparr>
      else spark_invalid_object)"

definition from_spark :: "spark_request \<Rightarrow> request" where
  "from_spark s =
     (if spark_valid s
      then make_request (spark_operation s) (spark_success s) (spark_block_number s)
             (spark_offset s) (spark_count s) (spark_key_id s) (spark_tag s)
      else invalid_request)"

lemma spark_of_request_eq:
  "spark_of_request r = (if count_in_range r then Inr (to_spark r) else Inl Constraint_Error)"
  by (cases "req_operation r")
    (simp_all add: spark_of_request_def cxx_request_of_request_bytes cxx_request_to_spark_def valid_def
      count_in_range_def count_to_spark_def cxx_request_valid_to_spark_def to_spark_def not_le)

lemma spark_of_request_error: "spark_of_request r = Inl e \<Longrightarrow> e = Constraint_Error"
  by (simp add: spark_of_request_eq split: if_splits)

lemma spark_of_request_InrD: "spark_of_request r = Inr s \<Longrightarrow> count_in_range r \<and> s = to_spark r"
  by (simp add: spark_of_request_eq split: if_splits)

lemma request_of_cxx_from_spark:
  "request_of_cxx (cxx_request_from_spark s) = Some (from_spark s)"
  by (cases "spark_operation s")
    (simp_all add: cxx_request_from_spark_def request_of_cxx_def from_spark_def
      operation_of_code_def all_operations_def invalid_request_def make_request_def)

lemma from_to_spark [simp]: "from_spark (to_spark r) = (if valid r then r else invalid_request)"
  by (simp add: from_spark_def to_spark_def make_request_def spark_invalid_object_def)

lemma spark_valid_to_spark [simp]: "spark_valid (to_spark r) = valid r"
  by (simp add: to_spark_def spark_invalid_object_def)

lemma spark_key_id_to_spark [simp]: "valid r \<Longrightarrow> spark_key_id (to_spark r) = req_key_id r"
  by (simp add: to_spark_def)

lemma valid_from_spark [simp]:
  "valid (from_spark s) \<longleftrightarrow> spark_valid s \<and> spark_operation s \<noteq> INVALID"
  by (simp add: from_spark_def)

text \<open>
  C11. A request the C++ side builds, laid out as the packed bytes of Cbe::Request, is read by
  the SPARK side with the same validity, and the SPARK side's answer is read back by the C++
  side as the same request (an invalid one as the invalid request); only a valid request of more
  than 2^30 blocks, the range of the SPARK type, raises Constraint_Error.
\<close>

theorem request_crosses_boundary:
  "if valid r \<and> 2 ^ 30 < req_count r
   then spark_of_request r = Inl Constraint_Error
   else \<exists>s. spark_of_request r = Inr s \<and> spark_valid s = valid r
      \<and> request_of_cxx (cxx_request_from_spark s) = Some (if valid r then r else invalid_request)"
  by (auto simp: spark_of_request_eq count_in_range_def Tree_Max_Number_Of_Leafs_eq request_of_cxx_from_spark
      not_less not_le)

section \<open>Information structure\<close>

record spark_info =
  sinfo_valid :: bool
  sinfo_rekeying :: bool
  sinfo_extending_ft :: bool
  sinfo_extending_vbd :: bool

text \<open>The packed \<open>CXX_Info_Type\<close>, in the order the SPARK side declares.\<close>

definition cxx_info_bytes :: "spark_info \<Rightarrow> bytes" where
  "cxx_info_bytes i =
     [cxx_bool (sinfo_valid i), cxx_bool (sinfo_rekeying i),
      cxx_bool (sinfo_extending_ft i), cxx_bool (sinfo_extending_vbd i)]"

text \<open>The packed \<open>Cbe::Info\<close>, in the order \<open>include/cbe/types.h\<close> declares.\<close>

definition info_of_bytes :: "bytes \<Rightarrow> info" where
  "info_of_bytes bs =
     \<lparr> info_valid = (bs ! 0 \<noteq> 0), info_rekeying = (bs ! 1 \<noteq> 0),
       info_extending_vbd = (bs ! 2 \<noteq> 0), info_extending_ft = (bs ! 3 \<noteq> 0) \<rparr>"

text \<open>
  C39. The library's Info crosses the language boundary with its two extending flags exchanged,
  because the two declarations of the packed record order them differently.
\<close>

theorem info_extending_fields_swapped:
  "info_of_bytes (cxx_info_bytes i) =
     \<lparr> info_valid = sinfo_valid i, info_rekeying = sinfo_rekeying i,
       info_extending_vbd = sinfo_extending_ft i,
       info_extending_ft = sinfo_extending_vbd i \<rparr>"
  by (simp add: info_of_bytes_def cxx_info_bytes_def)

end
