(* ===== verification/Crypto_Unit.thy ===== *)
theory Crypto_Unit
  imports Spark_Boundary
begin

text \<open>
  The crypto unit \<open>External::Crypto\<close>: its C++ interface \<open>include/cbe/external_crypto.h\<close>
  over the SPARK package \<open>src/lib/external_crypto/external-crypto.adb\<close>.

  The unit keeps two job slots and two key slots. A job is submitted with its data, done by
  \<open>execute\<close>, found by \<open>peek\<close> and handed out by \<open>supply\<close>, which frees the slot. The block
  cipher \<open>Aes_Cbc_4k\<close> is not part of the repository: its two functions are the fields of
  \<open>aes\<close>, an argument of \<open>execute\<close>.

  The locale \<open>crypto_direction\<close> states what a client relies on for one direction, over an
  abstract view of the unit's jobs. It is interpreted twice, for encryption and for
  decryption. A slot that was freed keeps its request, and \<open>supply\<close> compares requests
  without asking whether the slot is in use, so the invariant says that a freed first slot
  never shadows the second.
\<close>

section \<open>State\<close>

datatype job_operation_type = Job_Invalid | Job_Decrypt | Job_Encrypt

datatype job_state_type = Submitted | Completed

record crypto_job =
  job_operation :: job_operation_type
  job_state :: job_state_type
  job_request :: spark_request
  job_cipher_data :: bytes
  job_plain_data :: bytes

record crypto_key =
  ckey_data :: bytes
  ckey_id :: u32
  ckey_valid :: bool

record crypto =
  cr_jobs :: "crypto_job list"
  cr_keys :: "crypto_key list"

record aes =
  aes_encrypt :: "bytes \<Rightarrow> u64 \<Rightarrow> bytes \<Rightarrow> bytes"
  aes_decrypt :: "bytes \<Rightarrow> u64 \<Rightarrow> bytes \<Rightarrow> bytes"

definition Key_ID_Invalid :: u32 where "Key_ID_Invalid = 0"

definition Invalid_Key :: crypto_key where
  "Invalid_Key = \<lparr> ckey_data = replicate 32 0, ckey_id = 0, ckey_valid = False \<rparr>"

definition Invalid_Job :: crypto_job where
  "Invalid_Job =
     \<lparr> job_operation = Job_Invalid, job_state = Submitted, job_request = spark_invalid_object,
       job_cipher_data = zero_block, job_plain_data = zero_block \<rparr>"

definition Initialized_Object :: crypto where
  "Initialized_Object = \<lparr> cr_jobs = [Invalid_Job, Invalid_Job], cr_keys = [Invalid_Key, Invalid_Key] \<rparr>"

definition Key_Invalidate :: "crypto_key \<Rightarrow> crypto_key" where
  "Key_Invalidate k = \<lparr> ckey_data = replicate 32 0, ckey_id = Key_ID_Invalid, ckey_valid = False \<rparr>"

section \<open>Keys\<close>

text \<open>
  The slot for a new key: the first slot that holds no valid key, else the slot with the
  smallest identifier below the last one.
\<close>

fun select_key_to_evict :: "nat \<Rightarrow> crypto_key list \<Rightarrow> nat \<Rightarrow> u32 \<Rightarrow> nat" where
  "select_key_to_evict idx [] evict_idx evict_id = evict_idx"
| "select_key_to_evict idx (k # ks) evict_idx evict_id =
     (if ckey_valid k then
        (if ckey_id k < evict_id
         then select_key_to_evict (Suc idx) ks idx (ckey_id k)
         else select_key_to_evict (Suc idx) ks evict_idx evict_id)
      else idx)"

definition Add_Key :: "crypto \<Rightarrow> u32 \<Rightarrow> bytes \<Rightarrow> exn + crypto" where
  "Add_Key obj kid data =
     (if list_ex (\<lambda>k. ckey_id k = kid) (cr_keys obj) then Inl Program_Error
      else
        Inr (obj\<lparr>cr_keys := (cr_keys obj)
               [select_key_to_evict 0 (cr_keys obj) 0 (- 1) :=
                  \<lparr> ckey_data = data, ckey_id = kid, ckey_valid = True \<rparr>]\<rparr>))"

fun remove_first_key :: "crypto_key list \<Rightarrow> u32 \<Rightarrow> exn + crypto_key list" where
  "remove_first_key [] kid = Inl Program_Error"
| "remove_first_key (k # ks) kid =
     (if ckey_id k = kid then Inr (Key_Invalidate k # ks)
      else bind_exn (remove_first_key ks kid) (\<lambda>ks'. Inr (k # ks')))"

definition Remove_Key :: "crypto \<Rightarrow> u32 \<Rightarrow> exn + crypto" where
  "Remove_Key obj kid =
     bind_exn (remove_first_key (cr_keys obj) kid) (\<lambda>ks. Inr (obj\<lparr>cr_keys := ks\<rparr>))"

text \<open>The data of the last valid key with the job's identifier, or \<open>Program_Error\<close>.\<close>

definition key_data_for_job :: "crypto_job \<Rightarrow> crypto_key list \<Rightarrow> exn + bytes" where
  "key_data_for_job j ks =
     fold (\<lambda>k res. if ckey_valid k \<and> ckey_id k = spark_key_id (job_request j)
                   then Inr (ckey_data k) else res) ks (Inl Program_Error)"

section \<open>Jobs\<close>

definition spark_request_equal :: "spark_request \<Rightarrow> spark_request \<Rightarrow> bool" where
  "spark_request_equal a b \<longleftrightarrow>
     spark_block_number a = spark_block_number b \<and> spark_tag a = spark_tag b
     \<and> spark_operation a = spark_operation b"

definition Execute_Decrypt ::
  "aes \<Rightarrow> crypto_job \<Rightarrow> crypto_key list \<Rightarrow> bool \<Rightarrow> exn + (crypto_job \<times> bool)" where
  "Execute_Decrypt A j ks progress =
     (case job_state j of
        Submitted \<Rightarrow>
          bind_exn (key_data_for_job j ks) (\<lambda>k.
            Inr (j\<lparr>job_plain_data :=
                      aes_decrypt A k (spark_block_number (job_request j)) (job_cipher_data j),
                   job_request := (job_request j)\<lparr>spark_success := True\<rparr>,
                   job_state := Completed\<rparr>, True))
      | Completed \<Rightarrow> Inr (j, progress))"

definition Execute_Encrypt ::
  "aes \<Rightarrow> crypto_job \<Rightarrow> crypto_key list \<Rightarrow> bool \<Rightarrow> exn + (crypto_job \<times> bool)" where
  "Execute_Encrypt A j ks progress =
     (case job_state j of
        Submitted \<Rightarrow>
          bind_exn (key_data_for_job j ks) (\<lambda>k.
            Inr (j\<lparr>job_cipher_data :=
                      aes_encrypt A k (spark_block_number (job_request j)) (job_plain_data j),
                   job_state := Completed,
                   job_request := (job_request j)\<lparr>spark_success := True\<rparr>\<rparr>, True))
      | Completed \<Rightarrow> Inr (j, progress))"

fun execute_jobs ::
  "aes \<Rightarrow> crypto_job list \<Rightarrow> crypto_key list \<Rightarrow> bool \<Rightarrow> exn + (crypto_job list \<times> bool)" where
  "execute_jobs A [] ks progress = Inr ([], progress)"
| "execute_jobs A (j # js) ks progress =
     bind_exn
       (case job_operation j of
          Job_Encrypt \<Rightarrow> Execute_Encrypt A j ks progress
        | Job_Decrypt \<Rightarrow> Execute_Decrypt A j ks progress
        | Job_Invalid \<Rightarrow> Inr (j, progress))
       (\<lambda>(j', progress').
         bind_exn (execute_jobs A js ks progress') (\<lambda>(js', progress'').
           Inr (j' # js', progress'')))"

definition Crypto_Execute :: "aes \<Rightarrow> crypto \<Rightarrow> exn + (crypto \<times> bool)" where
  "Crypto_Execute A obj =
     bind_exn (execute_jobs A (cr_jobs obj) (cr_keys obj) False) (\<lambda>(js, progress).
       Inr (obj\<lparr>cr_jobs := js\<rparr>, progress))"

definition Encryption_Request_Acceptable :: "crypto \<Rightarrow> bool" where
  "Encryption_Request_Acceptable obj \<longleftrightarrow>
     list_ex (\<lambda>j. job_operation j = Job_Invalid) (cr_jobs obj)"

definition Decryption_Request_Acceptable :: "crypto \<Rightarrow> bool" where
  "Decryption_Request_Acceptable obj \<longleftrightarrow>
     list_ex (\<lambda>j. job_operation j = Job_Invalid) (cr_jobs obj)"

fun update_invalid_job :: "(crypto_job \<Rightarrow> crypto_job) \<Rightarrow> crypto_job list \<Rightarrow> exn + crypto_job list" where
  "update_invalid_job f [] = Inl Program_Error"
| "update_invalid_job f (j # js) =
     (if job_operation j = Job_Invalid then Inr (f j # js)
      else bind_exn (update_invalid_job f js) (\<lambda>js'. Inr (j # js')))"

definition Submit_Encryption_Request :: "crypto \<Rightarrow> spark_request \<Rightarrow> bytes \<Rightarrow> exn + crypto" where
  "Submit_Encryption_Request obj r plain_data =
     bind_exn
       (update_invalid_job
         (\<lambda>j. j\<lparr>job_operation := Job_Encrypt, job_state := Submitted, job_request := r,
                job_plain_data := plain_data\<rparr>) (cr_jobs obj))
       (\<lambda>js. Inr (obj\<lparr>cr_jobs := js\<rparr>))"

definition Submit_Decryption_Request :: "crypto \<Rightarrow> spark_request \<Rightarrow> bytes \<Rightarrow> exn + crypto" where
  "Submit_Decryption_Request obj r cipher_data =
     bind_exn
       (update_invalid_job
         (\<lambda>j. j\<lparr>job_operation := Job_Decrypt, job_state := Submitted, job_request := r,
                job_cipher_data := cipher_data\<rparr>) (cr_jobs obj))
       (\<lambda>js. Inr (obj\<lparr>cr_jobs := js\<rparr>))"

fun first_completed :: "job_operation_type \<Rightarrow> crypto_job list \<Rightarrow> spark_request" where
  "first_completed op [] = spark_invalid_object"
| "first_completed op (j # js) =
     (if job_operation j = op \<and> job_state j = Completed then job_request j
      else first_completed op js)"

definition Peek_Completed_Encryption_Request :: "crypto \<Rightarrow> spark_request" where
  "Peek_Completed_Encryption_Request obj = first_completed Job_Encrypt (cr_jobs obj)"

definition Peek_Completed_Decryption_Request :: "crypto \<Rightarrow> spark_request" where
  "Peek_Completed_Decryption_Request obj = first_completed Job_Decrypt (cr_jobs obj)"

text \<open>
  The first slot whose request equals the one given, whether or not the slot is in use.
  \<open>None\<close> is \<open>Success = False\<close>; then the caller's buffer keeps its contents.
\<close>

fun supply_job ::
  "(crypto_job \<Rightarrow> bytes) \<Rightarrow> spark_request \<Rightarrow> crypto_job list \<Rightarrow> crypto_job list \<times> bytes option" where
  "supply_job data r [] = ([], None)"
| "supply_job data r (j # js) =
     (if spark_request_equal r (job_request j) then
        (if job_state j \<noteq> Completed then (j # js, None)
         else (j\<lparr>job_operation := Job_Invalid\<rparr> # js, Some (data j)))
      else (case supply_job data r js of (js', out) \<Rightarrow> (j # js', out)))"

definition Supply_Cipher_Data :: "crypto \<Rightarrow> spark_request \<Rightarrow> crypto \<times> bytes option" where
  "Supply_Cipher_Data obj r =
     (case supply_job job_cipher_data r (cr_jobs obj) of (js, out) \<Rightarrow> (obj\<lparr>cr_jobs := js\<rparr>, out))"

definition Supply_Plain_Data :: "crypto \<Rightarrow> spark_request \<Rightarrow> crypto \<times> bytes option" where
  "Supply_Plain_Data obj r =
     (case supply_job job_plain_data r (cr_jobs obj) of (js, out) \<Rightarrow> (obj\<lparr>cr_jobs := js\<rparr>, out))"

section \<open>The C++ interface\<close>

text \<open>
  The methods of \<open>External::Crypto\<close>. The \<open>key_id\<close> argument of the two submit methods is
  ignored; the key is the one named in the request.
\<close>

definition crypto_execute :: "aes \<Rightarrow> crypto \<Rightarrow> exn + (crypto \<times> bool)" where
  "crypto_execute A c = Crypto_Execute A c"

definition submit_encryption_request ::
  "crypto \<Rightarrow> request \<Rightarrow> bytes \<Rightarrow> u32 \<Rightarrow> exn + (crypto \<times> bool)" where
  "submit_encryption_request c r data key_id =
     bind_exn (spark_of_request r) (\<lambda>s.
     bind_exn (Submit_Encryption_Request c s data) (\<lambda>c'. Inr (c', True)))"

definition peek_completed_encryption_request :: "crypto \<Rightarrow> request" where
  "peek_completed_encryption_request c = from_spark (Peek_Completed_Encryption_Request c)"

definition supply_cipher_data :: "crypto \<Rightarrow> request \<Rightarrow> exn + (crypto \<times> bytes option)" where
  "supply_cipher_data c r = bind_exn (spark_of_request r) (\<lambda>s. Inr (Supply_Cipher_Data c s))"

definition submit_decryption_request ::
  "crypto \<Rightarrow> request \<Rightarrow> bytes \<Rightarrow> u32 \<Rightarrow> exn + (crypto \<times> bool)" where
  "submit_decryption_request c r data key_id =
     bind_exn (spark_of_request r) (\<lambda>s.
     bind_exn (Submit_Decryption_Request c s data) (\<lambda>c'. Inr (c', True)))"

definition peek_completed_decryption_request :: "crypto \<Rightarrow> request" where
  "peek_completed_decryption_request c = from_spark (Peek_Completed_Decryption_Request c)"

definition supply_plain_data :: "crypto \<Rightarrow> request \<Rightarrow> exn + (crypto \<times> bytes option)" where
  "supply_plain_data c r = bind_exn (spark_of_request r) (\<lambda>s. Inr (Supply_Plain_Data c s))"

definition crypto_add_key :: "crypto \<Rightarrow> u32 \<Rightarrow> bytes \<Rightarrow> exn + crypto" where
  "crypto_add_key c kid data = Add_Key c kid data"

definition crypto_remove_key :: "crypto \<Rightarrow> u32 \<Rightarrow> exn + crypto" where
  "crypto_remove_key c kid = Remove_Key c kid"

section \<open>Invariant and abstract view\<close>

definition job_active :: "crypto_job \<Rightarrow> bool" where
  "job_active j \<longleftrightarrow> job_operation j \<noteq> Job_Invalid"

definition has_key :: "crypto_key list \<Rightarrow> u32 \<Rightarrow> bool" where
  "has_key ks kid \<longleftrightarrow> list_ex (\<lambda>k. ckey_valid k \<and> ckey_id k = kid) ks"

definition job_ok :: "crypto_key list \<Rightarrow> crypto_job \<Rightarrow> bool" where
  "job_ok ks j \<longleftrightarrow>
     (job_active j \<longrightarrow>
        spark_valid (job_request j) \<and> spark_operation (job_request j) \<noteq> INVALID
        \<and> spark_count (job_request j) \<le> Tree_Max_Number_Of_Leafs
        \<and> (job_state j = Submitted \<longrightarrow> has_key ks (spark_key_id (job_request j))))"

definition crypto_inv :: "crypto \<Rightarrow> bool" where
  "crypto_inv c \<longleftrightarrow>
     (\<exists>a b. cr_jobs c = [a, b] \<and> job_ok (cr_keys c) a \<and> job_ok (cr_keys c) b
       \<and> (job_active b \<longrightarrow> \<not> spark_request_equal (job_request a) (job_request b)))"

definition crypto_fresh :: "crypto \<Rightarrow> request \<Rightarrow> bool" where
  "crypto_fresh c r \<longleftrightarrow>
     valid r \<and> req_count r \<le> Tree_Max_Number_Of_Leafs \<and> has_key (cr_keys c) (req_key_id r)
     \<and> list_all (\<lambda>j. job_active j \<longrightarrow> \<not> spark_request_equal (to_spark r) (job_request j)) (cr_jobs c)"

text \<open>
  The jobs of one direction: the request, the data submitted and the result once the job is
  done.
\<close>

definition job_view :: "(crypto_job \<Rightarrow> bytes) \<Rightarrow> (crypto_job \<Rightarrow> bytes) \<Rightarrow> crypto_job
    \<Rightarrow> request \<times> bytes \<times> bytes option" where
  "job_view inp outp j =
     (from_spark (job_request j), inp j, if job_state j = Completed then Some (outp j) else None)"

definition encryption_view :: "crypto \<Rightarrow> (request \<times> bytes \<times> bytes option) list" where
  "encryption_view c =
     map (job_view job_plain_data job_cipher_data)
       (filter (\<lambda>j. job_operation j = Job_Encrypt) (cr_jobs c))"

definition decryption_view :: "crypto \<Rightarrow> (request \<times> bytes \<times> bytes option) list" where
  "decryption_view c =
     map (job_view job_cipher_data job_plain_data)
       (filter (\<lambda>j. job_operation j = Job_Decrypt) (cr_jobs c))"

definition key_data :: "crypto \<Rightarrow> u32 \<Rightarrow> bytes" where
  "key_data c kid =
     fold (\<lambda>k d. if ckey_valid k \<and> ckey_id k = kid then ckey_data k else d) (cr_keys c) []"

definition encryption_result :: "aes \<Rightarrow> crypto \<Rightarrow> request \<Rightarrow> bytes \<Rightarrow> bytes" where
  "encryption_result A c r d = aes_encrypt A (key_data c (req_key_id r)) (req_block_number r) d"

definition decryption_result :: "aes \<Rightarrow> crypto \<Rightarrow> request \<Rightarrow> bytes \<Rightarrow> bytes" where
  "decryption_result A c r d = aes_decrypt A (key_data c (req_key_id r)) (req_block_number r) d"

definition finish_view ::
  "(request \<Rightarrow> bytes \<Rightarrow> bytes) \<Rightarrow> request \<times> bytes \<times> bytes option \<Rightarrow> request \<times> bytes \<times> bytes option" where
  "finish_view f v =
     (case v of (r, d, out) \<Rightarrow>
        (case out of None \<Rightarrow> (set_success r True, d, Some (f r d)) | Some out' \<Rightarrow> (r, d, Some out')))"

section \<open>The contract of one direction\<close>

locale crypto_direction =
  fixes inv :: "'c \<Rightarrow> bool"
    and fresh :: "'c \<Rightarrow> request \<Rightarrow> bool"
    and acceptable :: "'c \<Rightarrow> bool"
    and submit :: "'c \<Rightarrow> request \<Rightarrow> bytes \<Rightarrow> u32 \<Rightarrow> exn + ('c \<times> bool)"
    and execute :: "'c \<Rightarrow> exn + ('c \<times> bool)"
    and peek :: "'c \<Rightarrow> request"
    and hand_out :: "'c \<Rightarrow> request \<Rightarrow> exn + ('c \<times> bytes option)"
    and view :: "'c \<Rightarrow> (request \<times> bytes \<times> bytes option) list"
    and result :: "'c \<Rightarrow> request \<Rightarrow> bytes \<Rightarrow> bytes"
  assumes submit_law:
      "inv c \<Longrightarrow> acceptable c \<Longrightarrow> fresh c r \<Longrightarrow>
       \<exists>c'. submit c r d k = Inr (c', True) \<and> inv c'
          \<and> set (view c') = insert (r, d, None) (set (view c)) \<and> result c' = result c"
    and execute_law:
      "inv c \<Longrightarrow>
       \<exists>c' p. execute c = Inr (c', p) \<and> inv c'
          \<and> view c' = map (finish_view (result c)) (view c)
          \<and> (p = False \<longrightarrow> view c' = view c)"
    and peek_valid: "inv c \<Longrightarrow> valid (peek c) \<Longrightarrow> \<exists>d out. (peek c, d, Some out) \<in> set (view c)"
    and peek_invalid: "inv c \<Longrightarrow> \<not> valid (peek c) \<Longrightarrow> (r, d, Some out) \<notin> set (view c)"
    and supply_law:
      "inv c \<Longrightarrow> (r, d, Some out) \<in> set (view c) \<Longrightarrow>
       \<exists>c'. hand_out c r = Inr (c', Some out) \<and> inv c'
          \<and> set (view c') = set (view c) - {(r, d, Some out)}
          \<and> length (view c) = Suc (length (view c'))"
begin

text \<open>One request from its submission to the hand-out of its result, as the unit's test runs it.\<close>

lemma one_request:
  assumes "inv c" "view c = []" "acceptable c" "fresh c r"
  shows "\<exists>c1 c2 p c3. submit c r d k = Inr (c1, True) \<and> execute c1 = Inr (c2, p)
           \<and> peek c2 = set_success r True
           \<and> hand_out c2 (peek c2) = Inr (c3, Some (result c r d)) \<and> inv c3 \<and> view c3 = []"
proof -
  obtain c1 where c1: "submit c r d k = Inr (c1, True)" "inv c1" "set (view c1) = {(r, d, None)}"
      "result c1 = result c"
    using submit_law [OF assms(1,3,4), of d k] assms(2) by auto
  obtain c2 p where c2: "execute c1 = Inr (c2, p)" "inv c2"
      and v2: "view c2 = map (finish_view (result c1)) (view c1)"
    using execute_law [OF c1(2)] by blast
  let ?v = "(set_success r True, d, Some (result c r d))"
  have s2: "set (view c2) = {?v}"
    by (simp add: v2 c1 finish_view_def)
  then have valid: "valid (peek c2)"
    using peek_invalid [OF c2(2), of "set_success r True" d "result c r d"] by auto
  then have peek: "peek c2 = set_success r True"
    using peek_valid [OF c2(2)] s2 by auto
  obtain c3 where c3: "hand_out c2 (peek c2) = Inr (c3, Some (result c r d))" "inv c3"
      "set (view c3) = set (view c2) - {?v}"
    using supply_law [OF c2(2), of "set_success r True" d "result c r d"] s2 peek by auto
  with s2 have "view c3 = []" by simp
  with c1(1) c2(1) c3 peek show ?thesis by blast
qed

text \<open>
  The hand-out loop of the clients: peek, supply, until no completed job is left. The
  results go to a sink, which may reject one with an exception.
\<close>

lemma supply_decreases:
  assumes "inv c" "valid (peek c)" "hand_out c (peek c) = Inr (c', out)"
  shows "inv c' \<and> (\<exists>bs. out = Some bs) \<and> length (view c') < length (view c)"
proof -
  obtain d bs where "(peek c, d, Some bs) \<in> set (view c)"
    using peek_valid [OF assms(1,2)] by blast
  from supply_law [OF assms(1) this] assms(3) show ?thesis by auto
qed

lemma drain_total:
  assumes "inv (unit s)"
    and step: "\<And>s s'. body s = Continue s' \<Longrightarrow>
      valid (peek (unit s)) \<and> (\<exists>out. hand_out (unit s) (peek (unit s)) = Inr (unit s', out))"
  shows "\<exists>res. run_loop body s = Some res"
proof (rule run_loop_total [where I = "\<lambda>s. inv (unit s)" and m = "\<lambda>s. length (view (unit s))"])
  fix s s'
  assume I: "inv (unit s)" and b: "body s = Continue s'"
  obtain out where "hand_out (unit s) (peek (unit s)) = Inr (unit s', out)"
    using step [OF b] by blast
  from supply_decreases [OF I _ this] step [OF b]
  show "inv (unit s') \<and> length (view (unit s')) < length (view (unit s))" by blast
qed (rule assms(1))

end

section \<open>The two directions of the unit\<close>

lemma spark_request_equal_refl [simp]: "spark_request_equal a a"
  by (simp add: spark_request_equal_def)

lemma spark_request_equal_sym: "spark_request_equal a b = spark_request_equal b a"
  by (auto simp: spark_request_equal_def)

lemma spark_request_equal_success [simp]:
  "spark_request_equal (a\<lparr>spark_success := s\<rparr>) b = spark_request_equal a b"
  "spark_request_equal a (b\<lparr>spark_success := s\<rparr>) = spark_request_equal a b"
  by (simp_all add: spark_request_equal_def)

lemma count_in_range_from_spark:
  "spark_count s \<le> Tree_Max_Number_Of_Leafs \<Longrightarrow> count_in_range (from_spark s)"
  by (simp add: count_in_range_def from_spark_def)

lemma to_from_spark: "spark_valid s \<Longrightarrow> spark_operation s \<noteq> INVALID \<Longrightarrow> to_spark (from_spark s) = s"
  by (simp add: to_spark_def from_spark_def)

lemma from_spark_success:
  "spark_valid s \<Longrightarrow> from_spark (s\<lparr>spark_success := b\<rparr>) = set_success (from_spark s) b"
  by (simp add: from_spark_def set_success_def make_request_def)

lemma key_data_for_job_eq:
  "has_key ks (spark_key_id (job_request j)) \<Longrightarrow>
   key_data_for_job j ks
     = Inr (fold (\<lambda>k d. if ckey_valid k \<and> ckey_id k = spark_key_id (job_request j)
                        then ckey_data k else d) ks [])"
proof (induction ks rule: rev_induct)
  case Nil
  then show ?case by (simp add: has_key_def)
next
  case (snoc k ks)
  then show ?case by (auto simp: key_data_for_job_def has_key_def)
qed

lemmas crypto_model =
  submit_encryption_request_def submit_decryption_request_def
  Submit_Encryption_Request_def Submit_Decryption_Request_def
  crypto_execute_def Crypto_Execute_def
  peek_completed_encryption_request_def peek_completed_decryption_request_def
  Peek_Completed_Encryption_Request_def Peek_Completed_Decryption_Request_def
  supply_cipher_data_def supply_plain_data_def Supply_Cipher_Data_def Supply_Plain_Data_def
  Encryption_Request_Acceptable_def Decryption_Request_Acceptable_def

lemmas crypto_views =
  encryption_view_def decryption_view_def job_view_def job_active_def job_ok_def

text \<open>What \<open>execute\<close> does to one job.\<close>

definition finish_job :: "aes \<Rightarrow> crypto \<Rightarrow> crypto_job \<Rightarrow> crypto_job" where
  "finish_job A c j =
     (if job_active j \<and> job_state j = Submitted
      then (if job_operation j = Job_Encrypt
            then j\<lparr>job_cipher_data := encryption_result A c (from_spark (job_request j)) (job_plain_data j),
                   job_state := Completed,
                   job_request := (job_request j)\<lparr>spark_success := True\<rparr>\<rparr>
            else j\<lparr>job_plain_data := decryption_result A c (from_spark (job_request j)) (job_cipher_data j),
                   job_state := Completed,
                   job_request := (job_request j)\<lparr>spark_success := True\<rparr>\<rparr>)
      else j)"

lemma execute_jobs_eq:
  "list_all (job_ok (cr_keys c)) js \<Longrightarrow>
   \<exists>p'. execute_jobs A js (cr_keys c) p = Inr (map (finish_job A c) js, p')
      \<and> (p' = False \<longrightarrow> map (finish_job A c) js = js)
      \<and> (p \<longrightarrow> p')"
proof (induction js arbitrary: p)
  case Nil
  then show ?case by simp
next
  case (Cons j js)
  let ?ex = "case job_operation j of
          Job_Encrypt \<Rightarrow> Execute_Encrypt A j (cr_keys c) p
        | Job_Decrypt \<Rightarrow> Execute_Decrypt A j (cr_keys c) p
        | Job_Invalid \<Rightarrow> Inr (j, p)"
  have ok: "job_ok (cr_keys c) j" and oks: "list_all (job_ok (cr_keys c)) js"
    using Cons.prems by simp_all
  have "\<exists>p1. ?ex = Inr (finish_job A c j, p1) \<and> (p1 = False \<longrightarrow> finish_job A c j = j) \<and> (p \<longrightarrow> p1)"
    using ok key_data_for_job_eq [of "cr_keys c" j]
    by (auto simp: finish_job_def job_active_def job_ok_def Execute_Encrypt_def Execute_Decrypt_def
        encryption_result_def decryption_result_def key_data_def from_spark_def
        split: job_operation_type.splits job_state_type.splits)
  then obtain p1 where p1: "?ex = Inr (finish_job A c j, p1)" "p1 = False \<longrightarrow> finish_job A c j = j"
      "p \<longrightarrow> p1" by blast
  from Cons.IH [OF oks, of p1] p1 show ?case by auto
qed

lemma finish_job_sel [simp]:
  "job_operation (finish_job A c j) = job_operation j"
  "job_active (finish_job A c j) = job_active j"
  "spark_request_equal (job_request (finish_job A c j)) r = spark_request_equal (job_request j) r"
  "spark_request_equal r (job_request (finish_job A c j)) = spark_request_equal r (job_request j)"
  by (simp_all add: finish_job_def job_active_def)

lemma finish_job_ok: "job_ok ks j \<Longrightarrow> job_ok ks (finish_job A c j)"
  by (simp add: finish_job_def job_ok_def job_active_def)

lemma job_view_finish_encrypt:
  "job_ok ks j \<Longrightarrow> job_operation j = Job_Encrypt \<Longrightarrow>
   job_view job_plain_data job_cipher_data (finish_job A c j)
     = finish_view (encryption_result A c) (job_view job_plain_data job_cipher_data j)"
  by (cases "job_state j")
    (simp_all add: job_view_def finish_job_def finish_view_def job_ok_def job_active_def
      from_spark_success)

lemma job_view_finish_decrypt:
  "job_ok ks j \<Longrightarrow> job_operation j = Job_Decrypt \<Longrightarrow>
   job_view job_cipher_data job_plain_data (finish_job A c j)
     = finish_view (decryption_result A c) (job_view job_cipher_data job_plain_data j)"
  by (cases "job_state j")
    (simp_all add: job_view_def finish_job_def finish_view_def job_ok_def job_active_def
      from_spark_success)

lemma crypto_execute_inv:
  assumes "crypto_inv c"
  shows "\<exists>p. crypto_execute A c = Inr (c\<lparr>cr_jobs := map (finish_job A c) (cr_jobs c)\<rparr>, p)
           \<and> crypto_inv (c\<lparr>cr_jobs := map (finish_job A c) (cr_jobs c)\<rparr>)
           \<and> (p = False \<longrightarrow> map (finish_job A c) (cr_jobs c) = cr_jobs c)"
proof -
  from assms have ok: "list_all (job_ok (cr_keys c)) (cr_jobs c)"
    by (auto simp: crypto_inv_def)
  obtain p where p: "execute_jobs A (cr_jobs c) (cr_keys c) False = Inr (map (finish_job A c) (cr_jobs c), p)"
      "p = False \<longrightarrow> map (finish_job A c) (cr_jobs c) = cr_jobs c"
    using execute_jobs_eq [OF ok, of A False] by blast
  have "crypto_inv (c\<lparr>cr_jobs := map (finish_job A c) (cr_jobs c)\<rparr>)"
    using assms by (auto simp: crypto_inv_def finish_job_ok)
  with p show ?thesis by (simp add: crypto_model)
qed

lemma encryption_view_finish:
  "crypto_inv c \<Longrightarrow>
   encryption_view (c\<lparr>cr_jobs := map (finish_job A c) (cr_jobs c)\<rparr>)
     = map (finish_view (encryption_result A c)) (encryption_view c)"
  by (auto simp: crypto_inv_def encryption_view_def job_view_finish_encrypt)

lemma decryption_view_finish:
  "crypto_inv c \<Longrightarrow>
   decryption_view (c\<lparr>cr_jobs := map (finish_job A c) (cr_jobs c)\<rparr>)
     = map (finish_view (decryption_result A c)) (decryption_view c)"
  by (auto simp: crypto_inv_def decryption_view_def job_view_finish_decrypt)

text \<open>The slot operations on the two slots, for either direction.\<close>

definition slots_ok :: "crypto_key list \<Rightarrow> crypto_job \<Rightarrow> crypto_job \<Rightarrow> bool" where
  "slots_ok ks a b \<longleftrightarrow>
     job_ok ks a \<and> job_ok ks b
     \<and> (job_active b \<longrightarrow> \<not> spark_request_equal (job_request a) (job_request b))"

definition slot_view :: "job_operation_type \<Rightarrow> (crypto_job \<Rightarrow> bytes) \<Rightarrow> (crypto_job \<Rightarrow> bytes)
    \<Rightarrow> crypto_job list \<Rightarrow> (request \<times> bytes \<times> bytes option) list" where
  "slot_view op inp outp js = map (job_view inp outp) (filter (\<lambda>j. job_operation j = op) js)"

lemma crypto_inv_slots: "crypto_inv c \<longleftrightarrow> (\<exists>a b. cr_jobs c = [a, b] \<and> slots_ok (cr_keys c) a b)"
  by (simp add: crypto_inv_def slots_ok_def)

lemma view_slots:
  "encryption_view c = slot_view Job_Encrypt job_plain_data job_cipher_data (cr_jobs c)"
  "decryption_view c = slot_view Job_Decrypt job_cipher_data job_plain_data (cr_jobs c)"
  by (simp_all add: encryption_view_def decryption_view_def slot_view_def)

lemma first_completed_cases:
  "(\<exists>j\<in>set js. job_operation j = op \<and> job_state j = Completed \<and> first_completed op js = job_request j)
   \<or> (\<forall>j\<in>set js. \<not> (job_operation j = op \<and> job_state j = Completed))
      \<and> first_completed op js = spark_invalid_object"
  by (induction js) auto

lemma peek_slots:
  assumes "slots_ok ks a b" "op \<noteq> Job_Invalid"
  shows "if valid (from_spark (first_completed op [a, b]))
         then \<exists>d out. (from_spark (first_completed op [a, b]), d, Some out)
                \<in> set (slot_view op inp outp [a, b])
         else \<forall>r d out. (r, d, Some out) \<notin> set (slot_view op inp outp [a, b])"
  using first_completed_cases [of "[a, b]" op]
proof (elim disjE bexE conjE)
  fix j
  assume j: "j \<in> set [a, b]" "job_operation j = op" "job_state j = Completed"
    "first_completed op [a, b] = job_request j"
  then have "(from_spark (job_request j), inp j, Some (outp j)) \<in> set (slot_view op inp outp [a, b])"
    by (auto simp: job_view_def slot_view_def)
  moreover have "valid (from_spark (job_request j))"
    using j assms by (auto simp: slots_ok_def job_ok_def job_active_def)
  ultimately show ?thesis using j(4) by (auto simp del: first_completed.simps)
next
  assume none: "\<forall>j\<in>set [a, b]. \<not> (job_operation j = op \<and> job_state j = Completed)"
    and inval: "first_completed op [a, b] = spark_invalid_object"
  have "\<not> valid (from_spark spark_invalid_object)"
    by (simp add: spark_invalid_object_def)
  moreover have "(r, d, Some out) \<notin> set (slot_view op inp outp [a, b])" for r d out
    using none by (auto simp: slot_view_def job_view_def split: if_splits)
  ultimately show ?thesis using inval by (simp del: first_completed.simps)
qed

lemma submit_slots:
  assumes ok: "slots_ok ks a b" and op: "op \<noteq> Job_Invalid"
    and acc: "list_ex (\<lambda>j. job_operation j = Job_Invalid) [a, b]"
    and fresh: "list_all (\<lambda>j. job_active j \<longrightarrow> \<not> spark_request_equal s (job_request j)) [a, b]"
    and f: "\<And>j. job_ok ks (f j)" "\<And>j. job_request (f j) = s" "\<And>j. job_operation (f j) = op"
      "\<And>j. job_view inp outp (f j) = v"
  shows "\<exists>a' b'. update_invalid_job f [a, b] = Inr [a', b'] \<and> slots_ok ks a' b'
           \<and> set (slot_view op inp outp [a', b']) = insert v (set (slot_view op inp outp [a, b]))"
proof (cases "job_operation a = Job_Invalid")
  case True
  have "slots_ok ks (f a) b"
    using ok fresh f by (simp add: slots_ok_def)
  with True op f show ?thesis by (simp add: slot_view_def)
next
  case False
  then have b: "job_operation b = Job_Invalid" using acc by simp
  have "slots_ok ks a (f b)"
    using ok fresh f False by (simp add: slots_ok_def job_active_def spark_request_equal_sym)
  with False b op f show ?thesis by (simp add: slot_view_def insert_commute)
qed

lemma job_view_distinct:
  assumes "slots_ok ks a b" "job_active a" "job_active b"
  shows "job_view inp outp a \<noteq> job_view inp outp b"
proof
  assume "job_view inp outp a = job_view inp outp b"
  then have "to_spark (from_spark (job_request a)) = to_spark (from_spark (job_request b))"
    by (simp add: job_view_def)
  with assms have "job_request a = job_request b"
    by (simp add: slots_ok_def job_ok_def to_from_spark)
  with assms show False by (simp add: slots_ok_def)
qed

lemma supply_slots:
  assumes ok: "slots_ok ks a b" and op: "op \<noteq> Job_Invalid"
    and v: "(r, d, Some out) \<in> set (slot_view op inp outp [a, b])"
  shows "\<exists>a' b'. spark_of_request r = Inr (to_spark r)
           \<and> supply_job outp (to_spark r) [a, b] = ([a', b'], Some out) \<and> slots_ok ks a' b'
           \<and> set (slot_view op inp outp [a', b']) = set (slot_view op inp outp [a, b]) - {(r, d, Some out)}
           \<and> length (slot_view op inp outp [a, b]) = Suc (length (slot_view op inp outp [a', b']))"
proof -
  have req: "to_spark (from_spark (job_request j)) = job_request j"
    if "job_ok ks j" "job_operation j = op" for j
    using that op by (auto simp: job_ok_def job_active_def to_from_spark)
  have range: "spark_of_request (from_spark (job_request j)) = Inr (to_spark (from_spark (job_request j)))"
    if "job_ok ks j" "job_operation j = op" for j
    using that op by (simp add: job_ok_def job_active_def spark_of_request_eq count_in_range_from_spark)
  consider (fst) "job_operation a = op" "job_view inp outp a = (r, d, Some out)"
    | (snd) "job_operation b = op" "job_view inp outp b = (r, d, Some out)"
    using v by (auto simp: slot_view_def split: if_splits)
  then show ?thesis
  proof cases
    case fst
    then have j: "to_spark r = job_request a" "job_state a = Completed" "outp a = out"
        "spark_of_request r = Inr (job_request a)"
      using ok req [of a] range [of a] by (auto simp: slots_ok_def job_view_def split: if_splits)
    have "slots_ok ks (a\<lparr>job_operation := Job_Invalid\<rparr>) b"
      using ok by (simp add: slots_ok_def job_ok_def job_active_def)
    moreover have "job_operation b = op \<Longrightarrow> job_view inp outp b \<noteq> (r, d, Some out)"
      using job_view_distinct [OF ok, of inp outp] fst op by (auto simp: job_active_def)
    ultimately show ?thesis using fst j op by (auto simp: slot_view_def)
  next
    case snd
    then have j: "to_spark r = job_request b" "job_state b = Completed" "outp b = out"
        "spark_of_request r = Inr (job_request b)"
      using ok req [of b] range [of b] by (auto simp: slots_ok_def job_view_def split: if_splits)
    have "slots_ok ks a (b\<lparr>job_operation := Job_Invalid\<rparr>)"
      using ok by (simp add: slots_ok_def job_ok_def job_active_def)
    moreover have "\<not> spark_request_equal (job_request b) (job_request a)"
      using ok snd op by (simp add: slots_ok_def job_active_def spark_request_equal_sym)
    moreover have "job_operation a = op \<Longrightarrow> job_view inp outp a \<noteq> (r, d, Some out)"
      using job_view_distinct [OF ok, of inp outp] snd op by (auto simp: job_active_def)
    ultimately show ?thesis using snd j op by (auto simp: slot_view_def)
  qed
qed

lemma fresh_job_ok:
  "crypto_fresh c r \<Longrightarrow> job_operation j \<noteq> Job_Invalid \<Longrightarrow> job_request j = to_spark r \<Longrightarrow>
   job_ok (cr_keys c) j"
  by (auto simp: crypto_fresh_def job_ok_def job_active_def valid_def to_spark_def)

lemma fresh_converts: "crypto_fresh c r \<Longrightarrow> spark_of_request r = Inr (to_spark r)"
  by (simp add: spark_of_request_eq crypto_fresh_def count_in_range_def)

lemma submit_encryption_law:
  assumes "crypto_inv c" "Encryption_Request_Acceptable c" "crypto_fresh c r"
  shows "\<exists>c'. submit_encryption_request c r d k = Inr (c', True) \<and> crypto_inv c'
           \<and> set (encryption_view c') = insert (r, d, None) (set (encryption_view c))
           \<and> encryption_result A c' = encryption_result A c"
proof -
  obtain a b where ab: "cr_jobs c = [a, b]" "slots_ok (cr_keys c) a b"
    using assms(1) by (auto simp: crypto_inv_slots)
  let ?f = "\<lambda>j. j\<lparr>job_operation := Job_Encrypt, job_state := Submitted,
                   job_request := to_spark r, job_plain_data := d\<rparr>"
  have "\<exists>a' b'. update_invalid_job ?f [a, b] = Inr [a', b'] \<and> slots_ok (cr_keys c) a' b'
      \<and> set (slot_view Job_Encrypt job_plain_data job_cipher_data [a', b'])
        = insert (r, d, None) (set (slot_view Job_Encrypt job_plain_data job_cipher_data [a, b]))"
    using assms ab
    by (intro submit_slots [where s = "to_spark r"])
      (auto simp: Encryption_Request_Acceptable_def crypto_fresh_def job_view_def
        intro: fresh_job_ok [OF assms(3)])
  then show ?thesis
    using ab fresh_converts [OF assms(3)]
    by (auto simp: crypto_model crypto_inv_slots view_slots encryption_result_def key_data_def fun_eq_iff
        simp del: update_invalid_job.simps)
qed

lemma submit_decryption_law:
  assumes "crypto_inv c" "Decryption_Request_Acceptable c" "crypto_fresh c r"
  shows "\<exists>c'. submit_decryption_request c r d k = Inr (c', True) \<and> crypto_inv c'
           \<and> set (decryption_view c') = insert (r, d, None) (set (decryption_view c))
           \<and> decryption_result A c' = decryption_result A c"
proof -
  obtain a b where ab: "cr_jobs c = [a, b]" "slots_ok (cr_keys c) a b"
    using assms(1) by (auto simp: crypto_inv_slots)
  let ?f = "\<lambda>j. j\<lparr>job_operation := Job_Decrypt, job_state := Submitted,
                   job_request := to_spark r, job_cipher_data := d\<rparr>"
  have "\<exists>a' b'. update_invalid_job ?f [a, b] = Inr [a', b'] \<and> slots_ok (cr_keys c) a' b'
      \<and> set (slot_view Job_Decrypt job_cipher_data job_plain_data [a', b'])
        = insert (r, d, None) (set (slot_view Job_Decrypt job_cipher_data job_plain_data [a, b]))"
    using assms ab
    by (intro submit_slots [where s = "to_spark r"])
      (auto simp: Decryption_Request_Acceptable_def crypto_fresh_def job_view_def
        intro: fresh_job_ok [OF assms(3)])
  then show ?thesis
    using ab fresh_converts [OF assms(3)]
    by (auto simp: crypto_model crypto_inv_slots view_slots decryption_result_def key_data_def fun_eq_iff
        simp del: update_invalid_job.simps)
qed

lemma supply_cipher_law:
  assumes "crypto_inv c" "(r, d, Some out) \<in> set (encryption_view c)"
  shows "\<exists>c'. supply_cipher_data c r = Inr (c', Some out) \<and> crypto_inv c'
           \<and> set (encryption_view c') = set (encryption_view c) - {(r, d, Some out)}
           \<and> length (encryption_view c) = Suc (length (encryption_view c'))"
  using assms
  by (auto simp: crypto_inv_slots view_slots crypto_model simp del: supply_job.simps
      dest!: supply_slots [of "cr_keys c", rotated 2])

lemma supply_plain_law:
  assumes "crypto_inv c" "(r, d, Some out) \<in> set (decryption_view c)"
  shows "\<exists>c'. supply_plain_data c r = Inr (c', Some out) \<and> crypto_inv c'
           \<and> set (decryption_view c') = set (decryption_view c) - {(r, d, Some out)}
           \<and> length (decryption_view c) = Suc (length (decryption_view c'))"
  using assms
  by (auto simp: crypto_inv_slots view_slots crypto_model simp del: supply_job.simps
      dest!: supply_slots [of "cr_keys c", rotated 2])

lemma peek_encryption_law:
  assumes "crypto_inv c"
  shows "if valid (peek_completed_encryption_request c)
         then \<exists>d out. (peek_completed_encryption_request c, d, Some out) \<in> set (encryption_view c)
         else \<forall>r d out. (r, d, Some out) \<notin> set (encryption_view c)"
  using assms peek_slots [of "cr_keys c" _ _ Job_Encrypt]
  by (auto simp: crypto_inv_slots view_slots crypto_model simp del: first_completed.simps)

lemma peek_decryption_law:
  assumes "crypto_inv c"
  shows "if valid (peek_completed_decryption_request c)
         then \<exists>d out. (peek_completed_decryption_request c, d, Some out) \<in> set (decryption_view c)
         else \<forall>r d out. (r, d, Some out) \<notin> set (decryption_view c)"
  using assms peek_slots [of "cr_keys c" _ _ Job_Decrypt]
  by (auto simp: crypto_inv_slots view_slots crypto_model simp del: first_completed.simps)

interpretation encryption: crypto_direction crypto_inv crypto_fresh Encryption_Request_Acceptable
  submit_encryption_request "crypto_execute A" peek_completed_encryption_request
  supply_cipher_data encryption_view "encryption_result A" for A
proof (unfold_locales, goal_cases)
  case (1 c r d k)
  then show ?case by (rule submit_encryption_law)
next
  case (2 c)
  then show ?case using crypto_execute_inv [OF 2, of A] encryption_view_finish [OF 2, of A]
    by (fastforce simp: encryption_view_def)
next
  case (3 c)
  then show ?case using peek_encryption_law [OF 3(1)] by simp
next
  case (4 c r d out)
  then show ?case using peek_encryption_law [OF 4(1)] by simp
next
  case (5 c r d out)
  then show ?case by (rule supply_cipher_law)
qed

interpretation decryption: crypto_direction crypto_inv crypto_fresh Decryption_Request_Acceptable
  submit_decryption_request "crypto_execute A" peek_completed_decryption_request
  supply_plain_data decryption_view "decryption_result A" for A
proof (unfold_locales, goal_cases)
  case (1 c r d k)
  then show ?case by (rule submit_decryption_law)
next
  case (2 c)
  then show ?case using crypto_execute_inv [OF 2, of A] decryption_view_finish [OF 2, of A]
    by (fastforce simp: decryption_view_def)
next
  case (3 c)
  then show ?case using peek_decryption_law [OF 3(1)] by simp
next
  case (4 c r d out)
  then show ?case using peek_decryption_law [OF 4(1)] by simp
next
  case (5 c r d out)
  then show ?case by (rule supply_plain_law)
qed

section \<open>Properties\<close>

text \<open>
  C14. A request handed to an idle crypto unit is encrypted end to end: the submission is
  accepted, execution completes it, it is the completed request that is reported, and the data
  supplied for it is the block cipher's output under the key stored for the request's key
  identifier and its block number; afterwards the unit is idle again and its invariant holds.
\<close>

theorem encryption_end_to_end:
  assumes "crypto_inv c" "encryption_view c = []" "Encryption_Request_Acceptable c" "crypto_fresh c r"
  shows "\<exists>c1 c2 p c3. submit_encryption_request c r d k = Inr (c1, True)
     \<and> crypto_execute A c1 = Inr (c2, p)
     \<and> peek_completed_encryption_request c2 = set_success r True
     \<and> supply_cipher_data c2 (peek_completed_encryption_request c2)
         = Inr (c3, Some (aes_encrypt A (key_data c (req_key_id r)) (req_block_number r) d))
     \<and> crypto_inv c3 \<and> encryption_view c3 = []"
  using encryption.one_request [OF assms, of d k A] by (simp add: encryption_result_def)

text \<open>
  C15. If the block cipher's decryption inverts its encryption, a block encrypted by the crypto
  unit and later decrypted, for the same block number and with the same key data, comes back
  unchanged.
\<close>

theorem encrypt_decrypt_round_trip:
  assumes aes: "\<And>key n x. aes_decrypt A key n (aes_encrypt A key n x) = x"
    and enc: "crypto_inv c" "encryption_view c = []" "Encryption_Request_Acceptable c" "crypto_fresh c r"
    and dec: "crypto_inv c'" "decryption_view c' = []" "Decryption_Request_Acceptable c'" "crypto_fresh c' r'"
    and "req_block_number r' = req_block_number r"
    and "key_data c' (req_key_id r') = key_data c (req_key_id r)"
  shows "\<exists>c1 c2 p c3 cipher c1' c2' p' c3'. submit_encryption_request c r d k = Inr (c1, True)
     \<and> crypto_execute A c1 = Inr (c2, p)
     \<and> supply_cipher_data c2 (peek_completed_encryption_request c2) = Inr (c3, Some cipher)
     \<and> submit_decryption_request c' r' cipher k' = Inr (c1', True)
     \<and> crypto_execute A c1' = Inr (c2', p')
     \<and> supply_plain_data c2' (peek_completed_decryption_request c2') = Inr (c3', Some d)"
proof -
  let ?cipher = "encryption_result A c r d"
  obtain c1 c2 p c3 where "submit_encryption_request c r d k = Inr (c1, True)"
      "crypto_execute A c1 = Inr (c2, p)"
      "supply_cipher_data c2 (peek_completed_encryption_request c2) = Inr (c3, Some ?cipher)"
    using encryption.one_request [OF enc, of d k A] by blast
  moreover have "decryption_result A c' r' ?cipher = d"
    using assms(10,11) by (simp add: encryption_result_def decryption_result_def aes)
  then obtain c1' c2' p' c3' where "submit_decryption_request c' r' ?cipher k' = Inr (c1', True)"
      "crypto_execute A c1' = Inr (c2', p')"
      "supply_plain_data c2' (peek_completed_decryption_request c2') = Inr (c3', Some d)"
    using decryption.one_request [OF dec, of ?cipher k' A] by auto
  ultimately show ?thesis by blast
qed

theorem add_key_evicts_smallest:
  assumes "length (cr_keys c) = 2" "crypto_add_key c kid d = Inr c'"
  shows "key_data c' kid = d \<and> has_key (cr_keys c') kid \<and> cr_jobs c' = cr_jobs c
    \<and> (\<forall>i. has_key (cr_keys c) i \<and> \<not> has_key (cr_keys c') i
           \<longrightarrow> list_all ckey_valid (cr_keys c) \<and> list_all (\<lambda>key. i \<le> ckey_id key) (cr_keys c))"
proof -
  obtain a b where ab: "cr_keys c = [a, b]"
    using assms(1) by (auto simp: length_Suc_conv numeral_2_eq_2)
  have max: "x < (- 1 :: u32) \<or> x = - 1" for x using word_n1_ge [of x] by (auto simp: le_less)
  show ?thesis
    using assms(2) ab max [of "ckey_id a"] max [of "ckey_id b"]
    by (auto simp: crypto_add_key_def Add_Key_def key_data_def has_key_def split: if_splits)
qed

text \<open>A unit with one key, for the examples.\<close>

definition sample_crypto :: crypto where
  "sample_crypto =
     \<lparr> cr_jobs = [Invalid_Job, Invalid_Job],
       cr_keys = [\<lparr> ckey_data = [1, 2, 3], ckey_id = 5, ckey_valid = True \<rparr>, Invalid_Key] \<rparr>"

definition sample_aes :: aes where
  "sample_aes = \<lparr> aes_encrypt = (\<lambda>key n xs. map (xor 255) xs),
                  aes_decrypt = (\<lambda>key n xs. map (xor 255) xs) \<rparr>"

lemma sample_crypto_ready:
  "crypto_inv sample_crypto" "encryption_view sample_crypto = []" "decryption_view sample_crypto = []"
  "Encryption_Request_Acceptable sample_crypto" "Decryption_Request_Acceptable sample_crypto"
  "crypto_fresh sample_crypto (make_request op False n 0 1 5 0) \<longleftrightarrow> op \<noteq> INVALID"
  "key_data sample_crypto 5 = [1, 2, 3]"
  by (simp_all add: sample_crypto_def crypto_inv_def job_ok_def job_active_def Invalid_Job_def
      encryption_view_def decryption_view_def Encryption_Request_Acceptable_def
      Decryption_Request_Acceptable_def crypto_fresh_def has_key_def key_data_def Invalid_Key_def
      Tree_Max_Number_Of_Leafs_eq)

lemma sample_aes_inverse: "aes_decrypt sample_aes key n (aes_encrypt sample_aes key n x) = x"
  by (simp add: sample_aes_def comp_def xor.assoc)

theorem encryption_end_to_end_witness:
  "\<exists>c1 c2 p c3. submit_encryption_request sample_crypto (make_request WRITE False 9 0 1 5 0) [7] 0 = Inr (c1, True)
     \<and> crypto_execute sample_aes c1 = Inr (c2, p)
     \<and> supply_cipher_data c2 (peek_completed_encryption_request c2) = Inr (c3, Some [248])"
  using encryption_end_to_end [OF sample_crypto_ready(1,2,4), of "make_request WRITE False 9 0 1 5 0" "[7]" 0 sample_aes]
  by (auto simp: sample_crypto_ready sample_aes_def)

theorem encrypt_decrypt_round_trip_witness:
  "\<exists>c1 c2 p c3 cipher c1' c2' p' c3'.
     submit_encryption_request sample_crypto (make_request WRITE False 9 0 1 5 0) [7, 8] 0 = Inr (c1, True)
     \<and> crypto_execute sample_aes c1 = Inr (c2, p)
     \<and> supply_cipher_data c2 (peek_completed_encryption_request c2) = Inr (c3, Some cipher)
     \<and> submit_decryption_request sample_crypto (make_request READ False 9 0 1 5 0) cipher 0 = Inr (c1', True)
     \<and> crypto_execute sample_aes c1' = Inr (c2', p')
     \<and> supply_plain_data c2' (peek_completed_decryption_request c2') = Inr (c3', Some [7, 8])"
  by (rule encrypt_decrypt_round_trip [OF sample_aes_inverse])
    (simp_all add: sample_crypto_ready)

theorem add_key_evicts_smallest_witness:
  "\<exists>c'. crypto_add_key sample_crypto 6 [4] = Inr c' \<and> key_data c' 6 = [4] \<and> has_key (cr_keys c') 6"
proof -
  have len: "length (cr_keys sample_crypto) = 2" by (simp add: sample_crypto_def)
  obtain c' where "crypto_add_key sample_crypto 6 [4] = Inr c'"
    by (simp add: crypto_add_key_def Add_Key_def sample_crypto_def Invalid_Key_def)
  with add_key_evicts_smallest [OF len this] show ?thesis by blast
qed

end
