(* ===== verification/Vfs_Wrapper.thy ===== *)
theory Vfs_Wrapper
  imports Io_Job Crypto_Unit
begin

text \<open>
  The class \<open>Vfs_cbe::Wrapper\<close> of \<open>src/lib/vfs/cbe/vfs.cc\<close>, which drives the CBE library for
  the file systems of the plugin.

  \<^item> \<open>wrapper\<close> is its state. The library object and the crypto unit are members, as are the
    three buffers, the one back-end job, the front-end request and the two helper requests
    that make an unaligned access from whole blocks.
  \<^item> \<open>world\<close> collects what is outside the repository: the methods of the library, its state
    after construction, the VFS operations on the block device and its \<open>open\<close>, the block
    cipher and the value of an uninitialised local variable.
  \<^item> Client memory is \<open>w_memory\<close>. The block data of the helper requests are members of the
    wrapper, at the addresses \<open>w_helper_read_addr\<close> and \<open>w_helper_write_addr\<close>, and are
    kept apart from client memory.
  \<^item> \<open>handle_cbe_frontend\<close>, \<open>handle_cbe_backend\<close> and \<open>handle_crypto\<close> are the three handlers,
    \<open>handle_frontend_request\<close> the loop over them. Their results are of type \<open>run\<close>: the code
    loops until the library reports no progress, so whether they return depends on it.
  \<^item> Log output is not modelled, except that \<open>_dump_state\<close> evaluates its arguments.
\<close>

section \<open>State\<close>

datatype rekeying_state = RS_UNKNOWN | RS_IDLE | RS_IN_PROGRESS

datatype background_result = R_NONE | R_SUCCESS | R_FAILED

record rekeying =
  rk_state :: rekeying_state
  rk_last_result :: background_result
  rk_key_id :: u32

fun rekeying_state_to_cstring :: "rekeying_state \<Rightarrow> string" where
  "rekeying_state_to_cstring RS_UNKNOWN = ''unknown''"
| "rekeying_state_to_cstring RS_IDLE = ''idle''"
| "rekeying_state_to_cstring RS_IN_PROGRESS = ''in-progress''"

datatype extending_type = XT_INVALID | XT_VBD | XT_FT

datatype extending_state = XS_UNKNOWN | XS_IDLE | XS_IN_PROGRESS

record extending =
  ex_type :: extending_type
  ex_state :: extending_state
  ex_last_result :: background_result

fun extending_state_to_cstring :: "extending_state \<Rightarrow> string" where
  "extending_state_to_cstring XS_UNKNOWN = ''unknown''"
| "extending_state_to_cstring XS_IDLE = ''idle''"
| "extending_state_to_cstring XS_IN_PROGRESS = ''in-progress''"

text \<open>\<open>strcmp\<close> with a length compares at most that many characters.\<close>

definition string_to_type :: "string \<Rightarrow> extending_type" where
  "string_to_type s =
     (if take 3 s = ''vbd'' then XT_VBD else if take 2 s = ''ft'' then XT_FT else XT_INVALID)"

datatype helper_state = H_NONE | H_PENDING | H_IN_PROGRESS | H_COMPLETE | H_ERROR

record helper_request =
  h_state :: helper_state
  h_block_data :: block_data
  h_cbe_request :: request

definition helper_init :: helper_request where
  "helper_init = \<lparr> h_state = H_NONE, h_block_data = zero_block, h_cbe_request = invalid_request \<rparr>"

datatype frontend_state =
    F_NONE | F_PENDING | F_IN_PROGRESS | F_COMPLETE | F_ERROR | F_ERROR_EOF

record frontend_request =
  fr_state :: frontend_state
  fr_count :: u64
  fr_cbe_request :: request
  fr_snap_id :: u32
  fr_offset :: u64
  fr_helper_offset :: u64

definition frontend_init :: frontend_request where
  "frontend_init =
     \<lparr> fr_state = F_NONE, fr_count = 0, fr_cbe_request = invalid_request, fr_snap_id = 0,
       fr_offset = 0, fr_helper_offset = 0 \<rparr>"

fun frontend_state_to_string :: "frontend_state \<Rightarrow> string" where
  "frontend_state_to_string F_NONE = ''NONE''"
| "frontend_state_to_string F_PENDING = ''PENDING''"
| "frontend_state_to_string F_IN_PROGRESS = ''IN_PROGRESS''"
| "frontend_state_to_string F_COMPLETE = ''COMPLETE''"
| "frontend_state_to_string F_ERROR = ''ERROR''"
| "frontend_state_to_string F_ERROR_EOF = ''ERROR_EOF''"

text \<open>
  A VFS handle is known to the wrapper by its identity; \<open>w_responses\<close> lists the handles whose
  \<open>io_progress_response\<close> was called, oldest first.
\<close>

record ('l, 'f) wrapper =
  w_cbe_constructed :: bool
  w_cbe :: 'l
  w_backend :: 'f
  w_backend_job :: "io_job option"
  w_io_data :: block_buffer
  w_cipher_data :: block_buffer
  w_plain_data :: block_buffer
  w_crypto :: crypto
  w_rekey_obj :: rekeying
  w_extend_obj :: extending
  w_verbose :: bool
  w_debug :: bool
  w_block_device :: string
  w_helper_read :: helper_request
  w_helper_write :: helper_request
  w_helper_read_addr :: u64
  w_helper_write_addr :: u64
  w_frontend :: frontend_request
  w_create_snapshot :: frontend_request
  w_discard_snapshot :: frontend_request
  w_enqueued :: "nat option"
  w_io_progress_pending :: bool
  w_responses :: "nat list"
  w_memory :: memory

record ('l, 'f) world =
  world_lib :: "'l cbe_library"
  world_new_lib :: 'l
  world_file :: "'f vfs_file"
  world_open :: "string \<Rightarrow> 'f option"
  world_aes :: aes
  world_indeterminate :: u32

section \<open>Construction\<close>

text \<open>The attributes of the plugin's configuration node, each absent or with its value.\<close>

record vfs_config =
  cfg_verbose :: "bool option"
  cfg_debug :: "bool option"
  cfg_block :: "string option"

text \<open>The device path is a string of at most 31 characters.\<close>

definition read_config :: "vfs_config \<Rightarrow> ('l, 'f) wrapper \<Rightarrow> ('l, 'f) wrapper" where
  "read_config config w =
     w\<lparr>w_verbose := attribute_value (cfg_verbose config) (w_verbose w),
       w_debug := attribute_value (cfg_debug config) (w_debug w),
       w_block_device := take 31 (attribute_value (cfg_block config) (w_block_device w))\<rparr>"

definition initialize_cbe :: "('l, 'f) world \<Rightarrow> ('l, 'f) wrapper \<Rightarrow> exn + ('l, 'f) wrapper" where
  "initialize_cbe E w =
     (case world_open E (w_block_device w) of
        None \<Rightarrow> Inl Could_not_open_block_backend
      | Some f \<Rightarrow> Inr (w\<lparr>w_backend := f, w_cbe := world_new_lib E, w_cbe_constructed := True\<rparr>))"

text \<open>
  The members before the constructor's body runs. Nothing reads the back-end handle and the
  library before \<open>initialize_cbe\<close> sets them.
\<close>

definition wrapper_members :: "'f \<Rightarrow> 'l \<Rightarrow> u64 \<Rightarrow> u64 \<Rightarrow> memory \<Rightarrow> ('l, 'f) wrapper" where
  "wrapper_members f l read_addr write_addr mem =
     \<lparr> w_cbe_constructed = False, w_cbe = l, w_backend = f, w_backend_job = None,
       w_io_data = new_buffer, w_cipher_data = new_buffer, w_plain_data = new_buffer,
       w_crypto = Initialized_Object,
       w_rekey_obj = \<lparr> rk_state = RS_UNKNOWN, rk_last_result = R_NONE, rk_key_id = 0 \<rparr>,
       w_extend_obj = \<lparr> ex_type = XT_INVALID, ex_state = XS_UNKNOWN, ex_last_result = R_NONE \<rparr>,
       w_verbose = False, w_debug = False, w_block_device = ''/dev/block'',
       w_helper_read = helper_init, w_helper_write = helper_init,
       w_helper_read_addr = read_addr, w_helper_write_addr = write_addr,
       w_frontend = frontend_init, w_create_snapshot = frontend_init,
       w_discard_snapshot = frontend_init, w_enqueued = None, w_io_progress_pending = False,
       w_responses = [], w_memory = mem \<rparr>"

definition new_wrapper ::
  "('l, 'f) world \<Rightarrow> vfs_config \<Rightarrow> ('l, 'f) wrapper \<Rightarrow> exn + ('l, 'f) wrapper" where
  "new_wrapper E config members = initialize_cbe E (read_config config members)"

definition wrapper_cbe :: "('l, 'f) wrapper \<Rightarrow> exn + 'l" where
  "wrapper_cbe w = (if \<not> w_cbe_constructed w then Inl Cbe_Not_Initialized else Inr (w_cbe w))"

section \<open>The front-end request\<close>

definition io_progress_response :: "nat \<Rightarrow> ('l, 'f) wrapper \<Rightarrow> ('l, 'f) wrapper" where
  "io_progress_response handle w = w\<lparr>w_responses := w_responses w @ [handle]\<rparr>"

definition enqueue_handle :: "nat \<Rightarrow> ('l, 'f) wrapper \<Rightarrow> ('l, 'f) wrapper" where
  "enqueue_handle handle w =
     (let w1 = w\<lparr>w_enqueued := Some handle\<rparr>
      in if w_io_progress_pending w1
         then (io_progress_response handle w1)\<lparr>w_io_progress_pending := False\<rparr>
         else w1)"

definition ack_frontend_request :: "('l, 'f) wrapper \<Rightarrow> ('l, 'f) wrapper" where
  "ack_frontend_request w =
     w\<lparr>w_frontend := (w_frontend w)\<lparr>fr_state := F_NONE, fr_cbe_request := invalid_request\<rparr>,
       w_enqueued := None\<rparr>"

text \<open>
  \<open>seek\<close> is the position of the handle. An access that does not start at a block or is
  shorter than one goes through the helper requests, one block at a time.
\<close>

definition unaligned_request :: "u64 \<Rightarrow> u64 \<Rightarrow> bool" where
  "unaligned_request offset count \<longleftrightarrow> offset mod BLOCK_SIZE \<noteq> 0 \<or> count < BLOCK_SIZE"

definition submit_frontend_request ::
  "('l, 'f) wrapper \<Rightarrow> u64 \<Rightarrow> u64 \<Rightarrow> u64 \<Rightarrow> operation \<Rightarrow> u32 \<Rightarrow> ('l, 'f) wrapper \<times> bool" where
  "submit_frontend_request w seek data count op snap_id =
     (let fr = w_frontend w in
      if fr_state fr \<noteq> F_NONE then (w, False)
      else if op = SYNC then
        (w\<lparr>w_frontend := fr\<lparr>fr_cbe_request := make_request op False 0 0 1 0 0,
                            fr_count := 0, fr_snap_id := 0, fr_state := F_PENDING\<rparr>\<rparr>, True)
      else
        (let offset = seek;
             unaligned = unaligned_request offset count;
             count = (if count mod BLOCK_SIZE \<noteq> 0 \<and> \<not> unaligned
                      then count - count mod BLOCK_SIZE else count);
             w1 =
               (if unaligned then
                  (let helper_offset = offset mod BLOCK_SIZE
                   in w\<lparr>w_helper_read := (w_helper_read w)
                          \<lparr>h_cbe_request := make_request READ False (offset div BLOCK_SIZE)
                                              (w_helper_read_addr w) 1 0 0,
                           h_state := H_PENDING\<rparr>,
                        w_frontend := fr
                          \<lparr>fr_helper_offset := helper_offset,
                           fr_count := (if count \<ge> BLOCK_SIZE - helper_offset
                                        then BLOCK_SIZE - helper_offset else count),
                           fr_state := F_IN_PROGRESS\<rparr>\<rparr>)
                else w\<lparr>w_frontend := fr\<lparr>fr_count := count, fr_state := F_PENDING\<rparr>\<rparr>)
         in (w1\<lparr>w_frontend := (w_frontend w1)
                 \<lparr>fr_offset := offset,
                  fr_cbe_request := make_request op False (offset div BLOCK_SIZE) data
                                      (ucast (ucast (count div BLOCK_SIZE) :: u32)) 0 0,
                  fr_snap_id := snap_id\<rparr>\<rparr>, True)))"

section \<open>The back end\<close>

definition execute_backend_job ::
  "('l, 'f) world \<Rightarrow> io_job \<Rightarrow> ('l, 'f) wrapper \<Rightarrow> exn + (('l, 'f) wrapper \<times> bool)" where
  "execute_backend_job E j w =
     bind_exn
       (job_execute (world_file E) (world_lib E)
          \<lparr> env_job = j, env_file = w_backend w, env_lib = w_cbe w, env_io_data = w_io_data w \<rparr>)
       (\<lambda>(e, progress).
          Inr (w\<lparr>w_backend := env_file e, w_cbe := env_lib e, w_io_data := env_io_data e,
                 w_backend_job :=
                   (if job_completed (env_job e) then None else Some (env_job e))\<rparr>, progress))"

definition handle_cbe_backend ::
  "('l, 'f) world \<Rightarrow> ('l, 'f) wrapper \<Rightarrow> exn + (('l, 'f) wrapper \<times> bool)" where
  "handle_cbe_backend E w =
     (case has_io_request (world_lib E) (w_cbe w) 0 of (cbe_request, data_index) \<Rightarrow>
      case w_backend_job w of
        Some j \<Rightarrow> execute_backend_job E j w
      | None \<Rightarrow>
          if valid cbe_request then
            bind_exn
              (new_io_job (req_operation cbe_request) data_index
                 (req_block_number cbe_request * BLOCK_SIZE) (req_count cbe_request * BLOCK_SIZE))
              (\<lambda>j. execute_backend_job E j w)
          else Inr (w, False))"

section \<open>The front end\<close>

text \<open>
  \<open>_handle_cbe_frontend\<close> in the order of its blocks. The argument \<open>frontend_request\<close> of the
  code is always the member \<open>_frontend_request\<close>, so both are \<open>w_frontend\<close> here.
\<close>

definition submit_helper_requests :: "('l, 'f) world \<Rightarrow> ('l, 'f) wrapper \<Rightarrow> ('l, 'f) wrapper" where
  "submit_helper_requests E w =
     (let L = world_lib E;
          w1 = (if h_state (w_helper_read w) = H_PENDING \<and> client_request_acceptable L (w_cbe w)
                then w\<lparr>w_cbe := submit_client_request L (w_cbe w) (h_cbe_request (w_helper_read w))
                                  (fr_snap_id (w_frontend w)),
                       w_helper_read := (w_helper_read w)\<lparr>h_state := H_IN_PROGRESS\<rparr>\<rparr>
                else w)
      in if h_state (w_helper_write w1) = H_PENDING \<and> client_request_acceptable L (w_cbe w1)
         then w1\<lparr>w_cbe := submit_client_request L (w_cbe w1) (h_cbe_request (w_helper_write w1))
                            (fr_snap_id (w_frontend w1)),
                 w_helper_write := (w_helper_write w1)\<lparr>h_state := H_IN_PROGRESS\<rparr>\<rparr>
         else w1)"

text \<open>The three checks of the range of a request, on wrapping 64-bit sums.\<close>

definition request_out_of_range :: "u64 \<Rightarrow> request \<Rightarrow> bool" where
  "request_out_of_range last_vba r \<longleftrightarrow>
     req_block_number r > last_vba
     \<or> req_block_number r + req_count r < req_block_number r
     \<or> req_block_number r + req_count r > last_vba + 1"

text \<open>The Boolean of the result says that the request was rejected and the handler returns.\<close>

definition submit_pending_request ::
  "('l, 'f) world \<Rightarrow> ('l, 'f) wrapper \<Rightarrow> ('l, 'f) wrapper \<times> bool" where
  "submit_pending_request E w =
     (let L = world_lib E; fr = w_frontend w in
      if fr_state fr \<noteq> F_PENDING then (w, False)
      else if request_out_of_range (max_vba L (w_cbe w)) (fr_cbe_request fr)
      then (w\<lparr>w_frontend := fr\<lparr>fr_state := F_ERROR_EOF\<rparr>\<rparr>, True)
      else if client_request_acceptable L (w_cbe w)
      then (w\<lparr>w_cbe := submit_client_request L (w_cbe w) (fr_cbe_request fr) (fr_snap_id fr),
              w_frontend := fr\<lparr>fr_state := F_IN_PROGRESS\<rparr>\<rparr>, False)
      else (w, False))"

definition execute_library :: "('l, 'f) world \<Rightarrow> ('l, 'f) wrapper \<Rightarrow> ('l, 'f) wrapper" where
  "execute_library E w =
     (case lib_execute (world_lib E) (w_cbe w) (w_io_data w) (w_plain_data w) (w_cipher_data w) of
        (l, io, plain, cipher) \<Rightarrow>
          w\<lparr>w_cbe := l, w_io_data := io, w_plain_data := plain, w_cipher_data := cipher\<rparr>)"

definition result_of :: "bool \<Rightarrow> background_result" where
  "result_of success = (if success then R_SUCCESS else R_FAILED)"

text \<open>One pass of the loop over the completed requests; the state is the wrapper and \<open>progress\<close>.\<close>

definition complete_request ::
  "('l, 'f) world \<Rightarrow> ('l, 'f) wrapper \<times> bool \<Rightarrow> (('l, 'f) wrapper \<times> bool, exn) loop_step" where
  "complete_request E wp =
     (case wp of (w0, progress) \<Rightarrow>
      let r = peek_completed_client_request (world_lib E) (w_cbe w0) in
      if \<not> valid r then Break (w0, progress)
      else
        (let w = w0\<lparr>w_cbe := drop_completed_client_request (world_lib E) (w_cbe w0) r\<rparr> in
         if req_operation r = REKEY then
           Continue (w\<lparr>w_rekey_obj := (w_rekey_obj w)
                         \<lparr>rk_state := RS_IDLE, rk_last_result := result_of (req_success r)\<rparr>\<rparr>, True)
         else if req_operation r = EXTEND_VBD then
           Continue (w\<lparr>w_extend_obj := (w_extend_obj w)
                         \<lparr>ex_state := XS_IDLE, ex_last_result := result_of (req_success r)\<rparr>\<rparr>, True)
         else if req_operation r = EXTEND_FT then
           Continue (w\<lparr>w_extend_obj := (w_extend_obj w)
                         \<lparr>ex_state := XS_IDLE, ex_last_result := result_of (req_success r)\<rparr>\<rparr>, True)
         else if req_operation r = CREATE_SNAPSHOT then
           Continue (w\<lparr>w_create_snapshot := (w_create_snapshot w)\<lparr>fr_cbe_request := invalid_request\<rparr>\<rparr>, True)
         else if req_operation r = DISCARD_SNAPSHOT then
           Continue (w\<lparr>w_discard_snapshot := (w_discard_snapshot w)\<lparr>fr_cbe_request := invalid_request\<rparr>\<rparr>, True)
         else if \<not> req_success r then
           Break (w\<lparr>w_helper_read := (w_helper_read w)\<lparr>h_state := H_NONE\<rparr>,
                    w_helper_write := (w_helper_write w)\<lparr>h_state := H_NONE\<rparr>,
                    w_frontend := (w_frontend w)
                      \<lparr>fr_state := F_COMPLETE,
                       fr_cbe_request := set_success (fr_cbe_request (w_frontend w)) (req_success r)\<rparr>\<rparr>, True)
         else if h_state (w_helper_read w) = H_IN_PROGRESS then
           Continue (w\<lparr>w_helper_read := (w_helper_read w)
                         \<lparr>h_state := H_COMPLETE,
                          h_cbe_request := set_success (h_cbe_request (w_helper_read w)) (req_success r)\<rparr>\<rparr>, True)
         else if h_state (w_helper_write w) = H_IN_PROGRESS then
           Continue (w\<lparr>w_helper_write := (w_helper_write w)
                         \<lparr>h_state := H_COMPLETE,
                          h_cbe_request := set_success (h_cbe_request (w_helper_write w)) (req_success r)\<rparr>\<rparr>, True)
         else
           Continue (w\<lparr>w_frontend := (w_frontend w)
                         \<lparr>fr_state := F_COMPLETE,
                          fr_cbe_request := set_success (fr_cbe_request (w_frontend w)) (req_success r)\<rparr>\<rparr>, True)))"

definition complete_requests ::
  "('l, 'f) world \<Rightarrow> ('l, 'f) wrapper \<Rightarrow> bool \<Rightarrow> (('l, 'f) wrapper \<times> bool) run" where
  "complete_requests E w progress = run_loop (complete_request E) (w, progress)"

definition splice :: "block_data \<Rightarrow> u64 \<Rightarrow> bytes \<Rightarrow> block_data" where
  "splice block helper_offset bs = overwrite block (unat helper_offset) bs"

definition finish_helper_read ::
  "('l, 'f) wrapper \<Rightarrow> bool \<Rightarrow> ('l, 'f) wrapper \<times> bool" where
  "finish_helper_read w progress =
     (let fr = w_frontend w; hr = w_helper_read w; hw = w_helper_write w in
      if h_state hr \<noteq> H_COMPLETE then (w, progress)
      else if req_operation (fr_cbe_request fr) = READ then
        (w\<lparr>w_memory := mem_write (w_memory w) (req_offset (fr_cbe_request fr))
                         (take (unat (fr_count fr)) (drop (unat (fr_helper_offset fr)) (h_block_data hr))),
           w_helper_read := hr\<lparr>h_state := H_NONE\<rparr>,
           w_frontend := fr\<lparr>fr_state := F_COMPLETE,
                            fr_cbe_request := set_success (fr_cbe_request fr)
                                                (req_success (h_cbe_request hr))\<rparr>\<rparr>, True)
      else if req_operation (fr_cbe_request fr) = WRITE then
        (w\<lparr>w_helper_write := hw
             \<lparr>h_block_data := splice (h_block_data hr) (fr_helper_offset fr)
                (mem_read (w_memory w) (req_offset (fr_cbe_request fr)) (unat (fr_count fr))),
              h_cbe_request := make_request WRITE False (req_block_number (h_cbe_request hr))
                (w_helper_write_addr w) (req_count (h_cbe_request hr)) (req_key_id (h_cbe_request hr))
                (req_tag (h_cbe_request hr)),
              h_state := H_PENDING\<rparr>,
           w_helper_read := hr\<lparr>h_state := H_NONE\<rparr>\<rparr>, True)
      else (w, True))"

definition finish_helper_write ::
  "('l, 'f) wrapper \<Rightarrow> bool \<Rightarrow> ('l, 'f) wrapper \<times> bool" where
  "finish_helper_write w progress =
     (if h_state (w_helper_write w) = H_COMPLETE
      then (w\<lparr>w_helper_write := (w_helper_write w)\<lparr>h_state := H_NONE\<rparr>,
              w_frontend := (w_frontend w)\<lparr>fr_state := F_COMPLETE\<rparr>\<rparr>, True)
      else (w, progress))"

text \<open>
  The last Boolean of the result says that the handler returns. The constant \<open>- 1\<close> is the
  invalid index.
\<close>

definition deliver_read_data ::
  "('l, 'f) world \<Rightarrow> ('l, 'f) wrapper \<Rightarrow> bool \<Rightarrow> exn + (('l, 'f) wrapper \<times> bool \<times> bool)" where
  "deliver_read_data E w0 progress =
     (let L = world_lib E in
      case client_data_ready L (w_cbe w0) of (r, l) \<Rightarrow>
      let w = w0\<lparr>w_cbe := l\<rparr> in
      if \<not> (valid r \<and> req_operation r = READ) then Inr (w, progress, False)
      else
        (let prim_index = client_data_index L (w_cbe w) r in
         if prim_index = - 1
         then Inr (w\<lparr>w_frontend := (w_frontend w)\<lparr>fr_state := F_ERROR\<rparr>\<rparr>, progress, True)
         else if h_state (w_helper_read w) \<noteq> H_IN_PROGRESS \<and> fr_state (w_frontend w) \<noteq> F_IN_PROGRESS
         then Inl (Thrown_int (- 1))
         else
           (let data = (if h_state (w_helper_read w) = H_IN_PROGRESS then w_helper_read_addr w
                        else req_offset r + prim_index * BLOCK_SIZE) in
            if data = 0 then Inl Data_nullptr
            else
              (case obtain_client_data L (w_cbe w) r (- 1) of ((data_index_valid, data_index), l2) \<Rightarrow>
               let w2 = w\<lparr>w_cbe := l2\<rparr> in
               if data_index_valid then
                 bind_exn (item (w_plain_data w2) data_index) (\<lambda>block.
                   Inr (if h_state (w_helper_read w2) = H_IN_PROGRESS
                        then w2\<lparr>w_helper_read := (w_helper_read w2)\<lparr>h_block_data := block\<rparr>\<rparr>
                        else w2\<lparr>w_memory := mem_write (w_memory w2) data block\<rparr>, True, False))
               else Inr (w2, progress, False)))))"

definition take_write_data ::
  "('l, 'f) world \<Rightarrow> ('l, 'f) wrapper \<Rightarrow> bool \<Rightarrow> exn + (('l, 'f) wrapper \<times> bool)" where
  "take_write_data E w0 progress =
     (let L = world_lib E in
      case client_data_required L (w_cbe w0) of (r, l) \<Rightarrow>
      let w = w0\<lparr>w_cbe := l\<rparr> in
      if \<not> (valid r \<and> req_operation r = WRITE) then Inr (w, progress)
      else
        (let prim_index = client_data_index L (w_cbe w) r in
         if prim_index = - 1
         then Inr (w\<lparr>w_frontend := (w_frontend w)\<lparr>fr_state := F_ERROR\<rparr>\<rparr>, progress)
         else if h_state (w_helper_write w) \<noteq> H_IN_PROGRESS \<and> fr_state (w_frontend w) \<noteq> F_IN_PROGRESS
         then Inl (Thrown_int (- 1))
         else
           (let data = (if h_state (w_helper_write w) = H_IN_PROGRESS then w_helper_write_addr w
                        else req_offset r + prim_index * BLOCK_SIZE) in
            if data = 0 then Inl Data_nullptr
            else
              (case supply_client_data L (w_cbe w) r
                      (if h_state (w_helper_write w) = H_IN_PROGRESS
                       then h_block_data (w_helper_write w)
                       else mem_read (w_memory w) data (unat BLOCK_SIZE)) of
                 (supplied, l2) \<Rightarrow> Inr (w\<lparr>w_cbe := l2\<rparr>, True)))))"

definition handle_cbe_frontend ::
  "('l, 'f) world \<Rightarrow> ('l, 'f) wrapper \<Rightarrow> (('l, 'f) wrapper \<times> bool) run" where
  "handle_cbe_frontend E w =
     (case submit_pending_request E (submit_helper_requests E w) of (w1, rejected) \<Rightarrow>
      if rejected then Some (Inr (w1, False))
      else
        (let w2 = execute_library E w1 in
         bind_run (complete_requests E w2 (execute_progress (world_lib E) (w_cbe w2)))
           (\<lambda>(w3, p3).
              case finish_helper_read w3 p3 of (w4, p4) \<Rightarrow>
              case finish_helper_write w4 p4 of (w5, p5) \<Rightarrow>
              bind_run (Some (deliver_read_data E w5 p5)) (\<lambda>(w6, p6, returns).
                if returns then Some (Inr (w6, p6)) else Some (take_write_data E w6 p6)))))"

section \<open>The crypto handler\<close>

definition add_key_pass ::
  "('l, 'f) world \<Rightarrow> ('l, 'f) wrapper \<times> bool \<Rightarrow> (('l, 'f) wrapper \<times> bool, exn) loop_step" where
  "add_key_pass E wp =
     (case wp of (w, progress) \<Rightarrow>
      let L = world_lib E in
      case crypto_add_key_required L (w_cbe w) \<lparr> key_value = replicate 32 0, key_ident = 0 \<rparr> of (r, k) \<Rightarrow>
      if \<not> valid r then Break (w, progress)
      else
        (let l1 = crypto_add_key_requested L (w_cbe w) r in
         case crypto_add_key (w_crypto w) (key_ident k) (take 32 (key_value k)) of
           Inl e \<Rightarrow> Throw e
         | Inr c \<Rightarrow>
             Continue (w\<lparr>w_crypto := c,
                         w_cbe := crypto_add_key_completed L l1 (set_success r True)\<rparr>, True)))"

definition remove_key_pass ::
  "('l, 'f) world \<Rightarrow> ('l, 'f) wrapper \<times> bool \<Rightarrow> (('l, 'f) wrapper \<times> bool, exn) loop_step" where
  "remove_key_pass E wp =
     (case wp of (w, progress) \<Rightarrow>
      let L = world_lib E in
      case crypto_remove_key_required L (w_cbe w) (world_indeterminate E) of (r, kid) \<Rightarrow>
      if \<not> valid r then Break (w, progress)
      else
        (let l1 = crypto_remove_key_requested L (w_cbe w) r in
         case crypto_remove_key (w_crypto w) kid of
           Inl e \<Rightarrow> Throw e
         | Inr c \<Rightarrow>
             Continue (w\<lparr>w_crypto := c,
                         w_cbe := crypto_remove_key_completed L l1 (set_success r True)\<rparr>, True)))"

definition encrypt_pass ::
  "('l, 'f) world \<Rightarrow> ('l, 'f) wrapper \<times> bool \<Rightarrow> (('l, 'f) wrapper \<times> bool, exn) loop_step" where
  "encrypt_pass E wp =
     (case wp of (w, progress) \<Rightarrow>
      let L = world_lib E in
      case crypto_cipher_data_required L (w_cbe w) 0 of (r, data_index) \<Rightarrow>
      if \<not> valid r \<or> \<not> Encryption_Request_Acceptable (w_crypto w) then Break (w, progress)
      else
        (case bind_exn (item (w_plain_data w) data_index)
                (\<lambda>b. submit_encryption_request (w_crypto w) (set_tag r data_index) b 0) of
           Inl e \<Rightarrow> Throw e
         | Inr (c, ok) \<Rightarrow>
             Continue (w\<lparr>w_crypto := c,
                         w_cbe := crypto_cipher_data_requested L (w_cbe w) data_index\<rparr>, True)))"

definition encrypted_pass ::
  "('l, 'f) world \<Rightarrow> ('l, 'f) wrapper \<times> bool \<Rightarrow> (('l, 'f) wrapper \<times> bool, exn) loop_step" where
  "encrypted_pass E wp =
     (case wp of (w, progress) \<Rightarrow>
      let r = peek_completed_encryption_request (w_crypto w); data_index = req_tag r in
      if \<not> valid r then Break (w, progress)
      else
        (case item (w_cipher_data w) data_index of
           Inl e \<Rightarrow> Throw e
         | Inr b \<Rightarrow>
             (case supply_cipher_data (w_crypto w) r of
                Inl e \<Rightarrow> Throw e
              | Inr (c, None) \<Rightarrow> Break (w\<lparr>w_crypto := c\<rparr>, progress)
              | Inr (c, Some out) \<Rightarrow>
                  (case set_item (w_cipher_data w) data_index out of
                     Inl e \<Rightarrow> Throw e
                   | Inr cipher \<Rightarrow>
                       Continue (w\<lparr>w_crypto := c, w_cipher_data := cipher,
                                   w_cbe := supply_crypto_cipher_data (world_lib E) (w_cbe w)
                                              data_index (req_success r)\<rparr>, True)))))"

definition decrypt_pass ::
  "('l, 'f) world \<Rightarrow> ('l, 'f) wrapper \<times> bool \<Rightarrow> (('l, 'f) wrapper \<times> bool, exn) loop_step" where
  "decrypt_pass E wp =
     (case wp of (w, progress) \<Rightarrow>
      let L = world_lib E in
      case crypto_plain_data_required L (w_cbe w) 0 of (r, data_index) \<Rightarrow>
      if \<not> valid r \<or> \<not> Decryption_Request_Acceptable (w_crypto w) then Break (w, progress)
      else
        (case bind_exn (item (w_cipher_data w) data_index)
                (\<lambda>b. submit_decryption_request (w_crypto w) (set_tag r data_index) b 0) of
           Inl e \<Rightarrow> Throw e
         | Inr (c, ok) \<Rightarrow>
             Continue (w\<lparr>w_crypto := c,
                         w_cbe := crypto_plain_data_requested L (w_cbe w) data_index\<rparr>, True)))"

definition decrypted_pass ::
  "('l, 'f) world \<Rightarrow> ('l, 'f) wrapper \<times> bool \<Rightarrow> (('l, 'f) wrapper \<times> bool, exn) loop_step" where
  "decrypted_pass E wp =
     (case wp of (w, progress) \<Rightarrow>
      let r = peek_completed_decryption_request (w_crypto w); data_index = req_tag r in
      if \<not> valid r then Break (w, progress)
      else
        (case item (w_plain_data w) data_index of
           Inl e \<Rightarrow> Throw e
         | Inr b \<Rightarrow>
             (case supply_plain_data (w_crypto w) r of
                Inl e \<Rightarrow> Throw e
              | Inr (c, None) \<Rightarrow> Break (w\<lparr>w_crypto := c\<rparr>, progress)
              | Inr (c, Some out) \<Rightarrow>
                  (case set_item (w_plain_data w) data_index out of
                     Inl e \<Rightarrow> Throw e
                   | Inr plain \<Rightarrow>
                       Continue (w\<lparr>w_crypto := c, w_plain_data := plain,
                                   w_cbe := supply_crypto_plain_data (world_lib E) (w_cbe w)
                                              data_index (req_success r)\<rparr>, True)))))"

definition handle_crypto ::
  "('l, 'f) world \<Rightarrow> ('l, 'f) wrapper \<Rightarrow> (('l, 'f) wrapper \<times> bool) run" where
  "handle_crypto E w =
     bind_run (Some (crypto_execute (world_aes E) (w_crypto w))) (\<lambda>(c, p0).
     bind_run (run_loop (add_key_pass E) (w\<lparr>w_crypto := c\<rparr>, p0)) (\<lambda>s1.
     bind_run (run_loop (remove_key_pass E) s1) (\<lambda>s2.
     bind_run (run_loop (encrypt_pass E) s2) (\<lambda>s3.
     bind_run (run_loop (encrypted_pass E) s3) (\<lambda>s4.
     bind_run (run_loop (decrypt_pass E) s4) (\<lambda>s5.
       run_loop (decrypted_pass E) s5))))))"

section \<open>The loop over the handlers\<close>

text \<open>
  \<open>_dump_state\<close> prints \<open>*_backend_job\<close>, and taking the reference of a \<open>Constructible\<close> that
  is not constructed throws.
\<close>

definition dump_state :: "('l, 'f) wrapper \<Rightarrow> exn + unit" where
  "dump_state w =
     (if w_debug w then
        (case w_backend_job w of None \<Rightarrow> Inl Deref_unconstructed_object | Some j \<Rightarrow> Inr ())
      else Inr ())"

definition handle_frontend_pass ::
  "('l, 'f) world \<Rightarrow> ('l, 'f) wrapper \<Rightarrow> (('l, 'f) wrapper \<times> bool) run" where
  "handle_frontend_pass E w =
     bind_run (handle_cbe_frontend E w) (\<lambda>(w1, frontend_progress).
     bind_run (Some (handle_cbe_backend E w1)) (\<lambda>(w2, backend_progress).
     bind_run (handle_crypto E w2) (\<lambda>(w3, crypto_progress).
       let progress = (frontend_progress \<or> backend_progress \<or> crypto_progress) in
       if progress then Some (Inr (w3, True))
       else bind_run (Some (dump_state w3)) (\<lambda>_. Some (Inr (w3, False))))))"

definition update_background_state :: "info \<Rightarrow> ('l, 'f) wrapper \<Rightarrow> ('l, 'f) wrapper" where
  "update_background_state i w =
     (let ex = w_extend_obj w;
          ex' = (if ex_state ex = XS_UNKNOWN \<and> info_valid i then
                   (if info_extending_ft i then ex\<lparr>ex_state := XS_IN_PROGRESS, ex_type := XT_FT\<rparr>
                    else if info_extending_vbd i then ex\<lparr>ex_state := XS_IN_PROGRESS, ex_type := XT_VBD\<rparr>
                    else ex\<lparr>ex_state := XS_IDLE\<rparr>)
                 else ex);
          rk = w_rekey_obj w;
          rk' = (if rk_state rk = RS_UNKNOWN \<and> info_valid i then
                   rk\<lparr>rk_state := (if info_rekeying i then RS_IN_PROGRESS else RS_IDLE)\<rparr>
                 else rk)
      in w\<lparr>w_extend_obj := ex', w_rekey_obj := rk'\<rparr>)"

text \<open>The code dereferences \<open>_cbe\<close>, which throws while it is not constructed.\<close>

definition handle_frontend_request :: "('l, 'f) world \<Rightarrow> ('l, 'f) wrapper \<Rightarrow> ('l, 'f) wrapper run" where
  "handle_frontend_request E w =
     (if \<not> w_cbe_constructed w then Some (Inl Deref_unconstructed_object)
      else
        bind_run (run_while (handle_frontend_pass E) w) (\<lambda>w1.
          Some (Inr (update_background_state (library_info (world_lib E) (w_cbe w1)) w1))))"

definition notify_backend_io_progress :: "('l, 'f) world \<Rightarrow> ('l, 'f) wrapper \<Rightarrow> ('l, 'f) wrapper run" where
  "notify_backend_io_progress E w =
     (case w_enqueued w of
        Some h \<Rightarrow> Some (Inr (io_progress_response h w))
      | None \<Rightarrow>
          bind_run (handle_frontend_request E w) (\<lambda>w1.
            Some (Inr (w1\<lparr>w_io_progress_pending := True\<rparr>))))"

section \<open>Background operations\<close>

definition wrapper_client_request_acceptable :: "('l, 'f) world \<Rightarrow> ('l, 'f) wrapper \<Rightarrow> exn + bool" where
  "wrapper_client_request_acceptable E w =
     (if \<not> w_cbe_constructed w then Inl Deref_unconstructed_object
      else Inr (client_request_acceptable (world_lib E) (w_cbe w)))"

text \<open>Hand a background request to the library, note its start, and kick it off.\<close>

definition start_rekeying :: "('l, 'f) world \<Rightarrow> ('l, 'f) wrapper \<Rightarrow> (('l, 'f) wrapper \<times> bool) run" where
  "start_rekeying E w =
     bind_run (Some (wrapper_client_request_acceptable E w)) (\<lambda>acceptable.
       if \<not> acceptable then Some (Inr (w, False))
       else
         (let req = make_request REKEY False 0 0 0 (rk_key_id (w_rekey_obj w)) 0;
              w1 = w\<lparr>w_cbe := submit_client_request (world_lib E) (w_cbe w) req 0,
                     w_rekey_obj := (w_rekey_obj w)
                       \<lparr>rk_state := RS_IN_PROGRESS, rk_last_result := R_FAILED\<rparr>\<rparr>
          in bind_run (handle_frontend_request E w1) (\<lambda>w2. Some (Inr (w2, True)))))"

definition start_extending ::
  "('l, 'f) world \<Rightarrow> extending_type \<Rightarrow> u64 \<Rightarrow> ('l, 'f) wrapper \<Rightarrow> (('l, 'f) wrapper \<times> bool) run" where
  "start_extending E type blocks w =
     bind_run (Some (wrapper_client_request_acceptable E w)) (\<lambda>acceptable.
       if \<not> acceptable then Some (Inr (w, False))
       else if type = XT_INVALID then Some (Inr (w, False))
       else
         (let op = (if type = XT_VBD then EXTEND_VBD else EXTEND_FT);
              req = make_request op False 0 0 blocks 0 0;
              w1 = w\<lparr>w_cbe := submit_client_request (world_lib E) (w_cbe w) req 0,
                     w_extend_obj := (w_extend_obj w)
                       \<lparr>ex_type := type, ex_state := XS_IN_PROGRESS, ex_last_result := R_NONE\<rparr>\<rparr>
          in bind_run (handle_frontend_request E w1) (\<lambda>w2. Some (Inr (w2, True)))))"

definition ensure_cbe :: "('l, 'f) world \<Rightarrow> ('l, 'f) wrapper \<Rightarrow> exn + ('l, 'f) wrapper" where
  "ensure_cbe E w = (if \<not> w_cbe_constructed w then initialize_cbe E w else Inr w)"

definition wrapper_active_snapshot_ids ::
  "('l, 'f) world \<Rightarrow> ('l, 'f) wrapper \<Rightarrow> (('l, 'f) wrapper \<times> u64 list) run" where
  "wrapper_active_snapshot_ids E w =
     bind_run (Some (ensure_cbe E w)) (\<lambda>w1.
       let ids = active_snapshot_ids (world_lib E) (w_cbe w1) in
       bind_run (handle_frontend_request E w1) (\<lambda>w2. Some (Inr (w2, ids))))"

definition create_snapshot :: "('l, 'f) world \<Rightarrow> ('l, 'f) wrapper \<Rightarrow> (('l, 'f) wrapper \<times> bool) run" where
  "create_snapshot E w =
     bind_run (Some (ensure_cbe E w)) (\<lambda>w1.
       if \<not> client_request_acceptable (world_lib E) (w_cbe w1) then Some (Inr (w1, False))
       else if valid (fr_cbe_request (w_create_snapshot w1)) then Some (Inr (w1, False))
       else
         (let req = make_request CREATE_SNAPSHOT False 0 0 1 0 0;
              w2 = w1\<lparr>w_create_snapshot := (w_create_snapshot w1)
                        \<lparr>fr_cbe_request := req, fr_state := F_IN_PROGRESS\<rparr>,
                      w_cbe := submit_client_request (world_lib E) (w_cbe w1) req 0\<rparr>
          in bind_run (handle_frontend_request E w2) (\<lambda>w3. Some (Inr (w3, True)))))"

text \<open>The code does not use the identifier it is given.\<close>

definition discard_snapshot ::
  "('l, 'f) world \<Rightarrow> u64 \<Rightarrow> ('l, 'f) wrapper \<Rightarrow> (('l, 'f) wrapper \<times> bool) run" where
  "discard_snapshot E ident w =
     bind_run (Some (ensure_cbe E w)) (\<lambda>w1.
       if \<not> client_request_acceptable (world_lib E) (w_cbe w1) then Some (Inr (w1, False))
       else if valid (fr_cbe_request (w_discard_snapshot w1)) then Some (Inr (w1, False))
       else
         (let req = make_request DISCARD_SNAPSHOT False 0 0 1 0 0;
              w2 = w1\<lparr>w_discard_snapshot := (w_discard_snapshot w1)
                        \<lparr>fr_cbe_request := req, fr_state := F_IN_PROGRESS\<rparr>,
                      w_cbe := submit_client_request (world_lib E) (w_cbe w1) req 0\<rparr>
          in bind_run (handle_frontend_request E w2) (\<lambda>w3. Some (Inr (w3, True)))))"

section \<open>The geometry of a submitted request\<close>

lemma unat_mod_BLOCK_SIZE: "unat (x mod BLOCK_SIZE) = unat x mod 4096"
  by (simp add: unat_mod)

lemma div_mod_BLOCK_SIZE: "(x div BLOCK_SIZE) * BLOCK_SIZE + x mod BLOCK_SIZE = x"
  by (simp add: word_mod_div_equality)

lemma mod_BLOCK_SIZE_less: "x mod BLOCK_SIZE < BLOCK_SIZE"
  by (simp add: word_less_nat_alt unat_mod)

definition helper_active :: "('l, 'f) wrapper \<Rightarrow> bool" where
  "helper_active w \<longleftrightarrow> h_state (w_helper_read w) \<noteq> H_NONE \<or> h_state (w_helper_write w) \<noteq> H_NONE"

text \<open>The bytes a helper request copies lie within one block.\<close>

definition helper_fits :: "('l, 'f) wrapper \<Rightarrow> bool" where
  "helper_fits w \<longleftrightarrow> unat (fr_helper_offset (w_frontend w)) + unat (fr_count (w_frontend w)) \<le> 4096"

lemma submit_unaligned:
  assumes "fr_state (w_frontend w) = F_NONE" "op \<noteq> SYNC" "unaligned_request seek count"
  shows "submit_frontend_request w seek data count op snap_id =
     (w\<lparr>w_helper_read := (w_helper_read w)
          \<lparr>h_cbe_request := make_request READ False (seek div BLOCK_SIZE) (w_helper_read_addr w) 1 0 0,
           h_state := H_PENDING\<rparr>,
        w_frontend := \<lparr> fr_state = F_IN_PROGRESS, fr_count = min count (BLOCK_SIZE - seek mod BLOCK_SIZE),
           fr_cbe_request = make_request op False (seek div BLOCK_SIZE) data
              (ucast (ucast (count div BLOCK_SIZE) :: u32)) 0 0,
           fr_snap_id = snap_id, fr_offset = seek, fr_helper_offset = seek mod BLOCK_SIZE \<rparr>\<rparr>, True)"
  using assms by (simp add: submit_frontend_request_def Let_def min_def)

lemma submit_aligned:
  assumes "fr_state (w_frontend w) = F_NONE" "op \<noteq> SYNC" "\<not> unaligned_request seek count"
  shows "submit_frontend_request w seek data count op snap_id =
     (w\<lparr>w_frontend := \<lparr> fr_state = F_PENDING, fr_count = count - count mod BLOCK_SIZE,
           fr_cbe_request = make_request op False (seek div BLOCK_SIZE) data
              (ucast (ucast ((count - count mod BLOCK_SIZE) div BLOCK_SIZE) :: u32)) 0 0,
           fr_snap_id = snap_id, fr_offset = seek,
           fr_helper_offset = fr_helper_offset (w_frontend w) \<rparr>\<rparr>, True)"
  using assms by (simp add: submit_frontend_request_def Let_def)

lemma min_fits:
  "unat (seek mod BLOCK_SIZE) + unat (min count (BLOCK_SIZE - seek mod BLOCK_SIZE)) \<le> 4096"
proof -
  have le: "seek mod BLOCK_SIZE \<le> BLOCK_SIZE" using mod_BLOCK_SIZE_less less_imp_le by blast
  have "unat (min count (BLOCK_SIZE - seek mod BLOCK_SIZE)) \<le> unat (BLOCK_SIZE - seek mod BLOCK_SIZE)"
    by (metis min.cobounded2 word_le_nat_alt)
  also have "\<dots> = 4096 - unat (seek mod BLOCK_SIZE)" using le by (simp add: unat_sub)
  finally show ?thesis using le by (simp add: word_le_nat_alt)
qed

lemma min_pos: "0 < count \<Longrightarrow> 0 < min count (BLOCK_SIZE - seek mod BLOCK_SIZE)"
  using mod_BLOCK_SIZE_less [of seek] by (auto simp: min_def word_gt_0)

lemma round_down:
  fixes count :: u64
  shows "(count - count mod BLOCK_SIZE) div BLOCK_SIZE = count div BLOCK_SIZE"
    "(count div BLOCK_SIZE) * BLOCK_SIZE = count - count mod BLOCK_SIZE"
    "count - count mod BLOCK_SIZE \<le> count"
proof -
  have le: "count mod BLOCK_SIZE \<le> count" by (simp add: word_le_nat_alt unat_mod)
  show eq: "(count div BLOCK_SIZE) * BLOCK_SIZE = count - count mod BLOCK_SIZE"
    using div_mod_BLOCK_SIZE [of count] by (metis add_diff_cancel_right')
  show "count - count mod BLOCK_SIZE \<le> count" using le by (rule word_sub_le)
  have "unat (count - count mod BLOCK_SIZE) = unat count - unat count mod 4096"
    using le by (simp only: unat_sub unat_mod_BLOCK_SIZE)
  then have "unat ((count - count mod BLOCK_SIZE) div BLOCK_SIZE) = unat (count div BLOCK_SIZE)"
    by (simp only: unat_div unat_BLOCK_SIZE) (simp add: minus_mod_eq_mult_div)
  then show "(count - count mod BLOCK_SIZE) div BLOCK_SIZE = count div BLOCK_SIZE"
    by (simp only: word_unat_eq_iff)
qed

text \<open>
  C12. A read or write accepted from the VFS covers a non-empty prefix of the range asked for:
  an access that is unaligned or shorter than a block becomes a read of exactly the block that
  holds its first byte, with offset and length inside that block; an aligned access becomes
  whole blocks whose byte range starts at the seek position and has the reported length, with no
  wrap-around below 2^44 bytes.
\<close>

theorem submit_frontend_request_geometry:
  assumes "fr_state (w_frontend w) = F_NONE" "op \<noteq> SYNC" "0 < count" "unat count < 2 ^ 44"
    and "submit_frontend_request w seek data count op snap_id = (w', accepted)"
  shows "accepted \<and> (let fr = w_frontend w'; r = fr_cbe_request fr; h = w_helper_read w' in
       0 < fr_count fr \<and> fr_count fr \<le> count \<and> req_operation r = op \<and> req_offset r = data
       \<and> (if seek mod BLOCK_SIZE \<noteq> 0 \<or> count < BLOCK_SIZE
          then fr_state fr = F_IN_PROGRESS \<and> helper_fits w'
             \<and> h_state h = H_PENDING \<and> req_operation (h_cbe_request h) = READ
             \<and> req_count (h_cbe_request h) = 1
             \<and> req_block_number (h_cbe_request h) * BLOCK_SIZE + fr_helper_offset fr = seek
          else fr_state fr = F_PENDING \<and> h = w_helper_read w
             \<and> req_block_number r * BLOCK_SIZE = seek \<and> req_count r * BLOCK_SIZE = fr_count fr))"
proof (cases "unaligned_request seek count")
    case True
    with assms(5) submit_unaligned [OF assms(1,2) True, of data snap_id] min_fits min_pos [OF assms(3)]
      div_mod_BLOCK_SIZE [of seek]
    show ?thesis
      by (auto simp: Let_def unaligned_request_def helper_fits_def)
  next
    case False
    have "unat (count div BLOCK_SIZE) < 2 ^ 32" using assms(4) by (simp add: unat_div)
    then have cast: "ucast (ucast (count div BLOCK_SIZE) :: u32) = count div BLOCK_SIZE"
      by (rule ucast_u32_u64)
    have al: "seek mod BLOCK_SIZE = 0" "\<not> count < BLOCK_SIZE"
      using False by (simp_all add: unaligned_request_def)
    have "count mod BLOCK_SIZE < count"
      using al mod_BLOCK_SIZE_less [of count] by simp
    then have "0 < count - count mod BLOCK_SIZE"
      by (simp add: word_gt_0)
    with assms(5) submit_aligned [OF assms(1,2) False, of data snap_id] al cast round_down [of count]
      div_mod_BLOCK_SIZE [of seek]
    show ?thesis by (auto simp: Let_def)
qed

section \<open>Examples\<close>

text \<open>
  An initialised wrapper between a library and a file, for the examples. The memory holds at
  each address its lowest byte.
\<close>

definition example_world :: "'l cbe_library \<Rightarrow> 'l \<Rightarrow> 'f vfs_file \<Rightarrow> 'f \<Rightarrow> ('l, 'f) world" where
  "example_world L l F f =
     \<lparr> world_lib = L, world_new_lib = l, world_file = F, world_open = (\<lambda>path. Some f),
       world_aes = sample_aes, world_indeterminate = 0 \<rparr>"

definition example_wrapper :: "'l \<Rightarrow> 'f \<Rightarrow> ('l, 'f) wrapper" where
  "example_wrapper l f =
     (wrapper_members f l 65536 131072 (\<lambda>a. ucast a))\<lparr>w_cbe_constructed := True\<rparr>"

lemma example_world_sel [simp]:
  "world_lib (example_world L l F f) = L"
  "world_file (example_world L l F f) = F"
  "world_aes (example_world L l F f) = sample_aes"
  by (simp_all add: example_world_def)

lemma example_wrapper_sel [simp]:
  "w_cbe_constructed (example_wrapper l f)"
  "w_cbe (example_wrapper l f) = l"
  "w_backend (example_wrapper l f) = f"
  "w_backend_job (example_wrapper l f) = None"
  "w_io_data (example_wrapper l f) = new_buffer"
  "w_cipher_data (example_wrapper l f) = new_buffer"
  "w_plain_data (example_wrapper l f) = new_buffer"
  "w_crypto (example_wrapper l f) = Initialized_Object"
  "w_frontend (example_wrapper l f) = frontend_init"
  "w_helper_read (example_wrapper l f) = helper_init"
  "w_helper_write (example_wrapper l f) = helper_init"
  by (simp_all add: example_wrapper_def wrapper_members_def)

lemma init_sel [simp]:
  "fr_state frontend_init = F_NONE" "h_state helper_init = H_NONE"
  "h_block_data helper_init = zero_block"
  by (simp_all add: frontend_init_def helper_init_def)

theorem submit_frontend_request_geometry_witness:
  "\<exists>w'. submit_frontend_request (example_wrapper () ()) 5000 77 100 READ 0 = (w', True)
     \<and> helper_fits w' \<and> req_count (h_cbe_request (w_helper_read w')) = 1
     \<and> req_block_number (h_cbe_request (w_helper_read w')) * BLOCK_SIZE + fr_helper_offset (w_frontend w') = 5000"
proof -
  obtain w' accepted where w': "submit_frontend_request (example_wrapper () ()) 5000 77 100 READ 0 = (w', accepted)"
    by (cases "submit_frontend_request (example_wrapper () ()) 5000 77 100 READ 0")
  from submit_frontend_request_geometry [OF _ _ _ _ w'] w' show ?thesis
    by (simp add: Let_def BLOCK_SIZE_def)
qed

end
