(* ===== verification/Wrapper_Data.thy ===== *)
theory Wrapper_Data
  imports Vfs_Wrapper
begin

text \<open>
  What the handlers of \<open>Vfs_Wrapper\<close> do to the data: the range check, the copy of an unaligned
  read, the read-modify-write of an unaligned write, the way of a block through the crypto unit,
  the transfer of a block from the device, and the completion of background operations.
\<close>

section \<open>Range check\<close>

lemma request_out_of_range_iff:
  assumes "last_vba \<noteq> - 1"
  shows "request_out_of_range last_vba r \<longleftrightarrow>
     unat (req_block_number r) > unat last_vba
     \<or> unat (req_block_number r) + unat (req_count r) > unat last_vba + 1"
proof -
  have max: "unat last_vba + 1 < 2 ^ 64"
  proof -
    have "unat last_vba \<noteq> unat (- 1 :: u64)" using assms by (metis word_unat_eq_iff)
    moreover have "unat last_vba < 2 ^ 64" by (rule unat_u64_less)
    moreover have "unat (- 1 :: u64) = 2 ^ 64 - 1" by (simp add: unsigned_minus_1_eq_mask mask_eq_exp_minus_1)
    ultimately show ?thesis by simp
  qed
  then have "unat (last_vba + 1) = unat last_vba + 1"
    using unat_u64_plus [of last_vba 1] by simp
  moreover have "unat (req_block_number r) < 2 ^ 64" "unat (req_count r) < 2 ^ 64"
    by (rule unat_u64_less)+
  ultimately show ?thesis
    using max unat_u64_plus [of "req_block_number r" "req_count r"]
    by (auto simp: request_out_of_range_def word_less_nat_alt word_le_nat_alt)
qed

text \<open>
  C25. A pending front-end request is rejected with ERROR_EOF exactly when its first block or
  its last block lies behind the last virtual block address, over the natural numbers, although
  the code tests it with wrapping 64-bit sums; otherwise it is submitted to the library if the
  library accepts requests, and left pending if not. A request that is submitted is in the range
  of the SPARK type if the last address is below 2^30. The last address is not the largest
  64-bit number.
\<close>

theorem submit_pending_request_range:
  assumes "fr_state (w_frontend w) = F_PENDING" "max_vba (world_lib E) (w_cbe w) \<noteq> - 1"
    and "submit_pending_request E w = (w', rejected)"
  shows "let r = fr_cbe_request (w_frontend w); last = unat (max_vba (world_lib E) (w_cbe w)) in
     (rejected \<longleftrightarrow> unat (req_block_number r) > last \<or> unat (req_block_number r) + unat (req_count r) > last + 1)
     \<and> (if rejected
        then w' = w\<lparr>w_frontend := (w_frontend w)\<lparr>fr_state := F_ERROR_EOF\<rparr>\<rparr>
        else if client_request_acceptable (world_lib E) (w_cbe w)
        then w_cbe w' = submit_client_request (world_lib E) (w_cbe w) r (fr_snap_id (w_frontend w))
           \<and> fr_state (w_frontend w') = F_IN_PROGRESS
           \<and> (last < 2 ^ 30 \<longrightarrow> (\<exists>s. spark_of_request r = Inr s))
        else w' = w)"
proof -
  have "\<exists>s. spark_of_request (fr_cbe_request (w_frontend w)) = Inr s"
    if "unat (req_count (fr_cbe_request (w_frontend w))) \<le> 2 ^ 30"
    using that by (simp add: spark_of_request_eq count_in_range_def Tree_Max_Number_Of_Leafs_eq word_le_nat_alt)
  then show ?thesis
    using assms(1,3) request_out_of_range_iff [OF assms(2), of "fr_cbe_request (w_frontend w)"]
    by (auto simp: submit_pending_request_def Let_def split: if_splits)
qed

section \<open>Unaligned access\<close>

definition one_helper_block :: "('l, 'f) wrapper \<Rightarrow> bool" where
  "one_helper_block w \<longleftrightarrow> wf_block (h_block_data (w_helper_read w)) \<and> helper_fits w"

lemma length_helper_bytes:
  "one_helper_block w \<Longrightarrow>
   length (take (unat (fr_count (w_frontend w)))
      (drop (unat (fr_helper_offset (w_frontend w))) (h_block_data (w_helper_read w))))
    = unat (fr_count (w_frontend w))"
  by (auto simp: one_helper_block_def wf_block_def helper_fits_def min_def)

text \<open>
  When the block of an unaligned read has been read, exactly the requested bytes of it are
  stored at the client's address, no other byte of client memory changes, and the front-end
  request is complete.
\<close>

theorem unaligned_read_copies:
  assumes "one_helper_block w" "h_state (w_helper_read w) = H_COMPLETE"
    and "req_operation (fr_cbe_request (w_frontend w)) = READ"
    and "finish_helper_read w progress = (w', progress')"
  shows "let dst = req_offset (fr_cbe_request (w_frontend w)); n = unat (fr_count (w_frontend w)) in
     progress' \<and> fr_state (w_frontend w') = F_COMPLETE \<and> h_state (w_helper_read w') = H_NONE
     \<and> mem_read (w_memory w') dst n
         = take n (drop (unat (fr_helper_offset (w_frontend w))) (h_block_data (w_helper_read w)))
     \<and> (unat (x - dst) < n \<or> w_memory w' x = w_memory w x)"
proof -
  let ?fr = "w_frontend w"
  let ?bs = "take (unat (fr_count ?fr)) (drop (unat (fr_helper_offset ?fr)) (h_block_data (w_helper_read w)))"
  have len: "length ?bs = unat (fr_count ?fr)" using length_helper_bytes [OF assms(1)] .
  have "length ?bs \<le> 2 ^ 64" unfolding len using unat_u64_less less_imp_le by blast
  from mem_read_write [OF this, of "w_memory w" "req_offset (fr_cbe_request ?fr)"] len
  have "mem_read (mem_write (w_memory w) (req_offset (fr_cbe_request ?fr)) ?bs)
          (req_offset (fr_cbe_request ?fr)) (unat (fr_count ?fr)) = ?bs" by metis
  moreover have "unat (x - req_offset (fr_cbe_request ?fr)) < unat (fr_count ?fr)
      \<or> mem_write (w_memory w) (req_offset (fr_cbe_request ?fr)) ?bs x = w_memory w x"
    using len by (simp add: mem_write_def)
  ultimately show ?thesis
    using assms(2-) by (auto simp: finish_helper_read_def Let_def)
qed

text \<open>
  When the block of an unaligned write has been read, the block written back is 4096 bytes
  long, holds the client's bytes exactly at the helper offset and the old bytes everywhere else,
  goes to the same block number, and the client memory and the front-end state are untouched.
\<close>

theorem unaligned_write_merges:
  assumes "one_helper_block w" "h_state (w_helper_read w) = H_COMPLETE"
    and "req_operation (fr_cbe_request (w_frontend w)) = WRITE"
    and "finish_helper_read w progress = (w', progress')" "i < 4096"
  shows "let fr = w_frontend w; old = h_block_data (w_helper_read w); new = h_block_data (w_helper_write w');
         off = unat (fr_helper_offset fr) in
     progress' \<and> wf_block new
     \<and> new ! i = (if off \<le> i \<and> i < off + unat (fr_count fr)
                  then w_memory w (req_offset (fr_cbe_request fr) + of_nat (i - off)) else old ! i)
     \<and> h_state (w_helper_write w') = H_PENDING \<and> h_state (w_helper_read w') = H_NONE
     \<and> req_operation (h_cbe_request (w_helper_write w')) = WRITE
     \<and> req_block_number (h_cbe_request (w_helper_write w')) = req_block_number (h_cbe_request (w_helper_read w))
     \<and> w_memory w' = w_memory w \<and> fr_state (w_frontend w') = fr_state fr"
proof -
  let ?fr = "w_frontend w"
  let ?old = "h_block_data (w_helper_read w)"
  let ?bs = "mem_read (w_memory w) (req_offset (fr_cbe_request ?fr)) (unat (fr_count ?fr))"
  have fit: "unat (fr_helper_offset ?fr) + length ?bs \<le> length ?old"
    using assms(1) by (simp add: one_helper_block_def wf_block_def helper_fits_def)
  have len: "length ?old = 4096" using assms(1) by (simp add: one_helper_block_def wf_block_def)
  have "wf_block (splice ?old (fr_helper_offset ?fr) ?bs)"
    using length_overwrite [OF fit] len by (simp add: splice_def wf_block_def)
  moreover have "splice ?old (fr_helper_offset ?fr) ?bs ! i
      = (if unat (fr_helper_offset ?fr) \<le> i \<and> i < unat (fr_helper_offset ?fr) + unat (fr_count ?fr)
         then w_memory w (req_offset (fr_cbe_request ?fr) + of_nat (i - unat (fr_helper_offset ?fr)))
         else ?old ! i)"
    using nth_overwrite [OF fit] assms(5) len by (simp add: splice_def mem_read_def less_diff_conv2)
  ultimately show ?thesis
    using assms(2-4) by (auto simp: finish_helper_read_def Let_def)
qed

section \<open>Completed requests\<close>

definition background_op :: "operation \<Rightarrow> bool" where
  "background_op op \<longleftrightarrow>
     op = REKEY \<or> op = EXTEND_VBD \<or> op = EXTEND_FT \<or> op = CREATE_SNAPSHOT \<or> op = DISCARD_SNAPSHOT"

text \<open>
  C26. The completion of a background operation is dropped from the library and leaves the
  front-end request, the helper requests and client memory alone. Rekeying and extending become
  idle, with the result of the operation; creating and discarding a snapshot only clear the
  request that marks them as pending, and record no result. Each completion changes the record
  of its own operation and of no other.
\<close>

theorem background_completion_keeps_frontend:
  assumes "peek_completed_client_request (world_lib E) (w_cbe w) = r" "background_op (req_operation r)"
  shows "\<exists>w'. complete_request E (w, progress) = Continue (w', True)
     \<and> w_cbe w' = drop_completed_client_request (world_lib E) (w_cbe w) r
     \<and> w_frontend w' = w_frontend w \<and> w_helper_read w' = w_helper_read w
     \<and> w_helper_write w' = w_helper_write w \<and> w_memory w' = w_memory w
     \<and> w_rekey_obj w' = (if req_operation r = REKEY
          then (w_rekey_obj w)\<lparr>rk_state := RS_IDLE, rk_last_result := result_of (req_success r)\<rparr>
          else w_rekey_obj w)
     \<and> w_extend_obj w' = (if req_operation r = EXTEND_VBD \<or> req_operation r = EXTEND_FT
          then (w_extend_obj w)\<lparr>ex_state := XS_IDLE, ex_last_result := result_of (req_success r)\<rparr>
          else w_extend_obj w)
     \<and> w_create_snapshot w' = (if req_operation r = CREATE_SNAPSHOT
          then (w_create_snapshot w)\<lparr>fr_cbe_request := invalid_request\<rparr> else w_create_snapshot w)
     \<and> w_discard_snapshot w' = (if req_operation r = DISCARD_SNAPSHOT
          then (w_discard_snapshot w)\<lparr>fr_cbe_request := invalid_request\<rparr> else w_discard_snapshot w)"
  using assms by (auto simp: complete_request_def Let_def background_op_def valid_def invalid_request_def)

text \<open>
  C27. A failed read, write or sync ends the front-end request: it is complete and not
  successful, both helper requests are dropped, client memory is unchanged, and the loop over
  the completed requests stops.
\<close>

theorem failed_request_ends_frontend:
  assumes "peek_completed_client_request (world_lib E) (w_cbe w) = r"
    and "req_operation r = READ \<or> req_operation r = WRITE \<or> req_operation r = SYNC" "\<not> req_success r"
  shows "\<exists>w'. complete_request E (w, progress) = Break (w', True)
     \<and> w_cbe w' = drop_completed_client_request (world_lib E) (w_cbe w) r
     \<and> \<not> helper_active w' \<and> fr_state (w_frontend w') = F_COMPLETE
     \<and> \<not> req_success (fr_cbe_request (w_frontend w')) \<and> w_memory w' = w_memory w"
  using assms by (auto simp: complete_request_def Let_def valid_def helper_active_def)

section \<open>Debug output\<close>

theorem debug_output_throws:
  assumes "handle_cbe_frontend E w = Some (Inr (w1, False))"
    and "handle_cbe_backend E w1 = Inr (w2, False)" "handle_crypto E w2 = Some (Inr (w3, False))"
    and "w_debug w3" "w_backend_job w3 = None" "w_cbe_constructed w"
  shows "handle_frontend_request E w = Some (Inl Deref_unconstructed_object)"
proof -
  have "handle_frontend_pass E w = Some (Inl Deref_unconstructed_object)"
    using assms by (simp add: handle_frontend_pass_def dump_state_def Let_def)
  with assms(6) show ?thesis by (simp add: handle_frontend_request_def run_while_throw)
qed

section \<open>A block from the device\<close>

text \<open>The passes of the back end until its job is gone.\<close>

fun backend_passes ::
  "nat \<Rightarrow> ('l, 'f) world \<Rightarrow> ('l, 'f) wrapper \<Rightarrow> exn + ('l, 'f) wrapper" where
  "backend_passes 0 E w = Inr w"
| "backend_passes (Suc k) E w =
     bind_exn (handle_cbe_backend E w) (\<lambda>(w', progress).
       if w_backend_job w' = None then Inr w' else backend_passes k E w')"

definition env_of :: "io_job \<Rightarrow> ('l, 'f) wrapper \<Rightarrow> ('f, 'l) io_env" where
  "env_of j w =
     \<lparr> env_job = j, env_file = w_backend w, env_lib = w_cbe w, env_io_data = w_io_data w \<rparr>"

lemma env_of_sel [simp]:
  "env_job (env_of j w) = j" "env_file (env_of j w) = w_backend w"
  "env_lib (env_of j w) = w_cbe w" "env_io_data (env_of j w) = w_io_data w"
  by (simp_all add: env_of_def)

lemma backend_passes_execute_until:
  assumes "w_backend_job w = Some j" "\<not> job_complete j"
    and "execute_until k (world_file E) (world_lib E) (env_of j w) = Inr e'" "job_complete (env_job e')"
  shows "backend_passes k E w =
     Inr (w\<lparr>w_backend := env_file e', w_cbe := env_lib e', w_io_data := env_io_data e', w_backend_job := None\<rparr>)"
  using assms
proof (induction k arbitrary: w j)
  case 0
  then show ?case by auto
next
  case (Suc k)
  obtain e1 q where e1: "job_execute (world_file E) (world_lib E) (env_of j w) = Inr (e1, q)"
    and rest: "execute_until k (world_file E) (world_lib E) e1 = Inr e'"
    using Suc.prems(2,3) by (auto simp: job_completed_def elim!: bind_exn_InrE)
  let ?w1 = "w\<lparr>w_backend := env_file e1, w_cbe := env_lib e1, w_io_data := env_io_data e1,
               w_backend_job := (if job_completed (env_job e1) then None else Some (env_job e1))\<rparr>"
  have one: "handle_cbe_backend E w = Inr (?w1, q)"
    using Suc.prems(1) e1
    by (simp add: handle_cbe_backend_def execute_backend_job_def env_of_def split: prod.split)
  show ?case
  proof (cases "job_complete (env_job e1)")
    case True
    with rest have "e' = e1" by (cases k) (simp_all add: job_completed_def)
    with True one show ?thesis by (simp add: job_completed_def)
  next
    case False
    then have w1: "w_backend_job ?w1 = Some (env_job e1)" by (simp add: job_completed_def)
    have "env_of (env_job e1) ?w1 = e1" by (simp add: env_of_def)
    then have "execute_until k (world_file E) (world_lib E) (env_of (env_job e1) ?w1) = Inr e'"
      using rest by (simp only:)
    from Suc.IH [OF w1 False this Suc.prems(4)] one False show ?thesis
      by (simp add: job_completed_def)
  qed
qed

lemma unat_block_offset:
  "unat (b :: u64) * 4096 < 2 ^ 64 \<Longrightarrow> unat (b * BLOCK_SIZE) = unat b * 4096"
  using unat_mult_lem [of b BLOCK_SIZE] by simp

text \<open>
  C13. With a device file that delivers its contents in arbitrary pieces, the back end's passes
  for a read request of the library terminate, free the job, and leave in the I/O buffer exactly
  the 4096 bytes of the requested block of the device.
\<close>

theorem backend_reads_block:
  assumes "w_backend_job w = None" "has_io_request (world_lib E) (w_cbe w) 0 = (r, 0)"
    and "req_operation r = READ" "req_count r = 1" "wf_buffer (w_io_data w)"
    and "file_holds (world_file E) pos contents" "file_delivers (world_file E) pos contents"
    and "unat (req_block_number r) * 4096 + 4096 \<le> length contents" "length contents < 2 ^ 64"
  shows "\<exists>w'. backend_passes 4096 E w = Inr w' \<and> w_backend_job w' = None
     \<and> w_io_data w' = [take 4096 (drop (unat (req_block_number r) * 4096) contents)]"
proof -
  let ?base = "req_block_number r * BLOCK_SIZE"
  have base: "unat ?base = unat (req_block_number r) * 4096"
    using assms(8,9) by (intro unat_block_offset) simp
  obtain j where j: "new_io_job READ 0 ?base BLOCK_SIZE = Inr j" by (simp add: new_io_job_def)
  then have fresh: "fresh_env (env_of j w) READ ?base BLOCK_SIZE" and open_job: "\<not> job_complete j"
    using assms(5) by (auto simp: fresh_env_def new_io_job_def)
  obtain e' where e': "execute_until 4096 (world_file E) (world_lib E) (env_of j w) = Inr e'"
      "job_completed (env_job e')"
      "take 4096 (env_io_data e' ! 0) = take 4096 (drop (unat ?base) contents)"
    and wf: "wf_buffer (env_io_data e')"
  proof -
    note start = fresh_env_read_inv [OF fresh, of pos contents]
    obtain e' where e': "execute_until 4096 (world_file E) (world_lib E) (env_of j w) = Inr e'"
        "job_complete (env_job e')" "job_current_count (env_job e') = 0"
        "read_inv pos ?base (unat BLOCK_SIZE) contents (env_job e') (env_file e') (env_io_data e')"
      using read_runs_to_completion [OF assms(7,6), where n = "unat BLOCK_SIZE" and base = ?base
          and e = "env_of j w" and k = 4096 and L = "world_lib E"] start base assms(8,9)
      by (auto simp: word_gt_0 BLOCK_SIZE_def)
    then show ?thesis using that by (auto simp: job_completed_def read_inv_def window_inv_def)
  qed
  from wf have io: "env_io_data e' = [env_io_data e' ! 0]" "length (env_io_data e' ! 0) = 4096"
    by (auto simp: wf_buffer_def wf_block_def length_Suc_conv)
  have "handle_cbe_backend E w = handle_cbe_backend E (w\<lparr>w_backend_job := Some j\<rparr>)"
    using assms(1-4) j
    by (auto simp: handle_cbe_backend_def execute_backend_job_def valid_def split: prod.splits)
  then have "backend_passes 4096 E w = backend_passes (Suc 4095) E (w\<lparr>w_backend_job := Some j\<rparr>)"
    by (simp add: eval_nat_numeral)
  also have "\<dots> = Inr (w\<lparr>w_backend := env_file e', w_cbe := env_lib e', w_io_data := env_io_data e',
      w_backend_job := None\<rparr>)"
    using backend_passes_execute_until [of "w\<lparr>w_backend_job := Some j\<rparr>" j 4096 E e'] open_job e'
    by (simp add: env_of_def job_completed_def)
  finally show ?thesis using io e' base by simp
qed

section \<open>A block through the crypto unit\<close>

theorem encrypted_blocks_handed_out:
  assumes "crypto_inv (w_crypto w)"
  shows "\<exists>res. run_loop (encrypted_pass E) (w, progress) = Some res"
  using assms
  by (intro encryption.drain_total [where unit = "\<lambda>(w, p). w_crypto w"])
    (auto simp: encrypted_pass_def Let_def split: sum.splits option.splits prod.splits if_splits)

text \<open>
  C16. The wrapper's crypto loops realise encryption of one block: the request the library asks
  for is submitted with its plain block, the library is told, and after execution the cipher
  buffer holds the block cipher's output for that block under the request's key and the library
  is told that the data is there.
\<close>

theorem encryption_pipeline:
  assumes "crypto_inv (w_crypto w)" "encryption_view (w_crypto w) = []"
    "Encryption_Request_Acceptable (w_crypto w)" "crypto_fresh (w_crypto w) (set_tag r 0)"
    and "crypto_cipher_data_required (world_lib E) (w_cbe w) 0 = (r, 0)"
    and "w_plain_data w = [plain]" "wf_buffer (w_cipher_data w)"
  shows "\<exists>w1 c p w2. encrypt_pass E (w, progress) = Continue (w1, True)
     \<and> w_cbe w1 = crypto_cipher_data_requested (world_lib E) (w_cbe w) 0
     \<and> crypto_execute (world_aes E) (w_crypto w1) = Inr (c, p)
     \<and> encrypted_pass E (w1\<lparr>w_crypto := c\<rparr>, progress') = Continue (w2, True)
     \<and> w_cipher_data w2 =
         [aes_encrypt (world_aes E) (key_data (w_crypto w) (req_key_id r)) (req_block_number r) plain]
     \<and> w_cbe w2 = supply_crypto_cipher_data (world_lib E) (w_cbe w1) 0 True
     \<and> encryption_view (w_crypto w2) = []"
proof -
  have valid: "valid r" using assms(4) by (simp add: crypto_fresh_def)
  obtain c1 c2 p c3 where c: "submit_encryption_request (w_crypto w) (set_tag r 0) plain 0 = Inr (c1, True)"
      "crypto_execute (world_aes E) c1 = Inr (c2, p)"
      "peek_completed_encryption_request c2 = set_success (set_tag r 0) True"
      "supply_cipher_data c2 (peek_completed_encryption_request c2)
         = Inr (c3, Some (encryption_result (world_aes E) (w_crypto w) (set_tag r 0) plain))"
      "encryption_view c3 = []"
    using encryption.one_request [OF assms(1-4), of plain 0 "world_aes E"] by blast
  obtain b where b: "w_cipher_data w = [b]"
    using assms(7) by (auto simp: wf_buffer_def length_Suc_conv)
  have "encryption_result (world_aes E) (w_crypto w) (set_tag r 0) plain
      = aes_encrypt (world_aes E) (key_data (w_crypto w) (req_key_id r)) (req_block_number r) plain"
    by (simp add: encryption_result_def set_tag_def)
  then show ?thesis
    using c assms(5,6) valid assms(3) b
    by (simp add: encrypt_pass_def encrypted_pass_def Let_def item_def set_item_def)
qed

section \<open>Examples\<close>

text \<open>A wrapper whose front-end request waits for the data of the helper read.\<close>

definition helper_example :: "operation \<Rightarrow> (nat, unit) wrapper" where
  "helper_example op =
     (example_wrapper 0 ())
       \<lparr>w_helper_read := helper_init\<lparr>h_state := H_COMPLETE,
          h_block_data := [10, 11, 12, 13] @ replicate 4092 0\<rparr>,
        w_frontend := frontend_init\<lparr>fr_state := F_IN_PROGRESS, fr_count := 2, fr_helper_offset := 1,
          fr_cbe_request := make_request op False 0 100 0 0 0\<rparr>\<rparr>"

lemma helper_example_block: "one_helper_block (helper_example op)"
  by (simp add: one_helper_block_def helper_example_def wf_block_def helper_fits_def)

theorem submit_pending_request_range_witness:
  "\<exists>w'. submit_pending_request
      (example_world (null_library\<lparr>max_vba := (\<lambda>l. 4), submit_client_request := (\<lambda>l r i. l + req_count r)\<rparr>)
         0 empty_reader ())
      ((example_wrapper 0 ())\<lparr>w_frontend := frontend_init\<lparr>fr_state := F_PENDING,
         fr_cbe_request := make_request READ False 3 0 2 0 0\<rparr>\<rparr>) = (w', False)
     \<and> w_cbe w' = 2 \<and> fr_state (w_frontend w') = F_IN_PROGRESS"
proof -
  let ?E = "example_world (null_library\<lparr>max_vba := (\<lambda>l. 4), submit_client_request := (\<lambda>l r i. l + req_count r)\<rparr>)
         0 empty_reader ()"
  let ?w = "(example_wrapper 0 ())\<lparr>w_frontend := frontend_init\<lparr>fr_state := F_PENDING,
         fr_cbe_request := make_request READ False 3 0 2 0 0\<rparr>\<rparr>"
  obtain w' rejected where w': "submit_pending_request ?E ?w = (w', rejected)"
    by (cases "submit_pending_request ?E ?w")
  from submit_pending_request_range [OF _ _ w'] w' show ?thesis
    by (auto simp: Let_def null_library_def split: if_splits)
qed

theorem unaligned_read_copies_witness:
  "\<exists>w'. finish_helper_read (helper_example READ) False = (w', True)
     \<and> fr_state (w_frontend w') = F_COMPLETE \<and> mem_read (w_memory w') 100 2 = [11, 12]"
proof -
  obtain w' progress where w': "finish_helper_read (helper_example READ) False = (w', progress)"
    by (cases "finish_helper_read (helper_example READ) False")
  from unaligned_read_copies [OF helper_example_block _ _ w'] w' show ?thesis
    by (simp add: Let_def helper_example_def)
qed

theorem unaligned_write_merges_witness:
  "\<exists>w'. finish_helper_read (helper_example WRITE) False = (w', True)
     \<and> h_block_data (w_helper_write w') ! 1 = 100 \<and> h_block_data (w_helper_write w') ! 3 = 13"
proof -
  obtain w' progress where w': "finish_helper_read (helper_example WRITE) False = (w', progress)"
    by (cases "finish_helper_read (helper_example WRITE) False")
  from unaligned_write_merges [OF helper_example_block _ _ w', of 1]
    unaligned_write_merges [OF helper_example_block _ _ w', of 3] w' show ?thesis
    by (simp add: Let_def helper_example_def example_wrapper_def wrapper_members_def)
qed

theorem background_completion_keeps_frontend_witness:
  "\<exists>w'. complete_request
      (example_world (null_library\<lparr>peek_completed_client_request := (\<lambda>l. make_request REKEY True 0 0 0 0 0)\<rparr>)
         0 empty_reader ())
      (helper_example READ, False) = Continue (w', True)
     \<and> rk_last_result (w_rekey_obj w') = R_SUCCESS \<and> w_helper_read w' = w_helper_read (helper_example READ)"
proof -
  let ?r = "make_request REKEY True 0 0 0 0 0"
  let ?E = "example_world (null_library\<lparr>peek_completed_client_request := (\<lambda>l. ?r)\<rparr>) 0 empty_reader ()"
  have "peek_completed_client_request (world_lib ?E) (w_cbe (helper_example READ)) = ?r"
    by simp
  from background_completion_keeps_frontend [OF this, of False] show ?thesis
    by (auto simp: background_op_def result_of_def)
qed

theorem failed_request_ends_frontend_witness:
  "\<exists>w'. complete_request
      (example_world (null_library\<lparr>peek_completed_client_request := (\<lambda>l. make_request READ False 0 0 0 0 0)\<rparr>)
         0 empty_reader ())
      (helper_example READ, False) = Break (w', True)
     \<and> \<not> helper_active w' \<and> fr_state (w_frontend w') = F_COMPLETE"
proof -
  let ?r = "make_request READ False 0 0 0 0 0"
  let ?E = "example_world (null_library\<lparr>peek_completed_client_request := (\<lambda>l. ?r)\<rparr>) 0 empty_reader ()"
  have "peek_completed_client_request (world_lib ?E) (w_cbe (helper_example READ)) = ?r"
    by simp
  from failed_request_ends_frontend [OF this, of False] show ?thesis
    by auto
qed

theorem backend_reads_block_witness:
  "\<exists>w'. backend_passes 4096
      (example_world (null_library\<lparr>lib_has_io_request := (\<lambda>l r i. (make_request READ False 0 0 1 0 0, 0))\<rparr>)
         () (sample_reader (replicate 4096 7)) 0)
      (example_wrapper () 0) = Inr w'
     \<and> w_io_data w' = [replicate 4096 7]"
proof -
  let ?E = "example_world (null_library\<lparr>lib_has_io_request := (\<lambda>l r i. (make_request READ False 0 0 1 0 0, 0))\<rparr>)
         () (sample_reader (replicate 4096 7)) 0"
  have "has_io_request (world_lib ?E) (w_cbe (example_wrapper () 0)) 0 = (make_request READ False 0 0 1 0 0, 0)"
    by (simp add: has_io_request_def)
  from backend_reads_block [OF _ this _ _ _ _ _, of id "replicate 4096 7"] show ?thesis
    using sample_reader_holds sample_reader_delivers
    by (auto simp: new_buffer_def wf_buffer_def)
qed

theorem encryption_pipeline_witness:
  "\<exists>w1 c p w2. encrypt_pass
      (example_world (null_library\<lparr>lib_crypto_cipher_data_required := (\<lambda>l r i. (make_request WRITE False 9 0 1 5 0, 0))\<rparr>)
         () empty_reader ())
      ((example_wrapper () ())\<lparr>w_crypto := sample_crypto, w_plain_data := [[7]]\<rparr>, False) = Continue (w1, True)
     \<and> crypto_execute sample_aes (w_crypto w1) = Inr (c, p)
     \<and> encrypted_pass
      (example_world (null_library\<lparr>lib_crypto_cipher_data_required := (\<lambda>l r i. (make_request WRITE False 9 0 1 5 0, 0))\<rparr>)
         () empty_reader ()) (w1\<lparr>w_crypto := c\<rparr>, False) = Continue (w2, True)
     \<and> w_cipher_data w2 = [[248]]"
proof -
  let ?r = "make_request WRITE False 9 0 1 5 0"
  let ?E = "example_world (null_library\<lparr>lib_crypto_cipher_data_required := (\<lambda>l r i. (?r, 0))\<rparr>) () empty_reader ()"
  let ?w = "(example_wrapper () ())\<lparr>w_crypto := sample_crypto, w_plain_data := [[7]]\<rparr>"
  have "crypto_cipher_data_required (world_lib ?E) (w_cbe ?w) 0 = (?r, 0)"
    by (simp add: crypto_cipher_data_required_def)
  moreover have "set_tag ?r 0 = ?r" by (simp add: set_tag_def make_request_def)
  ultimately show ?thesis
    using encryption_pipeline [of ?w ?r ?E "[7]" False False]
    by (auto simp: sample_crypto_ready new_buffer_def wf_buffer_def sample_aes_def)
qed

end
