(* ===== verification/Wrapper_Safety.thy ===== *)
theory Wrapper_Safety
  imports Vfs_Wrapper
begin

text \<open>
  The states the front-end request and the two helper requests can be in together.

  \<open>library_contract\<close> is what the wrapper relies on: \<open>outstanding\<close> counts the client requests
  the library was given and has not yet been told to drop, and the library reports, or asks
  data for, no client request but an outstanding one. Under it \<open>frontend_inv\<close> holds in every
  state the handlers reach: a helper request exists only while the front-end request is in
  progress, its copy stays within one block, and at most one client request is outstanding.
\<close>

text \<open>The operations whose completion the handler takes for the front end's own.\<close>

definition client_op :: "operation \<Rightarrow> bool" where
  "client_op op \<longleftrightarrow>
     op \<noteq> INVALID \<and> op \<noteq> REKEY \<and> op \<noteq> EXTEND_VBD \<and> op \<noteq> EXTEND_FT
     \<and> op \<noteq> CREATE_SNAPSHOT \<and> op \<noteq> DISCARD_SNAPSHOT"

definition library_contract :: "'l cbe_library \<Rightarrow> ('l \<Rightarrow> nat) \<Rightarrow> bool" where
  "library_contract L outstanding \<longleftrightarrow>
     (\<forall>l r i. outstanding (submit_client_request L l r i)
        = outstanding l + (if client_op (req_operation r) then 1 else 0))
     \<and> (\<forall>l. client_op (req_operation (peek_completed_client_request L l)) \<longrightarrow> 0 < outstanding l)
     \<and> (\<forall>l r. r = peek_completed_client_request L l \<longrightarrow>
        outstanding (drop_completed_client_request L l r)
        = outstanding l - (if client_op (req_operation r) then 1 else 0))
     \<and> (\<forall>l r l'. client_data_ready L l = (r, l') \<longrightarrow>
        outstanding l' = outstanding l
        \<and> (req_operation r = READ \<longrightarrow> 0 < outstanding l \<and> client_data_index L l' r \<noteq> - 1))
     \<and> (\<forall>l r l'. client_data_required L l = (r, l') \<longrightarrow>
        outstanding l' = outstanding l
        \<and> (req_operation r = WRITE \<longrightarrow> 0 < outstanding l \<and> client_data_index L l' r \<noteq> - 1))
     \<and> (\<forall>l a b c. outstanding (fst (lib_execute L l a b c)) = outstanding l)
     \<and> (\<forall>l r i. outstanding (snd (obtain_client_data L l r i)) = outstanding l)
     \<and> (\<forall>l r d. outstanding (snd (supply_client_data L l r d)) = outstanding l)
     \<and> (\<forall>l i b. outstanding (io_request_completed L l i b) = outstanding l)
     \<and> (\<forall>l i. outstanding (io_request_in_progress L l i) = outstanding l)
     \<and> (\<forall>l r. outstanding (crypto_add_key_requested L l r) = outstanding l)
     \<and> (\<forall>l r. outstanding (crypto_add_key_completed L l r) = outstanding l)
     \<and> (\<forall>l r. outstanding (crypto_remove_key_requested L l r) = outstanding l)
     \<and> (\<forall>l r. outstanding (crypto_remove_key_completed L l r) = outstanding l)
     \<and> (\<forall>l i. outstanding (crypto_cipher_data_requested L l i) = outstanding l)
     \<and> (\<forall>l i. outstanding (crypto_plain_data_requested L l i) = outstanding l)
     \<and> (\<forall>l i b. outstanding (supply_crypto_cipher_data L l i b) = outstanding l)
     \<and> (\<forall>l i b. outstanding (supply_crypto_plain_data L l i b) = outstanding l)"

lemma contract_submit:
  "library_contract L n \<Longrightarrow> n (submit_client_request L l r i) = n l + (if client_op (req_operation r) then 1 else 0)"
  by (simp add: library_contract_def)

lemma contract_peek:
  "library_contract L n \<Longrightarrow> client_op (req_operation (peek_completed_client_request L l)) \<Longrightarrow> 0 < n l"
  by (simp add: library_contract_def)

lemma contract_drop:
  "library_contract L n \<Longrightarrow> r = peek_completed_client_request L l \<Longrightarrow>
   n (drop_completed_client_request L l r) = n l - (if client_op (req_operation r) then 1 else 0)"
  by (simp add: library_contract_def)

lemma contract_ready:
  "library_contract L n \<Longrightarrow> client_data_ready L l = (r, l') \<Longrightarrow>
   n l' = n l \<and> (req_operation r = READ \<longrightarrow> 0 < n l \<and> client_data_index L l' r \<noteq> - 1)"
  unfolding library_contract_def by (elim conjE) blast

lemma contract_required:
  "library_contract L n \<Longrightarrow> client_data_required L l = (r, l') \<Longrightarrow>
   n l' = n l \<and> (req_operation r = WRITE \<longrightarrow> 0 < n l \<and> client_data_index L l' r \<noteq> - 1)"
  unfolding library_contract_def by (elim conjE) blast

lemma contract_frame:
  assumes "library_contract L n"
  shows "n (fst (lib_execute L l a b c)) = n l" "n (snd (obtain_client_data L l r i)) = n l"
    "n (snd (supply_client_data L l r d)) = n l" "n (io_request_completed L l i s) = n l"
    "n (io_request_in_progress L l i) = n l" "n (crypto_add_key_requested L l r) = n l"
    "n (crypto_add_key_completed L l r) = n l" "n (crypto_remove_key_requested L l r) = n l"
    "n (crypto_remove_key_completed L l r) = n l" "n (crypto_cipher_data_requested L l i) = n l"
    "n (crypto_plain_data_requested L l i) = n l" "n (supply_crypto_cipher_data L l i s) = n l"
    "n (supply_crypto_plain_data L l i s) = n l"
  using assms by (simp_all add: library_contract_def)

section \<open>The invariant\<close>

text \<open>The part of the wrapper's state that the invariant speaks of.\<close>

definition busy :: "helper_state \<Rightarrow> helper_state \<Rightarrow> frontend_state \<Rightarrow> nat" where
  "busy hr hw fs =
     (if hr = H_IN_PROGRESS \<or> hw = H_IN_PROGRESS \<or> hr = H_NONE \<and> hw = H_NONE \<and> fs = F_IN_PROGRESS
      then 1 else 0)"

definition frontend_inv :: "('l \<Rightarrow> nat) \<Rightarrow> ('l, 'f) wrapper \<Rightarrow> bool" where
  "frontend_inv n w \<longleftrightarrow>
     n (w_cbe w) = busy (h_state (w_helper_read w)) (h_state (w_helper_write w)) (fr_state (w_frontend w))
     \<and> (h_state (w_helper_read w) = H_NONE \<or> h_state (w_helper_write w) = H_NONE)
     \<and> (helper_active w \<longrightarrow>
          fr_state (w_frontend w) = F_IN_PROGRESS \<and> helper_fits w
          \<and> (req_operation (fr_cbe_request (w_frontend w)) = READ
             \<or> req_operation (fr_cbe_request (w_frontend w)) = WRITE))
     \<and> (h_state (w_helper_read w) \<noteq> H_NONE \<longrightarrow> req_operation (h_cbe_request (w_helper_read w)) = READ)
     \<and> (h_state (w_helper_write w) \<noteq> H_NONE \<longrightarrow> req_operation (h_cbe_request (w_helper_write w)) = WRITE)
     \<and> (fr_state (w_frontend w) = F_PENDING \<longrightarrow> client_op (req_operation (fr_cbe_request (w_frontend w))))"

lemmas inv_defs = frontend_inv_def busy_def helper_active_def helper_fits_def client_op_def

text \<open>Changes of the other members do not matter.\<close>

lemma frontend_inv_frame:
  assumes "frontend_inv n w" "n (w_cbe w') = n (w_cbe w)" "w_frontend w' = w_frontend w"
    and "h_state (w_helper_read w') = h_state (w_helper_read w)"
      "h_cbe_request (w_helper_read w') = h_cbe_request (w_helper_read w)"
    and "w_helper_write w' = w_helper_write w"
  shows "frontend_inv n w'"
  using assms by (simp add: inv_defs)

section \<open>The steps of the front-end handler\<close>

lemma submit_helper_requests_inv:
  assumes "library_contract (world_lib E) n" "frontend_inv n w"
  shows "frontend_inv n (submit_helper_requests E w)"
  using assms(2) contract_submit [OF assms(1)]
  by (auto simp: submit_helper_requests_def Let_def inv_defs split: if_splits)

lemma submit_pending_request_inv:
  assumes "library_contract (world_lib E) n" "frontend_inv n w" "submit_pending_request E w = (w', q)"
  shows "frontend_inv n w'"
  using assms(2,3) contract_submit [OF assms(1)]
  by (auto simp: submit_pending_request_def Let_def inv_defs split: if_splits)

lemma execute_library_inv:
  assumes "library_contract (world_lib E) n" "frontend_inv n w"
  shows "frontend_inv n (execute_library E w)"
proof -
  obtain l io pl ci where e: "lib_execute (world_lib E) (w_cbe w) (w_io_data w) (w_plain_data w) (w_cipher_data w)
      = (l, io, pl, ci)" by (metis prod_cases4)
  with contract_frame(1) [OF assms(1), of "w_cbe w" "w_io_data w" "w_plain_data w" "w_cipher_data w"]
  have "n l = n (w_cbe w)" by simp
  with assms(2) e show ?thesis
    by (auto simp: execute_library_def intro!: frontend_inv_frame [OF assms(2)])
qed

lemma frontend_inv_busy:
  assumes "frontend_inv n w" "0 < n (w_cbe w)"
  shows "fr_state (w_frontend w) = F_IN_PROGRESS" "n (w_cbe w) = 1"
    "h_state (w_helper_read w) = H_IN_PROGRESS \<and> h_state (w_helper_write w) = H_NONE
     \<or> h_state (w_helper_read w) = H_NONE \<and> h_state (w_helper_write w) = H_IN_PROGRESS
     \<or> h_state (w_helper_read w) = H_NONE \<and> h_state (w_helper_write w) = H_NONE"
  using assms by (auto simp: frontend_inv_def busy_def helper_active_def split: if_splits)

lemma complete_request_inv:
  assumes "library_contract (world_lib E) n" "frontend_inv n w"
  shows "case complete_request E (w, p) of Continue (w', p') \<Rightarrow> frontend_inv n w'
         | Break (w', p') \<Rightarrow> frontend_inv n w' | Throw e \<Rightarrow> False"
proof -
  let ?r = "peek_completed_client_request (world_lib E) (w_cbe w)"
  have drop: "n (drop_completed_client_request (world_lib E) (w_cbe w) ?r)
      = n (w_cbe w) - (if client_op (req_operation ?r) then 1 else 0)"
    using contract_drop [OF assms(1) refl] .
  have peek: "client_op (req_operation ?r) \<Longrightarrow> 0 < n (w_cbe w)"
    using contract_peek [OF assms(1)] .
  consider (absent) "req_operation ?r = INVALID"
    | (background) "req_operation ?r \<noteq> INVALID" "\<not> client_op (req_operation ?r)"
    | (client) "client_op (req_operation ?r)" by blast
  then show ?thesis
  proof cases
    case absent
    with assms(2) show ?thesis by (simp add: complete_request_def valid_def)
  next
    case background
    have keep: "n (drop_completed_client_request (world_lib E) (w_cbe w) ?r) = n (w_cbe w)"
      using drop background(2) by simp
    show ?thesis
      using background keep
      by (cases "req_operation ?r")
        (auto simp: complete_request_def Let_def valid_def client_op_def
          intro!: frontend_inv_frame [OF assms(2)])
  next
    case client
    have one: "n (drop_completed_client_request (world_lib E) (w_cbe w) ?r) = n (w_cbe w) - 1"
      using drop client by simp
    have ops: "req_operation ?r \<noteq> INVALID" "req_operation ?r \<noteq> REKEY"
      "req_operation ?r \<noteq> EXTEND_VBD" "req_operation ?r \<noteq> EXTEND_FT"
      "req_operation ?r \<noteq> CREATE_SNAPSHOT" "req_operation ?r \<noteq> DISCARD_SNAPSHOT"
      using client by (auto simp: client_op_def)
    note phase = frontend_inv_busy [OF assms(2) peek [OF client]]
    show ?thesis
      using phase(3) assms(2) one phase(1,2) ops
      by (elim disjE conjE) (simp_all add: complete_request_def Let_def valid_def inv_defs)
  qed
qed

lemma complete_requests_inv:
  assumes "library_contract (world_lib E) n" "frontend_inv n w" "complete_requests E w p = Some res"
  shows "\<exists>w' p'. res = Inr (w', p') \<and> frontend_inv n w'"
proof (rule run_loop_rule [where I = "\<lambda>(w, p). frontend_inv n w", OF assms(3) [unfolded complete_requests_def]])
  show "case (w, p) of (w, p) \<Rightarrow> frontend_inv n w" using assms(2) by simp
next
  fix s s' assume "case s of (w, p) \<Rightarrow> frontend_inv n w" "complete_request E s = Continue s'"
  then show "case s' of (w, p) \<Rightarrow> frontend_inv n w"
    using complete_request_inv [OF assms(1), of "fst s" "snd s"] by (simp add: case_prod_unfold)
next
  fix s s' assume "case s of (w, p) \<Rightarrow> frontend_inv n w" "complete_request E s = Break s'"
  then show "\<exists>w' p'. Inr s' = Inr (w', p') \<and> frontend_inv n w'"
    using complete_request_inv [OF assms(1), of "fst s" "snd s"] by (cases s') (simp add: case_prod_unfold)
next
  fix s e assume "case s of (w, p) \<Rightarrow> frontend_inv n w" "complete_request E s = Throw e"
  then show "\<exists>w' p'. Inl e = Inr (w', p') \<and> frontend_inv n w'"
    using complete_request_inv [OF assms(1), of "fst s" "snd s"] by (simp add: case_prod_unfold)
qed

lemma finish_helper_read_inv:
  "frontend_inv n w \<Longrightarrow> finish_helper_read w p = (w', p') \<Longrightarrow> frontend_inv n w'"
  by (auto simp: finish_helper_read_def Let_def inv_defs split: if_splits)

lemma finish_helper_write_inv:
  "frontend_inv n w \<Longrightarrow> finish_helper_write w p = (w', p') \<Longrightarrow> frontend_inv n w'"
  by (auto simp: finish_helper_write_def inv_defs split: if_splits)

text \<open>
  The exceptions the handlers can end with: an index the library or the crypto unit made up, an
  I/O request that is not an access, a failed check of the crypto unit, a request whose count is
  out of range at the language boundary, a null pointer of the client, and the reference to an object that is not there. \<open>throw -1\<close> is not among them.
\<close>

definition code_error :: "exn \<Rightarrow> bool" where
  "code_error e \<longleftrightarrow>
     e = Bad_index \<or> e = Unsupported_Operation \<or> e = Program_Error \<or> e = Constraint_Error
     \<or> e = Data_nullptr
     \<or> e = Deref_unconstructed_object"

lemma code_errorI [simp]:
  "code_error Bad_index" "code_error Unsupported_Operation" "code_error Program_Error"
  "code_error Constraint_Error"
  "code_error Data_nullptr" "code_error Deref_unconstructed_object"
  by (simp_all add: code_error_def)

lemma item_error: "item b i = Inl e \<Longrightarrow> e = Bad_index"
  by (simp add: item_def split: if_splits)

lemma deliver_read_data_inv:
  assumes "library_contract (world_lib E) n" "frontend_inv n w" "deliver_read_data E w p = res"
  shows "case res of Inr (w', p', q) \<Rightarrow> frontend_inv n w' | Inl e \<Rightarrow> code_error e"
proof -
  let ?L = "world_lib E"
  obtain r l where ready: "client_data_ready ?L (w_cbe w) = (r, l)" by fastforce
  note c = contract_ready [OF assms(1) ready]
  obtain dv i l2 where ob: "obtain_client_data ?L l r (- 1) = ((dv, i), l2)" by (metis surj_pair)
  have l2: "n l2 = n (w_cbe w)" using contract_frame(2) [OF assms(1), of l r "- 1"] ob c by simp
  show ?thesis
    using assms(2,3) ready c ob l2 frontend_inv_busy(1) [OF assms(2)]
    by (cases "item (w_plain_data w) i")
      (auto simp: deliver_read_data_def Let_def dest: item_error
        intro!: frontend_inv_frame [OF assms(2)] split: if_splits)
qed

lemma take_write_data_inv:
  assumes "library_contract (world_lib E) n" "frontend_inv n w" "take_write_data E w p = res"
  shows "case res of Inr (w', p') \<Rightarrow> frontend_inv n w' | Inl e \<Rightarrow> code_error e"
proof -
  let ?L = "world_lib E"
  obtain r l where ready: "client_data_required ?L (w_cbe w) = (r, l)" by fastforce
  note c = contract_required [OF assms(1) ready]
  have l2: "n (snd (supply_client_data ?L l r d)) = n (w_cbe w)" for d
    using contract_frame(3) [OF assms(1), of l r d] c by simp
  show ?thesis
    using assms(2,3) ready c l2 frontend_inv_busy(1) [OF assms(2)]
    by (auto simp: take_write_data_def Let_def case_prod_unfold
        intro!: frontend_inv_frame [OF assms(2)] split: if_splits)
qed

lemma handle_cbe_frontend_inv:
  assumes "library_contract (world_lib E) n" "frontend_inv n w" "handle_cbe_frontend E w = Some res"
  shows "case res of Inr (w', p') \<Rightarrow> frontend_inv n w' | Inl e \<Rightarrow> code_error e"
proof -
  obtain w1 q where w1: "submit_pending_request E (submit_helper_requests E w) = (w1, q)" by fastforce
  have i1: "frontend_inv n w1"
    using submit_pending_request_inv [OF assms(1) submit_helper_requests_inv [OF assms(1,2)] w1] .
  show ?thesis
  proof (cases q)
    case True
    with assms(3) w1 i1 show ?thesis by (auto simp: handle_cbe_frontend_def)
  next
    case False
    let ?w2 = "execute_library E w1"
    let ?c = "complete_requests E ?w2 (execute_progress (world_lib E) (w_cbe ?w2))"
    have "?c \<noteq> None"
    proof
      assume "?c = None"
      with assms(3) w1 False show False by (simp add: handle_cbe_frontend_def Let_def)
    qed
    then obtain w3 p3 where c: "?c = Some (Inr (w3, p3))" and i3: "frontend_inv n w3"
      using complete_requests_inv [OF assms(1) execute_library_inv [OF assms(1) i1]] by blast
    obtain w4 p4 where w4: "finish_helper_read w3 p3 = (w4, p4)" by fastforce
    obtain w5 p5 where w5: "finish_helper_write w4 p4 = (w5, p5)" by fastforce
    have i5: "frontend_inv n w5"
      using finish_helper_write_inv [OF finish_helper_read_inv [OF i3 w4] w5] .
    note d = deliver_read_data_inv [OF assms(1) i5 refl, of p5]
    show ?thesis
    proof (cases "deliver_read_data E w5 p5")
      case (Inl e)
      with assms(3) w1 False c w4 w5 d show ?thesis by (simp add: handle_cbe_frontend_def Let_def) auto
    next
      case (Inr t)
      obtain w6 p6 q6 where t: "t = (w6, p6, q6)" by (cases t)
      with d Inr have "frontend_inv n w6" by simp
      from take_write_data_inv [OF assms(1) this refl, of p6]
      have "case take_write_data E w6 p6 of Inr (w', p') \<Rightarrow> frontend_inv n w' | Inl e \<Rightarrow> code_error e" .
      with assms(3) w1 False c w4 w5 Inr t \<open>frontend_inv n w6\<close> show ?thesis
        by (auto simp: handle_cbe_frontend_def Let_def split: if_splits)
    qed
  qed
qed

section \<open>The other handlers\<close>

lemma job_execute_error: "job_execute F L e = Inl x \<Longrightarrow> x = Bad_index"
  by (auto simp: job_execute_def io_read_def io_write_def io_sync_def Let_def read_in_progress_def
      write_in_progress_def sync_in_progress_def item_def set_item_def bind_exn_def
      split: if_splits io_state.splits prod.splits sum.splits sync_result.splits)

lemma job_execute_outstanding:
  assumes "library_contract L n" "job_execute F L e = Inr (e', q)"
  shows "n (env_lib e') = n (env_lib e)"
  using assms(2) contract_frame(4,5) [OF assms(1)]
  by (auto simp: job_execute_def io_read_def io_write_def io_sync_def Let_def job_done_def
      sync_in_progress_def apply_answer_def split: if_splits io_state.splits prod.splits
      sync_result.splits answer.splits elim!: read_in_progressE write_in_progressE)

lemma new_io_job_error: "new_io_job op i b l = Inl e \<Longrightarrow> e = Unsupported_Operation"
  by (cases op) (simp_all add: new_io_job_def)

lemma execute_backend_job_inv:
  assumes "library_contract (world_lib E) n" "frontend_inv n w"
  shows "case execute_backend_job E j w of Inr (w', p') \<Rightarrow> frontend_inv n w' | Inl e \<Rightarrow> code_error e"
proof -
  let ?e = "\<lparr> env_job = j, env_file = w_backend w, env_lib = w_cbe w, env_io_data = w_io_data w \<rparr>"
  show ?thesis
  proof (cases "job_execute (world_file E) (world_lib E) ?e")
    case (Inl e)
    with job_execute_error [OF Inl] show ?thesis by (simp add: execute_backend_job_def)
  next
    case (Inr t)
    obtain e' q where t: "t = (e', q)" by (cases t)
    have "n (env_lib e') = n (w_cbe w)"
      using job_execute_outstanding [OF assms(1), of _ ?e e' q] Inr t by simp
    with Inr t show ?thesis
      by (auto simp: execute_backend_job_def intro!: frontend_inv_frame [OF assms(2)])
  qed
qed

lemma handle_cbe_backend_inv:
  assumes "library_contract (world_lib E) n" "frontend_inv n w"
  shows "case handle_cbe_backend E w of Inr (w', p') \<Rightarrow> frontend_inv n w' | Inl e \<Rightarrow> code_error e"
proof (cases "w_backend_job w")
  case None
  obtain r i where io: "has_io_request (world_lib E) (w_cbe w) 0 = (r, i)" by fastforce
  show ?thesis
  proof (cases "new_io_job (req_operation r) i (req_block_number r * BLOCK_SIZE) (req_count r * BLOCK_SIZE)")
    case (Inl e)
    with None io assms(2) new_io_job_error [OF Inl] show ?thesis by (simp add: handle_cbe_backend_def)
  next
    case (Inr j)
    with None io assms(2) execute_backend_job_inv [OF assms, of j] show ?thesis
      by (simp add: handle_cbe_backend_def)
  qed
next
  case (Some j)
  with execute_backend_job_inv [OF assms, of j] show ?thesis
    by (simp add: handle_cbe_backend_def split: prod.split)
qed

lemma key_data_for_job_error: "key_data_for_job j ks = Inl e \<Longrightarrow> e = Program_Error"
  by (induction ks rule: rev_induct) (auto simp: key_data_for_job_def split: if_splits)

lemma execute_jobs_error: "execute_jobs A js ks p = Inl e \<Longrightarrow> e = Program_Error"
proof (induction js arbitrary: p)
  case Nil
  then show ?case by simp
next
  case (Cons j js)
  then show ?case
    by (auto simp: Execute_Encrypt_def Execute_Decrypt_def bind_exn_def dest: key_data_for_job_error
        split: job_operation_type.splits job_state_type.splits sum.splits prod.splits)
qed

lemma crypto_execute_error: "crypto_execute A c = Inl e \<Longrightarrow> e = Program_Error"
  by (auto simp: crypto_execute_def Crypto_Execute_def bind_exn_def dest: execute_jobs_error
      split: sum.splits prod.splits)

lemma update_invalid_job_error: "update_invalid_job f js = Inl e \<Longrightarrow> e = Program_Error"
  by (induction js) (auto simp: bind_exn_def split: if_splits sum.splits)

lemma submit_crypto_error:
  "submit_encryption_request c r d k = Inl e \<Longrightarrow> e = Program_Error \<or> e = Constraint_Error"
  "submit_decryption_request c r d k = Inl e \<Longrightarrow> e = Program_Error \<or> e = Constraint_Error"
  by (auto simp: crypto_model bind_exn_def dest: update_invalid_job_error spark_of_request_error split: sum.splits)

lemma supply_crypto_error:
  "supply_cipher_data c r = Inl e \<Longrightarrow> e = Constraint_Error"
  "supply_plain_data c r = Inl e \<Longrightarrow> e = Constraint_Error"
  by (auto simp: supply_cipher_data_def supply_plain_data_def bind_exn_def dest: spark_of_request_error
      split: sum.splits)

lemma crypto_key_error:
  "crypto_add_key c kid d = Inl e \<Longrightarrow> e = Program_Error"
  "crypto_remove_key c kid = Inl e \<Longrightarrow> e = Program_Error"
proof -
  show "crypto_add_key c kid d = Inl e \<Longrightarrow> e = Program_Error"
    by (auto simp: crypto_add_key_def Add_Key_def split: if_splits)
  have "remove_first_key ks kid = Inl e \<Longrightarrow> e = Program_Error" for ks
    by (induction ks) (auto simp: bind_exn_def split: if_splits sum.splits)
  then show "crypto_remove_key c kid = Inl e \<Longrightarrow> e = Program_Error"
    by (auto simp: crypto_remove_key_def Remove_Key_def bind_exn_def split: sum.splits)
qed

text \<open>One pass of a crypto loop; \<open>safe_pass\<close> is what each of the six loops preserves.\<close>

definition safe_pass ::
  "('l \<Rightarrow> nat) \<Rightarrow> (('l, 'f) wrapper \<times> bool \<Rightarrow> (('l, 'f) wrapper \<times> bool, exn) loop_step) \<Rightarrow> bool" where
  "safe_pass n body \<longleftrightarrow>
     (\<forall>s. frontend_inv n (fst s) \<longrightarrow>
        (case body s of Continue s' \<Rightarrow> frontend_inv n (fst s') | Break s' \<Rightarrow> frontend_inv n (fst s')
         | Throw e \<Rightarrow> code_error e))"

lemma safe_passD:
  assumes "safe_pass n body" "frontend_inv n (fst s)"
  shows "body s = Continue s' \<Longrightarrow> frontend_inv n (fst s')"
    "body s = Break s' \<Longrightarrow> frontend_inv n (fst s')"
    "body s = Throw e \<Longrightarrow> code_error e"
  using assms(1) [unfolded safe_pass_def, rule_format, OF assms(2)] by simp_all

lemma safe_pass_loop:
  fixes body :: "('l, 'f) wrapper \<times> bool \<Rightarrow> (('l, 'f) wrapper \<times> bool, exn) loop_step"
  assumes "safe_pass n body" "frontend_inv n (fst s)" "run_loop body s = Some res"
  shows "case res of Inr s' \<Rightarrow> frontend_inv n (fst s') | Inl e \<Rightarrow> code_error e"
proof (rule run_loop_rule [where I = "\<lambda>s. frontend_inv n (fst s)"
      and Q = "\<lambda>r. case r of Inr s' \<Rightarrow> frontend_inv n (fst s') | Inl e \<Rightarrow> code_error e", OF assms(3,2)])
  fix s s' :: "('l, 'f) wrapper \<times> bool" and e
  assume inv: "frontend_inv n (fst s)"
  show "body s = Continue s' \<Longrightarrow> frontend_inv n (fst s')"
    by (rule safe_passD(1) [OF assms(1) inv])
  show "body s = Break s' \<Longrightarrow> case Inr s' of Inr s' \<Rightarrow> frontend_inv n (fst s') | Inl e \<Rightarrow> code_error e"
    by (simp, rule safe_passD(2) [OF assms(1) inv])
  show "body s = Throw e \<Longrightarrow> case Inl e of Inr s' \<Rightarrow> frontend_inv n (fst s') | Inl e \<Rightarrow> code_error e"
    by (simp, rule safe_passD(3) [OF assms(1) inv])
qed

text \<open>A pass that leaves the front end's members alone.\<close>

definition keeps_front :: "('l \<Rightarrow> nat) \<Rightarrow> ('l, 'f) wrapper \<Rightarrow> ('l, 'f) wrapper \<Rightarrow> bool" where
  "keeps_front n w w' \<longleftrightarrow>
     n (w_cbe w') = n (w_cbe w) \<and> w_frontend w' = w_frontend w
     \<and> w_helper_read w' = w_helper_read w \<and> w_helper_write w' = w_helper_write w"

lemma safe_passI:
  fixes body :: "('l, 'f) wrapper \<times> bool \<Rightarrow> (('l, 'f) wrapper \<times> bool, exn) loop_step"
  assumes "\<And>w p. case body (w, p) of Continue s' \<Rightarrow> keeps_front n w (fst s')
     | Break s' \<Rightarrow> keeps_front n w (fst s') | Throw e \<Rightarrow> code_error e"
  shows "safe_pass n body"
  unfolding safe_pass_def
proof (intro allI impI)
  fix s :: "('l, 'f) wrapper \<times> bool"
  assume inv: "frontend_inv n (fst s)"
  have "frontend_inv n w'" if "keeps_front n (fst s) w'" for w'
    using that by (intro frontend_inv_frame [OF inv]) (simp_all add: keeps_front_def)
  then show "case body s of Continue s' \<Rightarrow> frontend_inv n (fst s') | Break s' \<Rightarrow> frontend_inv n (fst s')
         | Throw e \<Rightarrow> code_error e"
    using assms [of "fst s" "snd s"] by (auto split: loop_step.splits)
qed

lemma safe_key_passes:
  assumes "library_contract (world_lib E) n"
  shows "safe_pass n (add_key_pass E)" "safe_pass n (remove_key_pass E)"
  by (rule safe_passI; use contract_frame(6-9) [OF assms] in
      \<open>auto simp: add_key_pass_def remove_key_pass_def Let_def keeps_front_def
         dest: crypto_key_error split: prod.split sum.split\<close>)+

lemma safe_submit_passes:
  assumes "library_contract (world_lib E) n"
  shows "safe_pass n (encrypt_pass E)" "safe_pass n (decrypt_pass E)"
  by (rule safe_passI; use contract_frame(10,11) [OF assms] in
      \<open>auto simp: encrypt_pass_def decrypt_pass_def Let_def keeps_front_def bind_exn_def
         dest: submit_crypto_error item_error split: prod.split sum.split\<close>)+

lemma safe_supply_passes:
  assumes "library_contract (world_lib E) n"
  shows "safe_pass n (encrypted_pass E)" "safe_pass n (decrypted_pass E)"
  by (rule safe_passI; use contract_frame(12,13) [OF assms] in
      \<open>auto simp: encrypted_pass_def decrypted_pass_def Let_def keeps_front_def set_item_def
         dest: item_error supply_crypto_error split: prod.split sum.split option.split\<close>)+

definition safe_result :: "('l \<Rightarrow> nat) \<Rightarrow> (('l, 'f) wrapper \<times> bool) run \<Rightarrow> bool" where
  "safe_result n m \<longleftrightarrow>
     (case m of None \<Rightarrow> True | Some (Inl e) \<Rightarrow> code_error e | Some (Inr s) \<Rightarrow> frontend_inv n (fst s))"

lemma safe_result_bind:
  assumes "safe_result n m" "\<And>s. frontend_inv n (fst s) \<Longrightarrow> safe_result n (f s)"
  shows "safe_result n (bind_run m f)"
proof (cases m)
  case None
  then show ?thesis by (simp add: safe_result_def)
next
  case (Some r)
  show ?thesis
  proof (cases r)
    case (Inl e)
    with Some assms(1) show ?thesis by (simp add: safe_result_def)
  next
    case (Inr s)
    with Some assms(1) have "frontend_inv n (fst s)" by (simp add: safe_result_def)
    with Some Inr assms(2) show ?thesis by simp
  qed
qed

lemma safe_result_loop: "safe_pass n body \<Longrightarrow> frontend_inv n (fst s) \<Longrightarrow> safe_result n (run_loop body s)"
  using safe_pass_loop [of n body s] by (auto simp: safe_result_def split: option.split sum.split)

lemma handle_crypto_safe:
  assumes "library_contract (world_lib E) n" "frontend_inv n w"
  shows "safe_result n (handle_crypto E w)"
proof (cases "crypto_execute (world_aes E) (w_crypto w)")
  case (Inl e)
  with crypto_execute_error [OF Inl] show ?thesis by (simp add: handle_crypto_def safe_result_def)
next
  case (Inr t)
  obtain c p where t: "t = (c, p)" by (cases t)
  have i: "frontend_inv n (fst (w\<lparr>w_crypto := c\<rparr>, p))"
    using frontend_inv_frame [OF assms(2), of "w\<lparr>w_crypto := c\<rparr>"] by simp
  note pass = safe_key_passes [OF assms(1)] safe_submit_passes [OF assms(1)] safe_supply_passes [OF assms(1)]
  show ?thesis
    unfolding handle_crypto_def Inr t bind_run_simps prod.case
    by (intro safe_result_bind safe_result_loop pass i)
qed

lemma handle_frontend_pass_safe:
  assumes "library_contract (world_lib E) n" "frontend_inv n w"
  shows "safe_result n (handle_frontend_pass E w)"
proof -
  have front: "safe_result n (handle_cbe_frontend E w)"
    using handle_cbe_frontend_inv [OF assms] by (auto simp: safe_result_def split: option.split sum.split)
  have device: "safe_result n (Some (handle_cbe_backend E w1))" if "frontend_inv n w1" for w1
    using handle_cbe_backend_inv [OF assms(1) that] by (auto simp: safe_result_def split: sum.splits)
  have stop: "safe_result n (bind_run (Some (dump_state w3)) (\<lambda>_. Some (Inr (w3, False))))"
    if "frontend_inv n w3" for w3
    using that by (auto simp: dump_state_def safe_result_def split: option.split)
  show ?thesis
    unfolding handle_frontend_pass_def Let_def case_prod_unfold
    by (intro safe_result_bind front device handle_crypto_safe [OF assms(1)])
      (auto simp: safe_result_def dest: stop [unfolded safe_result_def] split: option.splits)
qed

lemma update_background_state_front [simp]:
  "w_frontend (update_background_state i w) = w_frontend w"
  "w_helper_read (update_background_state i w) = w_helper_read w"
  "w_helper_write (update_background_state i w) = w_helper_write w"
  "w_cbe (update_background_state i w) = w_cbe w"
  by (simp_all add: update_background_state_def Let_def)

lemma handle_frontend_request_result:
  fixes w :: "('l, 'f) wrapper"
  assumes "library_contract (world_lib E) n" "frontend_inv n w"
    and "handle_frontend_request E w = Some res"
  shows "case res of Inr w' \<Rightarrow> frontend_inv n w' | Inl e \<Rightarrow> code_error e"
proof (cases "w_cbe_constructed w")
  case False
  with assms(3) show ?thesis by (auto simp: handle_frontend_request_def)
next
  case True
  let ?Q = "\<lambda>r. case r of Inr w' \<Rightarrow> frontend_inv n w' | Inl e \<Rightarrow> code_error e"
  obtain r where r: "run_while (handle_frontend_pass E) w = Some r"
    using assms(3) True by (cases "run_while (handle_frontend_pass E) w")
      (simp_all add: handle_frontend_request_def)
  have "?Q r"
  proof (rule run_while_rule [where I = "frontend_inv n" and Q = ?Q, OF r assms(2)])
    fix s s' :: "('l, 'f) wrapper" and e
    assume i: "frontend_inv n s"
    note safe = handle_frontend_pass_safe [OF assms(1) i, unfolded safe_result_def]
    show "handle_frontend_pass E s = Some (Inr (s', True)) \<Longrightarrow> frontend_inv n s'"
      using safe by simp
    show "handle_frontend_pass E s = Some (Inr (s', False)) \<Longrightarrow> ?Q (Inr s')"
      using safe by simp
    show "handle_frontend_pass E s = Some (Inl e) \<Longrightarrow> ?Q (Inl e)"
      using safe by simp
  qed
  then have Q: "?Q r" .
  show ?thesis
  proof (cases r)
    case (Inl e)
    with assms(3) True r Q show ?thesis by (auto simp: handle_frontend_request_def)
  next
    case (Inr w1)
    have "frontend_inv n (update_background_state (library_info (world_lib E) (w_cbe w1)) w1)"
      by (rule frontend_inv_frame [of n w1]) (use Q Inr in simp_all)
    with assms(3) True r Inr show ?thesis by (auto simp: handle_frontend_request_def)
  qed
qed

lemma handle_frontend_request_inv:
  "library_contract (world_lib E) n \<Longrightarrow> frontend_inv n w \<Longrightarrow>
   handle_frontend_request E w = Some (Inr w') \<Longrightarrow> frontend_inv n w'"
  using handle_frontend_request_result [of E n w "Inr w'"] by simp

text \<open>
  C3. Under the library contract (the library reports, or asks data for, only client requests it
  was given), the driver loop handle_frontend_request keeps the invariant of the front-end and
  helper requests: helper requests exist only while the front-end request is in progress, their
  copy stays inside one block, at most one client request is outstanding. It never throws the -1
  that marks data for a request that is not in progress; the only exceptions left are the ones
  the code throws itself.
\<close>

theorem handle_frontend_request_safe:
  assumes "library_contract (world_lib E) n" "frontend_inv n w"
    and "handle_frontend_request E w = Some res"
  shows "case res of
           Inr w' \<Rightarrow> frontend_inv n w' \<and> (if helper_active w' then helper_fits w' else True)
         | Inl e \<Rightarrow> code_error e \<and> e \<noteq> Thrown_int (- 1)"
  using handle_frontend_request_result [OF assms]
  by (cases res) (auto simp: code_error_def frontend_inv_def)

section \<open>The operations of the file systems on the request\<close>

lemma new_wrapper_inv:
  "n l = 0 \<Longrightarrow> frontend_inv n (wrapper_members f l a b mem)"
  by (simp add: wrapper_members_def inv_defs helper_init_def frontend_init_def)

lemma submit_frontend_request_inv:
  assumes "frontend_inv n w" "op = READ \<or> op = WRITE \<or> op = SYNC"
    and "submit_frontend_request w seek data count op snap_id = (w', accepted)"
  shows "frontend_inv n w'"
proof (cases "fr_state (w_frontend w) = F_NONE")
  case True
  then have idle: "h_state (w_helper_read w) = H_NONE" "h_state (w_helper_write w) = H_NONE" "n (w_cbe w) = 0"
    using assms(1) by (auto simp: inv_defs)
  show ?thesis
  proof (cases "op = SYNC")
    case True
    with \<open>fr_state (w_frontend w) = F_NONE\<close> assms(3) idle show ?thesis
      by (auto simp: submit_frontend_request_def Let_def inv_defs)
  next
    case False
    then have op: "op = READ \<or> op = WRITE" using assms(2) by blast
    show ?thesis
    proof (cases "unaligned_request seek count")
      case unal: True
      from assms(3) submit_unaligned [OF True False unal, of data snap_id] idle op min_fits
      show ?thesis by (auto simp: inv_defs)
    next
      case al: False
      from assms(3) submit_aligned [OF True False al, of data snap_id] idle op
      show ?thesis by (auto simp: inv_defs)
    qed
  qed
next
  case False
  with assms show ?thesis by (simp add: submit_frontend_request_def Let_def)
qed

lemma ack_frontend_request_inv:
  assumes "frontend_inv n w" "fr_state (w_frontend w) \<noteq> F_IN_PROGRESS"
  shows "frontend_inv n (ack_frontend_request w)"
  using assms by (auto simp: ack_frontend_request_def inv_defs)

section \<open>Examples\<close>

text \<open>
  A library that completes every client request at once; its state is the number of outstanding
  requests.
\<close>

definition echo_library :: "nat cbe_library" where
  "echo_library =
     null_library\<lparr>submit_client_request := (\<lambda>l r i. l + (if client_op (req_operation r) then 1 else 0)),
       peek_completed_client_request :=
         (\<lambda>l. if l = 0 then invalid_request else make_request READ True 0 0 1 0 0),
       drop_completed_client_request := (\<lambda>l r. l - 1)\<rparr>"

definition echo_wrapper :: "frontend_request \<Rightarrow> (nat, unit) wrapper" where
  "echo_wrapper fr = (example_wrapper 0 ())\<lparr>w_frontend := fr\<rparr>"

abbreviation echo_world :: "(nat, unit) world" where
  "echo_world \<equiv> example_world echo_library 0 empty_reader ()"

lemma echo_contract: "library_contract echo_library id"
  by (auto simp: library_contract_def echo_library_def null_library_def client_op_def invalid_request_def
      client_data_ready_def client_data_required_def obtain_client_data_def supply_client_data_def)

lemma crypto_execute_idle: "crypto_execute A Initialized_Object = Inr (Initialized_Object, False)"
  by (simp add: crypto_execute_def Crypto_Execute_def Initialized_Object_def Invalid_Job_def)

lemma peek_idle:
  "peek_completed_encryption_request Initialized_Object = invalid_request"
  "peek_completed_decryption_request Initialized_Object = invalid_request"
  by (simp_all add: peek_completed_encryption_request_def peek_completed_decryption_request_def
      Peek_Completed_Encryption_Request_def Peek_Completed_Decryption_Request_def
      Initialized_Object_def Invalid_Job_def from_spark_def spark_invalid_object_def)

lemma echo_crypto_idle:
  assumes "w_crypto w = Initialized_Object"
  shows "handle_crypto echo_world w = Some (Inr (w, False))"
proof -
  have same: "w\<lparr>w_crypto := Initialized_Object\<rparr> = w" using assms by simp
  have passes: "add_key_pass echo_world (w, False) = Break (w, False)"
    "remove_key_pass echo_world (w, False) = Break (w, False)"
    "encrypt_pass echo_world (w, False) = Break (w, False)"
    "encrypted_pass echo_world (w, False) = Break (w, False)"
    "decrypt_pass echo_world (w, False) = Break (w, False)"
    "decrypted_pass echo_world (w, False) = Break (w, False)"
    using assms
    by (simp_all add: add_key_pass_def remove_key_pass_def encrypt_pass_def encrypted_pass_def
        decrypt_pass_def decrypted_pass_def Let_def peek_idle echo_library_def null_library_def
        crypto_add_key_required_def crypto_remove_key_required_def crypto_cipher_data_required_def
        crypto_plain_data_required_def)
  show ?thesis
    by (simp add: handle_crypto_def crypto_execute_idle run_loop_Break passes same assms)
qed

lemma echo_backend_idle:
  "w_backend_job w = None \<Longrightarrow> handle_cbe_backend echo_world w = Inr (w, False)"
  by (simp add: handle_cbe_backend_def has_io_request_def echo_library_def null_library_def)

lemma echo_wrapper_sel [simp]:
  "w_crypto (echo_wrapper fr) = Initialized_Object" "w_backend_job (echo_wrapper fr) = None"
  "w_cbe (echo_wrapper fr) = 0" "w_frontend (echo_wrapper fr) = fr" "w_cbe_constructed (echo_wrapper fr)"
  "w_helper_read (echo_wrapper fr) = helper_init" "w_helper_write (echo_wrapper fr) = helper_init"
  "\<not> w_debug (echo_wrapper fr)" "(echo_wrapper fr)\<lparr>w_frontend := fr'\<rparr> = echo_wrapper fr'"
  "(echo_wrapper fr)\<lparr>w_cbe := 0\<rparr> = echo_wrapper fr"
  by (simp_all add: echo_wrapper_def example_wrapper_def wrapper_members_def)

lemmas echo_defs =
  handle_cbe_frontend_def submit_helper_requests_def submit_pending_request_def execute_library_def
  complete_requests_def complete_request_def finish_helper_read_def finish_helper_write_def
  deliver_read_data_def take_write_data_def client_data_ready_def client_data_required_def
  echo_library_def null_library_def request_out_of_range_def client_op_def

text \<open>A wrapper with nothing to do.\<close>

definition echo_idle :: "(nat, unit) wrapper \<Rightarrow> bool" where
  "echo_idle w \<longleftrightarrow>
     w_cbe_constructed w \<and> w_cbe w = 0 \<and> w_backend_job w = None \<and> w_crypto w = Initialized_Object
     \<and> \<not> w_debug w \<and> h_state (w_helper_read w) = H_NONE \<and> h_state (w_helper_write w) = H_NONE
     \<and> fr_state (w_frontend w) \<noteq> F_PENDING"

lemma echo_done:
  assumes "echo_idle w"
  shows "handle_cbe_frontend echo_world w = Some (Inr (w, False))"
proof -
  have "w\<lparr>w_cbe := 0\<rparr> = w" using assms by (simp add: echo_idle_def)
  with assms show ?thesis by (simp add: echo_idle_def echo_defs Let_def run_loop_Break)
qed

lemma echo_answers:
  assumes "fr_state fr = F_PENDING" "fr_cbe_request fr = make_request READ False 0 dst 1 0 0"
  shows "handle_cbe_frontend echo_world (echo_wrapper fr) =
     Some (Inr (echo_wrapper (fr\<lparr>fr_state := F_COMPLETE,
                  fr_cbe_request := set_success (fr_cbe_request fr) True\<rparr>), True))"
  using assms
  by (simp add: echo_defs Let_def run_loop.simps)
    (simp add: echo_wrapper_def example_wrapper_def wrapper_members_def)

lemma echo_quiet:
  assumes "echo_idle w"
  shows "handle_frontend_request echo_world w = Some (Inr w)"
proof -
  have "handle_frontend_pass echo_world w = Some (Inr (w, False))"
    using assms echo_done [OF assms]
    by (simp add: handle_frontend_pass_def echo_backend_idle echo_crypto_idle dump_state_def echo_idle_def)
  then have "run_while (handle_frontend_pass echo_world) w = Some (Inr w)"
    by (rule run_while_stop)
  then show ?thesis
    using assms
    by (simp add: handle_frontend_request_def update_background_state_def library_info_def
        echo_library_def null_library_def Let_def echo_idle_def)
qed

lemma echo_idle_wrapper [simp]: "echo_idle (echo_wrapper fr) \<longleftrightarrow> fr_state fr \<noteq> F_PENDING"
  by (simp add: echo_idle_def)

lemma echo_run:
  assumes "fr_state fr = F_PENDING" "fr_cbe_request fr = make_request READ False 0 dst 1 0 0"
  shows "handle_frontend_request echo_world (echo_wrapper fr) =
     Some (Inr (echo_wrapper (fr\<lparr>fr_state := F_COMPLETE,
                  fr_cbe_request := set_success (fr_cbe_request fr) True\<rparr>)))"
proof -
  let ?fr = "fr\<lparr>fr_state := F_COMPLETE, fr_cbe_request := set_success (fr_cbe_request fr) True\<rparr>"
  have "handle_frontend_pass echo_world (echo_wrapper fr) = Some (Inr (echo_wrapper ?fr, True))"
    using assms by (simp add: handle_frontend_pass_def echo_answers echo_backend_idle echo_crypto_idle)
  then have "run_while (handle_frontend_pass echo_world) (echo_wrapper fr)
      = run_while (handle_frontend_pass echo_world) (echo_wrapper ?fr)"
    by (rule run_while_again)
  then have "handle_frontend_request echo_world (echo_wrapper fr)
      = handle_frontend_request echo_world (echo_wrapper ?fr)"
    by (simp add: handle_frontend_request_def)
  then show ?thesis by (simp add: echo_quiet)
qed

definition echo_request :: frontend_request where
  "echo_request = frontend_init\<lparr>fr_state := F_PENDING, fr_count := 4096,
     fr_cbe_request := make_request READ False 0 8192 1 0 0\<rparr>"

theorem handle_frontend_request_safe_witness:
  "\<exists>w'. handle_frontend_request echo_world (echo_wrapper echo_request) = Some (Inr w')
     \<and> fr_state (w_frontend w') = F_COMPLETE \<and> frontend_inv id w'"
proof -
  have inv: "frontend_inv id (echo_wrapper echo_request)"
    by (simp add: inv_defs echo_request_def)
  have lib: "library_contract (world_lib echo_world) id" by (simp add: echo_contract)
  have run: "handle_frontend_request echo_world (echo_wrapper echo_request)
      = Some (Inr (echo_wrapper (echo_request\<lparr>fr_state := F_COMPLETE,
          fr_cbe_request := set_success (fr_cbe_request echo_request) True\<rparr>)))"
    by (rule echo_run) (simp_all add: echo_request_def)
  from handle_frontend_request_safe [OF lib inv run] run show ?thesis by simp
qed

end
