(* ===== verification/Vfs_Files.thy ===== *)
theory Vfs_Files
  imports Wrapper_Safety
begin

text \<open>
  The files of the VFS plugin (\<open>src/lib/vfs/cbe/vfs.cc\<close>): \<open>data\<close> of a snapshot and the control
  files \<open>extend\<close>, \<open>rekey\<close>, \<open>create_snapshot\<close> and \<open>discard_snapshot\<close>.

  Each operation of a handle takes the wrapper and returns it with the VFS result; an output
  count that the code does not assign is \<open>None\<close>. Genode's parsers of numbers, Booleans and
  argument strings are fields of \<open>parsers\<close>.
\<close>

section \<open>The data file\<close>

text \<open>A handle is known by its identity, its seek position and the snapshot it shows.\<close>

record data_handle =
  dh_id :: nat
  dh_seek :: u64
  dh_snap_id :: u32

definition data_read ::
  "('l, 'f) world \<Rightarrow> data_handle \<Rightarrow> u64 \<Rightarrow> u64 \<Rightarrow> ('l, 'f) wrapper
    \<Rightarrow> (('l, 'f) wrapper \<times> read_result \<times> u64 option) run" where
  "data_read E h dst count w =
     (let start =
        (if fr_state (w_frontend w) = F_NONE then
           bind_exn (wrapper_client_request_acceptable E w) (\<lambda>acceptable.
             if \<not> acceptable then Inr (w, Some READ_QUEUED)
             else
               (case submit_frontend_request w (dh_seek h) dst count READ (dh_snap_id h) of
                  (w1, accepted) \<Rightarrow> Inr (w1, if accepted then None else Some READ_ERR_IO)))
         else Inr (w, None)) in
      bind_run (Some start) (\<lambda>(w1, early).
        case early of
          Some res \<Rightarrow> Some (Inr (w1, res, None))
        | None \<Rightarrow>
            bind_run (handle_frontend_request E w1) (\<lambda>w2.
              Some (Inr
                (case fr_state (w_frontend w2) of
                   F_PENDING \<Rightarrow> (enqueue_handle (dh_id h) w2, READ_QUEUED, None)
                 | F_IN_PROGRESS \<Rightarrow> (enqueue_handle (dh_id h) w2, READ_QUEUED, None)
                 | F_COMPLETE \<Rightarrow> (ack_frontend_request w2, READ_OK, Some (fr_count (w_frontend w2)))
                 | F_ERROR_EOF \<Rightarrow> (ack_frontend_request w2, READ_OK, Some 0)
                 | F_ERROR \<Rightarrow> (ack_frontend_request w2, READ_ERR_IO, Some 0)
                 | F_NONE \<Rightarrow> (w2, READ_ERR_IO, None))))))"

definition data_write ::
  "('l, 'f) world \<Rightarrow> data_handle \<Rightarrow> u64 \<Rightarrow> u64 \<Rightarrow> ('l, 'f) wrapper
    \<Rightarrow> (('l, 'f) wrapper \<times> write_outcome \<times> u64 option) run" where
  "data_write E h src count w =
     (let start =
        (if fr_state (w_frontend w) = F_NONE then
           bind_exn (wrapper_client_request_acceptable E w) (\<lambda>acceptable.
             if \<not> acceptable then Inr (w, Some Insufficient_buffer)
             else
               (case submit_frontend_request w (dh_seek h) src count WRITE (dh_snap_id h) of
                  (w1, accepted) \<Rightarrow> Inr (w1, if accepted then None else Some (Wrote WRITE_ERR_IO))))
         else Inr (w, None)) in
      bind_run (Some start) (\<lambda>(w1, early).
        case early of
          Some res \<Rightarrow> Some (Inr (w1, res, None))
        | None \<Rightarrow>
            bind_run (handle_frontend_request E w1) (\<lambda>w2.
              Some (Inr
                (case fr_state (w_frontend w2) of
                   F_PENDING \<Rightarrow> (enqueue_handle (dh_id h) w2, Insufficient_buffer, None)
                 | F_IN_PROGRESS \<Rightarrow> (enqueue_handle (dh_id h) w2, Insufficient_buffer, None)
                 | F_COMPLETE \<Rightarrow> (ack_frontend_request w2, Wrote WRITE_OK, Some (fr_count (w_frontend w2)))
                 | F_ERROR_EOF \<Rightarrow> (ack_frontend_request w2, Wrote WRITE_OK, Some 0)
                 | F_ERROR \<Rightarrow> (ack_frontend_request w2, Wrote WRITE_ERR_IO, Some 0)
                 | F_NONE \<Rightarrow> (w2, Wrote WRITE_ERR_IO, None))))))"

definition data_sync ::
  "('l, 'f) world \<Rightarrow> data_handle \<Rightarrow> ('l, 'f) wrapper \<Rightarrow> (('l, 'f) wrapper \<times> sync_result) run" where
  "data_sync E h w =
     (let start =
        (if fr_state (w_frontend w) = F_NONE then
           bind_exn (wrapper_client_request_acceptable E w) (\<lambda>acceptable.
             if \<not> acceptable then Inr (w, Some SYNC_QUEUED)
             else
               (case submit_frontend_request w (dh_seek h) 0 0 SYNC 0 of
                  (w1, accepted) \<Rightarrow> Inr (w1, if accepted then None else Some SYNC_ERR_INVALID)))
         else Inr (w, None)) in
      bind_run (Some start) (\<lambda>(w1, early).
        case early of
          Some res \<Rightarrow> Some (Inr (w1, res))
        | None \<Rightarrow>
            bind_run (handle_frontend_request E w1) (\<lambda>w2.
              Some (Inr
                (case fr_state (w_frontend w2) of
                   F_PENDING \<Rightarrow> (enqueue_handle (dh_id h) w2, SYNC_QUEUED)
                 | F_IN_PROGRESS \<Rightarrow> (enqueue_handle (dh_id h) w2, SYNC_QUEUED)
                 | F_COMPLETE \<Rightarrow> (ack_frontend_request w2, SYNC_OK)
                 | F_ERROR \<Rightarrow> (ack_frontend_request w2, SYNC_ERR_INVALID)
                 | F_ERROR_EOF \<Rightarrow> (w2, SYNC_ERR_INVALID)
                 | F_NONE \<Rightarrow> (w2, SYNC_ERR_INVALID))))))"

text \<open>
  \<open>single_stat\<close> is the result of the base class; its size is replaced. \<open>None\<close> is
  \<open>STAT_ERR_NO_ENTRY\<close>.
\<close>

definition data_stat :: "('l, 'f) world \<Rightarrow> ('l, 'f) wrapper \<Rightarrow> u64 option" where
  "data_stat E w =
     (case wrapper_cbe w of
        Inl e \<Rightarrow> None
      | Inr l \<Rightarrow> Some ((max_vba (world_lib E) l + 1) * BLOCK_SIZE))"

datatype open_result = OPEN_OK | OPEN_ERR_UNACCESSIBLE | OPEN_ERR_OUT_OF_RAM | OPEN_ERR_OUT_OF_CAPS

definition data_open ::
  "bool \<Rightarrow> nat \<Rightarrow> u32 \<Rightarrow> ('l, 'f) wrapper \<Rightarrow> open_result \<times> data_handle option" where
  "data_open single_file handle snap_id w =
     (if \<not> single_file then (OPEN_ERR_UNACCESSIBLE, None)
      else
        (case wrapper_cbe w of
           Inl e \<Rightarrow> (OPEN_ERR_UNACCESSIBLE, None)
         | Inr l \<Rightarrow> (OPEN_OK, Some \<lparr> dh_id = handle, dh_seek = 0, dh_snap_id = snap_id \<rparr>)))"

section \<open>The control files\<close>

text \<open>
  \<open>copy_cstring\<close> writes at most one byte less than the size and a terminating zero byte.
\<close>

definition copy_cstring :: "string \<Rightarrow> nat \<Rightarrow> bytes" where
  "copy_cstring s n = (if n = 0 then [] else map of_char (take (n - 1) s) @ [0])"

record parsers =
  parse_bool :: "string \<Rightarrow> bool"
  parse_u64 :: "string \<Rightarrow> u64"
  parse_u32 :: "string \<Rightarrow> u32"
  arg_string :: "string \<Rightarrow> string \<Rightarrow> string"
  arg_ulong :: "string \<Rightarrow> string \<Rightarrow> u64"

text \<open>
  The reply of a status file to a read: the bytes stored at the destination and the output count.
  The reply is a string of at most 31 characters.
\<close>

definition status_read :: "string \<Rightarrow> u64 \<Rightarrow> bytes \<times> u64" where
  "status_read reply count =
     (let result = take 31 reply; length_without_nul = of_nat (length result) :: u64
      in (copy_cstring result (unat count),
          if count > length_without_nul - 1 then length_without_nul else count))"

definition result_text :: "bool \<Rightarrow> background_result \<Rightarrow> string" where
  "result_text in_progress outcome =
     (let last_result = (\<not> in_progress \<and> outcome \<noteq> R_NONE); success = (outcome = R_SUCCESS)
      in if last_result then (if success then ''success'' else ''failed'') else ''none'')"

definition extend_reply :: "extending \<Rightarrow> string" where
  "extend_reply exp =
     extending_state_to_cstring (ex_state exp) @ '' last-result:''
     @ result_text (ex_state exp = XS_IN_PROGRESS) (ex_last_result exp) @ [CHR 0x0A]"

definition extend_read ::
  "u64 \<Rightarrow> u64 \<Rightarrow> u64 \<Rightarrow> ('l, 'f) wrapper \<Rightarrow> ('l, 'f) wrapper \<times> read_result \<times> u64" where
  "extend_read seek dst count w =
     (if seek \<noteq> 0 then (w, READ_OK, 0)
      else
        (case status_read (extend_reply (w_extend_obj w)) count of (bs, out) \<Rightarrow>
           (w\<lparr>w_memory := mem_write (w_memory w) dst bs\<rparr>, READ_OK, out)))"

text \<open>The value of the argument \<open>tree\<close> goes into a buffer of 16 characters.\<close>

definition extend_write ::
  "('l, 'f) world \<Rightarrow> parsers \<Rightarrow> string \<Rightarrow> u64 \<Rightarrow> ('l, 'f) wrapper
    \<Rightarrow> (('l, 'f) wrapper \<times> write_result \<times> u64 option) run" where
  "extend_write E P src count w =
     (if ex_state (w_extend_obj w) \<noteq> XS_IDLE then Some (Inr (w, WRITE_ERR_IO, None))
      else
        (let type = string_to_type (take 15 (arg_string P src ''tree'')) in
         if type = XT_INVALID then Some (Inr (w, WRITE_ERR_IO, None))
         else
           (let blocks = arg_ulong P src ''blocks'' in
            if blocks = 0 then Some (Inr (w, WRITE_ERR_IO, None))
            else
              bind_run (start_extending E type blocks w) (\<lambda>(w1, okay).
                Some (Inr (if \<not> okay then (w1, WRITE_ERR_IO, None)
                           else (w1, WRITE_OK, Some count)))))))"

definition rekey_reply :: "rekeying \<Rightarrow> string" where
  "rekey_reply rkp =
     rekeying_state_to_cstring (rk_state rkp) @ '' last-result:''
     @ result_text (rk_state rkp = RS_IN_PROGRESS) (rk_last_result rkp) @ [CHR 0x0A]"

definition rekey_read ::
  "u64 \<Rightarrow> u64 \<Rightarrow> u64 \<Rightarrow> ('l, 'f) wrapper \<Rightarrow> ('l, 'f) wrapper \<times> read_result \<times> u64" where
  "rekey_read seek dst count w =
     (if seek \<noteq> 0 then (w, READ_OK, 0)
      else
        (case status_read (rekey_reply (w_rekey_obj w)) count of (bs, out) \<Rightarrow>
           (w\<lparr>w_memory := mem_write (w_memory w) dst bs\<rparr>, READ_OK, out)))"

definition rekey_write ::
  "('l, 'f) world \<Rightarrow> parsers \<Rightarrow> string \<Rightarrow> u64 \<Rightarrow> ('l, 'f) wrapper
    \<Rightarrow> (('l, 'f) wrapper \<times> write_result \<times> u64 option) run" where
  "rekey_write E P src count w =
     (if rk_state (w_rekey_obj w) \<noteq> RS_IDLE then Some (Inr (w, WRITE_ERR_IO, None))
      else if \<not> parse_bool P src then Some (Inr (w, WRITE_ERR_IO, None))
      else
        bind_run (start_rekeying E w) (\<lambda>(w1, okay).
          Some (Inr (if \<not> okay then (w1, WRITE_ERR_IO, None) else (w1, WRITE_OK, Some count)))))"

definition create_snapshot_write ::
  "('l, 'f) world \<Rightarrow> parsers \<Rightarrow> string \<Rightarrow> u64 \<Rightarrow> ('l, 'f) wrapper
    \<Rightarrow> (('l, 'f) wrapper \<times> write_result \<times> u64 option) run" where
  "create_snapshot_write E P src count w =
     (if \<not> parse_bool P src then Some (Inr (w, WRITE_ERR_IO, None))
      else
        bind_run (create_snapshot E w) (\<lambda>(w1, okay).
          Some (Inr (if \<not> okay then (w1, WRITE_OK, Some 0) else (w1, WRITE_OK, Some count)))))"

definition discard_snapshot_write ::
  "('l, 'f) world \<Rightarrow> parsers \<Rightarrow> string \<Rightarrow> u64 \<Rightarrow> ('l, 'f) wrapper
    \<Rightarrow> (('l, 'f) wrapper \<times> write_result \<times> u64 option) run" where
  "discard_snapshot_write E P src count w =
     (let ident = parse_u64 P src in
      if ident = 0 then Some (Inr (w, WRITE_ERR_IO, Some 0))
      else
        bind_run (discard_snapshot E ident w) (\<lambda>(w1, okay).
          Some (Inr (if \<not> okay then (w1, WRITE_OK, Some 0) else (w1, WRITE_ERR_IO, Some 0)))))"

text \<open>The two snapshot files cannot be read.\<close>

definition create_snapshot_read :: "read_result" where
  "create_snapshot_read = READ_ERR_IO"

definition discard_snapshot_read :: "read_result" where
  "discard_snapshot_read = READ_ERR_IO"

text \<open>
  The four control files open alike: \<open>allocate\<close> is the outcome of the allocation of the handle.
\<close>

definition control_open :: "bool \<Rightarrow> open_result \<Rightarrow> open_result" where
  "control_open single_file allocate =
     (if \<not> single_file then OPEN_ERR_UNACCESSIBLE else allocate)"

datatype ftruncate_result = FTRUNCATE_OK

definition file_ftruncate :: "u64 \<Rightarrow> ftruncate_result" where
  "file_ftruncate len = FTRUNCATE_OK"

section \<open>Properties\<close>

lemma idle_front:
  "frontend_inv n w \<Longrightarrow> fr_state (w_frontend w) \<noteq> F_IN_PROGRESS \<Longrightarrow>
   \<not> helper_active w \<and> n (w_cbe w) = 0"
  by (auto simp: inv_defs)

lemma data_read_start:
  assumes "frontend_inv n w" "w_cbe_constructed w"
    and "data_read E h dst count w = Some (Inr (w', res, out))" "res \<noteq> READ_QUEUED"
  shows "\<exists>w1 w2. frontend_inv n w1 \<and> handle_frontend_request E w1 = Some (Inr w2)
     \<and> (w', res, out) =
        (case fr_state (w_frontend w2) of
           F_PENDING \<Rightarrow> (enqueue_handle (dh_id h) w2, READ_QUEUED, None)
         | F_IN_PROGRESS \<Rightarrow> (enqueue_handle (dh_id h) w2, READ_QUEUED, None)
         | F_COMPLETE \<Rightarrow> (ack_frontend_request w2, READ_OK, Some (fr_count (w_frontend w2)))
         | F_ERROR_EOF \<Rightarrow> (ack_frontend_request w2, READ_OK, Some 0)
         | F_ERROR \<Rightarrow> (ack_frontend_request w2, READ_ERR_IO, Some 0)
         | F_NONE \<Rightarrow> (w2, READ_ERR_IO, None))"
proof (cases "fr_state (w_frontend w) = F_NONE")
  case True
  obtain w1 accepted where sub: "submit_frontend_request w (dh_seek h) dst count READ (dh_snap_id h) = (w1, accepted)"
    by fastforce
  have acc: accepted
    using sub True by (auto simp: submit_frontend_request_def Let_def)
  have "frontend_inv n w1"
    using submit_frontend_request_inv [OF assms(1) _ sub] by simp
  moreover obtain w2 where "handle_frontend_request E w1 = Some (Inr w2)"
    using assms(2-4) True sub acc
    by (auto simp: data_read_def wrapper_client_request_acceptable_def split: if_splits elim!: bind_run_InrE)
  ultimately show ?thesis
    using assms(2-4) True sub acc
    by (auto simp: data_read_def wrapper_client_request_acceptable_def split: if_splits)
next
  case False
  obtain w2 where "handle_frontend_request E w = Some (Inr w2)"
    using assms(3) False by (auto simp: data_read_def elim!: bind_run_InrE)
  with assms(1,3) False show ?thesis by (auto simp: data_read_def)
qed

theorem data_read_leaves_no_request:
  assumes "library_contract (world_lib E) n" "frontend_inv n w" "w_cbe_constructed w"
    and "data_read E h dst count w = Some (Inr (w', res, out))" "res \<noteq> READ_QUEUED"
  shows "fr_state (w_frontend w') = F_NONE \<and> \<not> helper_active w' \<and> n (w_cbe w') = 0 \<and> frontend_inv n w'"
proof -
  obtain w1 w2 where w1: "frontend_inv n w1" "handle_frontend_request E w1 = Some (Inr w2)"
    and res: "(w', res, out) =
        (case fr_state (w_frontend w2) of
           F_PENDING \<Rightarrow> (enqueue_handle (dh_id h) w2, READ_QUEUED, None)
         | F_IN_PROGRESS \<Rightarrow> (enqueue_handle (dh_id h) w2, READ_QUEUED, None)
         | F_COMPLETE \<Rightarrow> (ack_frontend_request w2, READ_OK, Some (fr_count (w_frontend w2)))
         | F_ERROR_EOF \<Rightarrow> (ack_frontend_request w2, READ_OK, Some 0)
         | F_ERROR \<Rightarrow> (ack_frontend_request w2, READ_ERR_IO, Some 0)
         | F_NONE \<Rightarrow> (w2, READ_ERR_IO, None))"
    using data_read_start [OF assms(2-5)] by blast
  have w2: "frontend_inv n w2"
    using handle_frontend_request_inv [OF assms(1) w1] .
  have stopped: "fr_state (w_frontend w2) \<noteq> F_IN_PROGRESS"
    using res assms(5) by (cases "fr_state (w_frontend w2)") simp_all
  have "fr_state (w_frontend w') = F_NONE \<and> frontend_inv n w'"
    using res assms(5) ack_frontend_request_inv [OF w2 stopped] w2
    by (cases "fr_state (w_frontend w2)") (simp_all add: ack_frontend_request_def)
  with idle_front [of n w'] show ?thesis by simp
qed

text \<open>
  C28. When the front-end request has completed without success, read, write and sync of the
  data file still report success, with the full count, and acknowledge it.
\<close>

theorem data_read_hides_failure:
  assumes "fr_state (w_frontend w) \<noteq> F_NONE" "handle_frontend_request E w = Some (Inr w2)"
    and "fr_state (w_frontend w2) = F_COMPLETE" "\<not> req_success (fr_cbe_request (w_frontend w2))"
  shows "data_read E h dst count w
       = Some (Inr (ack_frontend_request w2, READ_OK, Some (fr_count (w_frontend w2))))
     \<and> data_write E h dst count w
       = Some (Inr (ack_frontend_request w2, Wrote WRITE_OK, Some (fr_count (w_frontend w2))))
     \<and> data_sync E h w = Some (Inr (ack_frontend_request w2, SYNC_OK))"
  using assms by (simp add: data_read_def data_write_def data_sync_def)

text \<open>
  The handles of the data file share the one front-end request of the wrapper. A call that finds it
  busy continues that request, whichever call submitted it: position, snapshot, buffer and length of
  its own are not looked at, so it can take the result of another handle's call.
\<close>

theorem busy_call_ignores_its_arguments:
  assumes "fr_state (w_frontend w) \<noteq> F_NONE" "dh_id h' = dh_id h"
  shows "data_read E h dst count w = data_read E h' dst' count' w"
    and "data_write E h dst count w = data_write E h' dst' count' w"
    and "data_sync E h w = data_sync E h' w"
  unfolding data_read_def data_write_def data_sync_def assms(2) by (simp_all add: assms(1))

lemma length_status_replies:
  "length (extend_reply x) \<le> 31" "length (rekey_reply r) \<le> 31"
proof -
  show "length (extend_reply x) \<le> 31"
    by (cases "ex_state x"; cases "ex_last_result x") (simp_all add: extend_reply_def result_text_def)
  show "length (rekey_reply r) \<le> 31"
    by (cases "rk_state r"; cases "rk_last_result r") (simp_all add: rekey_reply_def result_text_def)
qed

lemma extend_reply_pos: "0 < length (extend_reply x)"
  by (simp add: extend_reply_def)

theorem extend_read_reply:
  assumes "unat count > length (extend_reply (w_extend_obj w))"
    and "extend_read 0 dst count w = (w', res, out)"
  shows "res = READ_OK \<and> unat out = length (extend_reply (w_extend_obj w))
     \<and> mem_read (w_memory w') dst (unat out) = map of_char (extend_reply (w_extend_obj w))"
proof -
  let ?r = "extend_reply (w_extend_obj w)"
  have r: "take 31 ?r = ?r" "length ?r < 2 ^ 64" using length_status_replies(1) [of "w_extend_obj w"] by simp_all
  have len: "unat (of_nat (length ?r) :: u64) = length ?r" using r(2) by (simp add: unat_of_nat)
  have "(of_nat (length ?r) :: u64) - 1 < count"
  proof -
    have "(of_nat (length ?r) :: u64) \<noteq> 0"
      using len extend_reply_pos [of "w_extend_obj w"] by auto
    from unat_minus_one [OF this] len assms(1) show ?thesis by (simp add: word_less_nat_alt)
  qed
  then have out: "out = of_nat (length ?r)" and res: "res = READ_OK"
    and w': "w_memory w' = mem_write (w_memory w) dst (map of_char ?r @ [0])"
    using assms(2) r assms(1)
    by (auto simp: extend_read_def status_read_def Let_def copy_cstring_def)
  have "mem_read (w_memory w') dst (length (map of_char ?r @ [0 :: u8])) = map of_char ?r @ [0]"
    unfolding w' by (rule mem_read_write) (use length_status_replies(1) [of "w_extend_obj w"] in simp)
  then have "mem_read (w_memory w') dst (Suc (length ?r)) = map of_char ?r @ [0]" by simp
  then have "mem_read (w_memory w') dst (length ?r) = map of_char ?r"
    by (simp add: mem_read_def)
  with out res len show ?thesis by simp
qed

theorem extend_read_loses_last_byte:
  assumes "unat count = length (extend_reply (w_extend_obj w))"
  shows "\<exists>bs. status_read (extend_reply (w_extend_obj w)) count = (bs, count)
     \<and> length bs = unat count \<and> last bs = 0 \<and> last (extend_reply (w_extend_obj w)) = CHR 0x0A"
proof -
  let ?r = "extend_reply (w_extend_obj w)"
  have r: "take 31 ?r = ?r" using length_status_replies(1) [of "w_extend_obj w"] by simp
  have count: "of_nat (length ?r) = count" using assms by (metis of_nat_unat ucast_id)
  have pos: "0 < unat count" using assms extend_reply_pos [of "w_extend_obj w"] by simp
  have "last ?r = CHR 0x0A" by (simp add: extend_reply_def)
  with r count pos assms show ?thesis
    by (auto simp: status_read_def Let_def copy_cstring_def)
qed

text \<open>
  C37. A write to the discard-snapshot file with identifier 0 is answered with an I/O error, and
  nothing is done. With any other identifier the same discard is tried, whatever the identifier,
  and the answer is an I/O error when the discard was started and success, with a count of 0,
  when it was not.
\<close>

theorem discard_snapshot_write_behaviour:
  assumes "discard_snapshot E 0 w = Some (Inr (w1, okay))"
  shows "discard_snapshot_write E P src count w =
     Some (Inr (if parse_u64 P src = 0 then (w, WRITE_ERR_IO, Some 0)
                else (w1, if okay then WRITE_ERR_IO else WRITE_OK, Some 0)))"
proof -
  have "discard_snapshot E (parse_u64 P src) w = discard_snapshot E 0 w"
    by (simp add: discard_snapshot_def)
  with assms show ?thesis by (simp add: discard_snapshot_write_def Let_def)
qed

section \<open>Examples\<close>

definition example_handle :: data_handle where
  "example_handle = \<lparr> dh_id = 1, dh_seek = 0, dh_snap_id = 0 \<rparr>"

lemma example_read:
  obtains w' where "data_read echo_world example_handle 8192 4096 (echo_wrapper frontend_init)
      = Some (Inr (w', READ_OK, Some 4096))"
proof -
  have "submit_frontend_request (echo_wrapper frontend_init) 0 8192 4096 READ 0
      = (echo_wrapper echo_request, True)"
    by (simp add: submit_frontend_request_def Let_def unaligned_request_def BLOCK_SIZE_def
        echo_request_def frontend_init_def)
  moreover have "handle_frontend_request echo_world (echo_wrapper echo_request)
      = Some (Inr (echo_wrapper (echo_request\<lparr>fr_state := F_COMPLETE,
          fr_cbe_request := set_success (fr_cbe_request echo_request) True\<rparr>)))"
    by (rule echo_run) (simp_all add: echo_request_def)
  ultimately show ?thesis
    using that
    by (simp add: data_read_def example_handle_def wrapper_client_request_acceptable_def echo_request_def
        echo_library_def null_library_def)
qed

theorem data_read_leaves_no_request_witness:
  "\<exists>w'. data_read echo_world example_handle 8192 4096 (echo_wrapper frontend_init)
      = Some (Inr (w', READ_OK, Some 4096))
     \<and> fr_state (w_frontend w') = F_NONE \<and> w_cbe w' = 0"
proof -
  have lib: "library_contract (world_lib echo_world) id" by (simp add: echo_contract)
  have inv: "frontend_inv id (echo_wrapper frontend_init)" by (simp add: inv_defs)
  obtain w' where read: "data_read echo_world example_handle 8192 4096 (echo_wrapper frontend_init)
      = Some (Inr (w', READ_OK, Some 4096))" by (rule example_read)
  from data_read_leaves_no_request [OF lib inv _ read] read show ?thesis by simp
qed

theorem data_read_hides_failure_witness:
  "\<exists>w'. data_read echo_world example_handle 8192 4096
      (echo_wrapper (frontend_init\<lparr>fr_state := F_COMPLETE, fr_count := 4096\<rparr>))
     = Some (Inr (w', READ_OK, Some 4096))"
  using data_read_hides_failure [OF _ echo_quiet, of "echo_wrapper (frontend_init\<lparr>fr_state := F_COMPLETE, fr_count := 4096\<rparr>)"
      example_handle 8192 4096]
  by (simp add: frontend_init_def invalid_request_def)

lemma example_reply:
  "extend_reply (w_extend_obj (example_wrapper l f)) = ''unknown last-result:none'' @ [CHR 0x0A]"
  by (simp add: example_wrapper_def wrapper_members_def extend_reply_def result_text_def)

theorem extend_read_reply_witness:
  "\<exists>w'. extend_read 0 8192 100 (example_wrapper () ()) = (w', READ_OK, 25)
     \<and> mem_read (w_memory w') 8192 25 = map of_char (''unknown last-result:none'' @ [CHR 0x0A])"
proof -
  obtain w' res out where read: "extend_read 0 8192 100 (example_wrapper () ()) = (w', res, out)"
    by (cases "extend_read 0 8192 100 (example_wrapper () ())")
  have len: "length (extend_reply (w_extend_obj (example_wrapper () ()))) = 25"
    by (simp add: example_reply)
  note reply = extend_read_reply [OF _ read, unfolded len]
  have res: "res = READ_OK" using reply by simp
  have "unat out = unat (25 :: u64)" using reply by simp
  then have out: "out = 25" by (simp only: word_unat_eq_iff)
  have "mem_read (w_memory w') 8192 25 = map of_char (''unknown last-result:none'' @ [CHR 0x0A])"
    using reply by (auto simp: example_reply)
  with read res out show ?thesis by simp
qed

theorem extend_read_loses_last_byte_witness:
  "\<exists>bs. status_read (''unknown last-result:none'' @ [CHR 0x0A]) 25 = (bs, 25) \<and> last bs = 0"
  using extend_read_loses_last_byte [of 25 "example_wrapper () ()"]
  by (auto simp: example_reply)

theorem discard_snapshot_write_behaviour_witness:
  "\<exists>w1. discard_snapshot_write echo_world
      \<lparr> parse_bool = (\<lambda>s. False), parse_u64 = (\<lambda>s. 7), parse_u32 = (\<lambda>s. 7), arg_string = (\<lambda>s name. s),
        arg_ulong = (\<lambda>s name. 0) \<rparr> ''7'' 1 (echo_wrapper frontend_init) = Some (Inr (w1, WRITE_ERR_IO, Some 0))
     \<and> valid (fr_cbe_request (w_discard_snapshot w1))"
proof -
  let ?P = "\<lparr> parse_bool = (\<lambda>s. False), parse_u64 = (\<lambda>s. 7), parse_u32 = (\<lambda>s. 7),
        arg_string = (\<lambda>s name. s), arg_ulong = (\<lambda>s name. 0) \<rparr>"
  let ?w = "echo_wrapper frontend_init"
  let ?r = "make_request DISCARD_SNAPSHOT False 0 0 1 0 0"
  let ?w1 = "?w\<lparr>w_discard_snapshot := (w_discard_snapshot ?w)\<lparr>fr_cbe_request := ?r, fr_state := F_IN_PROGRESS\<rparr>,
                w_cbe := 0\<rparr>"
  have "w_discard_snapshot ?w = frontend_init"
    by (simp add: echo_wrapper_def example_wrapper_def wrapper_members_def)
  moreover have "handle_frontend_request echo_world ?w1 = Some (Inr ?w1)"
    by (rule echo_quiet) (simp add: echo_idle_def)
  moreover have "client_request_acceptable echo_library 0" "submit_client_request echo_library 0 ?r 0 = 0"
    by (simp_all add: echo_library_def null_library_def client_op_def)
  ultimately have "discard_snapshot echo_world 0 ?w = Some (Inr (?w1, True))"
    by (simp add: discard_snapshot_def ensure_cbe_def Let_def frontend_init_def)
  from discard_snapshot_write_behaviour [where P = ?P and src = "''7''" and count = 1, OF this]
  show ?thesis by simp
qed

end
