(* ===== verification/Wrapper_Phases.thy ===== *)
theory Wrapper_Phases
  imports Vfs_Files
begin

text \<open>
  An abstract machine for the front end of the wrapper, and the proof that the handlers of
  \<open>Vfs_Wrapper\<close> refine it.

  \<^item> A \<open>phase\<close> is what the states of the front-end request and of the two helper requests mean
    together; \<open>phase_of\<close> reads it off a wrapper.
  \<^item> \<open>drive\<close> is the step relation of the handlers, \<open>client\<close> that of the file systems, which
    submit and acknowledge requests.
  \<^item> Every run of the handlers is a sequence of \<open>drive\<close> steps. Each of these moves the request
    forward in a fixed order of ranks, so a request takes at most six of them, and none loses it.
\<close>

section \<open>The machine\<close>

datatype phase =
    Idle
  | Waiting
  | Running
  | Block_wanted operation
  | Block_reading operation
  | Block_read operation
  | Block_merged
  | Block_writing
  | Block_written
  | Finished
  | Rejected
  | Broken

inductive drive :: "phase \<Rightarrow> phase \<Rightarrow> bool" where
  reject: "drive Waiting Rejected"
| send: "drive Waiting Running"
| complete: "drive Running Finished"
| send_read: "drive (Block_wanted op) (Block_reading op)"
| block_read: "drive (Block_reading op) (Block_read op)"
| deliver: "drive (Block_read READ) Finished"
| merge: "drive (Block_read WRITE) Block_merged"
| send_write: "drive Block_merged Block_writing"
| block_written: "drive Block_writing Block_written"
| finish: "drive Block_written Finished"
| fail_read: "drive (Block_reading op) Finished"
| fail_write: "drive Block_writing Finished"

inductive client :: "phase \<Rightarrow> phase \<Rightarrow> bool" where
  whole: "client Idle Waiting"
| part: "op = READ \<or> op = WRITE \<Longrightarrow> client Idle (Block_wanted op)"
| ack: "p = Finished \<or> p = Rejected \<Longrightarrow> client p Idle"

inductive_simps drive_from [simp]:
  "drive Idle q" "drive Finished q" "drive Rejected q" "drive Broken q"

inductive_cases driveE: "drive p q"

fun rank :: "phase \<Rightarrow> nat" where
  "rank Idle = 0"
| "rank Waiting = 1"
| "rank (Block_wanted op) = 1"
| "rank Running = 2"
| "rank (Block_reading op) = 2"
| "rank (Block_read op) = 3"
| "rank Block_merged = 4"
| "rank Block_writing = 5"
| "rank Block_written = 6"
| "rank Finished = 7"
| "rank Rejected = 7"
| "rank Broken = 7"

lemma drive_rank: "drive p q \<Longrightarrow> 0 < rank p \<and> rank p < rank q"
  by (auto elim!: driveE)

lemma drives_rank: "drive\<^sup>*\<^sup>* p q \<Longrightarrow> rank p \<le> rank q \<and> (q = Idle \<longrightarrow> p = Idle)"
proof (induction rule: rtranclp_induct)
  case (step q q')
  from drive_rank [OF step.hyps(2)] step.IH show ?case by auto
qed simp

text \<open>No step leads to or from the phases in which nothing is under way.\<close>

lemma drives_ends:
  assumes "drive\<^sup>*\<^sup>* p q"
  shows "rank p \<le> rank q" "q = Idle \<longleftrightarrow> p = Idle" "q = Broken \<longleftrightarrow> p = Broken"
proof -
  have idle: "drive\<^sup>*\<^sup>* Idle r \<Longrightarrow> r = Idle" for r by (erule converse_rtranclpE) auto
  have broken: "drive\<^sup>*\<^sup>* Broken r \<Longrightarrow> r = Broken" for r by (erule converse_rtranclpE) auto
  have into: "drive\<^sup>*\<^sup>* r Broken \<Longrightarrow> r = Broken" for r
    by (erule rtranclp.cases) (auto elim: driveE)
  show "rank p \<le> rank q" using drives_rank [OF assms] by simp
  show "q = Idle \<longleftrightarrow> p = Idle" using assms drives_rank [OF assms] idle by auto
  show "q = Broken \<longleftrightarrow> p = Broken" using assms broken into by auto
qed

definition phase_view :: "frontend_state \<Rightarrow> helper_state \<Rightarrow> helper_state \<Rightarrow> operation \<Rightarrow> phase" where
  "phase_view fs hr hw op =
     (case (fs, hr, hw) of
        (F_NONE, H_NONE, H_NONE) \<Rightarrow> Idle
      | (F_PENDING, H_NONE, H_NONE) \<Rightarrow> Waiting
      | (F_IN_PROGRESS, H_NONE, H_NONE) \<Rightarrow> Running
      | (F_IN_PROGRESS, H_PENDING, H_NONE) \<Rightarrow> Block_wanted op
      | (F_IN_PROGRESS, H_IN_PROGRESS, H_NONE) \<Rightarrow> Block_reading op
      | (F_IN_PROGRESS, H_COMPLETE, H_NONE) \<Rightarrow> Block_read op
      | (F_IN_PROGRESS, H_NONE, H_PENDING) \<Rightarrow> Block_merged
      | (F_IN_PROGRESS, H_NONE, H_IN_PROGRESS) \<Rightarrow> Block_writing
      | (F_IN_PROGRESS, H_NONE, H_COMPLETE) \<Rightarrow> Block_written
      | (F_COMPLETE, H_NONE, H_NONE) \<Rightarrow> Finished
      | (F_ERROR_EOF, H_NONE, H_NONE) \<Rightarrow> Rejected
      | _ \<Rightarrow> Broken)"

definition phase_of :: "('l, 'f) wrapper \<Rightarrow> phase" where
  "phase_of w =
     phase_view (fr_state (w_frontend w)) (h_state (w_helper_read w)) (h_state (w_helper_write w))
       (req_operation (fr_cbe_request (w_frontend w)))"

lemmas phase_defs = phase_of_def phase_view_def

lemma phase_of_cong:
  assumes "fr_state (w_frontend w') = fr_state (w_frontend w)"
    "req_operation (fr_cbe_request (w_frontend w')) = req_operation (fr_cbe_request (w_frontend w))"
    "h_state (w_helper_read w') = h_state (w_helper_read w)"
    "h_state (w_helper_write w') = h_state (w_helper_write w)"
  shows "phase_of w' = phase_of w"
  using assms by (simp only: phase_of_def)

section \<open>The steps of the front-end handler\<close>

text \<open>\<open>drives n p w\<close>: the invariant holds and the phase has been reached from \<open>p\<close>.\<close>

definition drives :: "('l \<Rightarrow> nat) \<Rightarrow> phase \<Rightarrow> ('l, 'f) wrapper \<Rightarrow> bool" where
  "drives n p w \<longleftrightarrow> frontend_inv n w \<and> drive\<^sup>*\<^sup>* p (phase_of w)"

lemma drives_step:
  "drives n p w \<Longrightarrow> frontend_inv n w' \<Longrightarrow> phase_of w' = phase_of w \<or> drive (phase_of w) (phase_of w')
   \<Longrightarrow> drives n p w'"
  by (auto simp: drives_def)

lemma drives_steps:
  "drives n p w \<Longrightarrow> frontend_inv n w' \<Longrightarrow> drive\<^sup>*\<^sup>* (phase_of w) (phase_of w') \<Longrightarrow> drives n p w'"
  by (auto simp: drives_def)

lemma submit_helper_requests_phase:
  assumes "frontend_inv n w"
  shows "phase_of (submit_helper_requests E w) = phase_of w
     \<or> drive (phase_of w) (phase_of (submit_helper_requests E w))"
  using assms
  by (cases "h_state (w_helper_read w)"; cases "h_state (w_helper_write w)")
    (auto simp: submit_helper_requests_def Let_def phase_defs inv_defs intro: drive.intros)

lemma submit_pending_request_phase:
  assumes "frontend_inv n w" "submit_pending_request E w = (w', q)"
  shows "phase_of w' = phase_of w \<or> drive (phase_of w) (phase_of w')"
  using assms
  by (auto simp: submit_pending_request_def Let_def phase_defs inv_defs intro: drive.intros
      split: if_splits)

lemma execute_library_phase [simp]: "phase_of (execute_library E w) = phase_of w"
  by (rule phase_of_cong) (simp_all add: execute_library_def split: prod.split)

lemma complete_request_phase:
  assumes "library_contract (world_lib E) n" "frontend_inv n w"
  shows "case complete_request E (w, p) of
      Continue (w', p') \<Rightarrow> phase_of w' = phase_of w \<or> drive (phase_of w) (phase_of w')
    | Break (w', p') \<Rightarrow> phase_of w' = phase_of w \<or> drive (phase_of w) (phase_of w')
    | Throw e \<Rightarrow> False"
proof -
  let ?r = "peek_completed_client_request (world_lib E) (w_cbe w)"
  show ?thesis
  proof (cases "client_op (req_operation ?r)")
    case True
    have ops: "req_operation ?r \<noteq> INVALID" "req_operation ?r \<noteq> REKEY"
      "req_operation ?r \<noteq> EXTEND_VBD" "req_operation ?r \<noteq> EXTEND_FT"
      "req_operation ?r \<noteq> CREATE_SNAPSHOT" "req_operation ?r \<noteq> DISCARD_SNAPSHOT"
      using True by (auto simp: client_op_def)
    note phase = frontend_inv_busy [OF assms(2) contract_peek [OF assms(1) True]]
    show ?thesis
      using phase(3) phase(1) ops
      by (elim disjE conjE)
        (auto simp: complete_request_def Let_def valid_def phase_defs set_success_def intro: drive.intros)
  next
    case False
    then show ?thesis
      by (cases "req_operation ?r")
        (auto simp: complete_request_def Let_def valid_def client_op_def phase_of_def)
  qed
qed

lemma complete_requests_drives:
  assumes "library_contract (world_lib E) n" "drives n p w" "complete_requests E w pr = Some (Inr (w', pr'))"
  shows "drives n p w'"
proof -
  let ?Q = "\<lambda>r. case r of Inl (e :: exn) \<Rightarrow> True | Inr s \<Rightarrow> drives n p (fst s)"
  have "?Q (Inr (w', pr'))"
  proof (rule run_loop_rule [where I = "\<lambda>s. drives n p (fst s)" and Q = ?Q,
        OF assms(3) [unfolded complete_requests_def]])
    show "drives n p (fst (w, pr))" using assms(2) by simp
  next
    fix s s' assume "drives n p (fst s)" "complete_request E s = Continue s'"
    then show "drives n p (fst s')"
      using complete_request_inv [OF assms(1), of "fst s" "snd s"]
        complete_request_phase [OF assms(1), of "fst s" "snd s"]
        drives_step [of n p "fst s" "fst s'"]
      by (auto simp: drives_def split: prod.splits)
  next
    fix s s' assume "drives n p (fst s)" "complete_request E s = Break s'"
    then show "?Q (Inr s')"
      using complete_request_inv [OF assms(1), of "fst s" "snd s"]
        complete_request_phase [OF assms(1), of "fst s" "snd s"]
        drives_step [of n p "fst s" "fst s'"]
      by (auto simp: drives_def split: prod.splits)
  qed simp
  then show ?thesis by simp
qed

lemma finish_helper_read_phase:
  assumes "frontend_inv n w" "finish_helper_read w pr = (w', pr')"
  shows "phase_of w' = phase_of w \<or> drive (phase_of w) (phase_of w')"
  using assms
  by (auto simp: finish_helper_read_def Let_def phase_defs inv_defs set_success_def
      intro: drive.intros split: if_splits)

lemma finish_helper_write_phase:
  assumes "frontend_inv n w" "finish_helper_write w pr = (w', pr')"
  shows "phase_of w' = phase_of w \<or> drive (phase_of w) (phase_of w')"
  using assms
  by (auto simp: finish_helper_write_def phase_defs inv_defs intro: drive.intros split: if_splits)

lemma deliver_read_data_phase:
  assumes "library_contract (world_lib E) n" "deliver_read_data E w pr = Inr (w', pr', q)"
  shows "phase_of w' = phase_of w"
proof -
  obtain r l where ready: "client_data_ready (world_lib E) (w_cbe w) = (r, l)" by fastforce
  show ?thesis
    by (rule phase_of_cong; use assms(2) ready contract_ready [OF assms(1) ready] in
        \<open>auto simp: deliver_read_data_def Let_def bind_exn_def split: if_splits prod.splits sum.splits\<close>)
qed

lemma take_write_data_phase:
  assumes "library_contract (world_lib E) n" "take_write_data E w pr = Inr (w', pr')"
  shows "phase_of w' = phase_of w"
proof -
  obtain r l where ready: "client_data_required (world_lib E) (w_cbe w) = (r, l)" by fastforce
  show ?thesis
    by (rule phase_of_cong; use assms(2) ready contract_required [OF assms(1) ready] in
        \<open>auto simp: take_write_data_def Let_def split: if_splits prod.splits\<close>)
qed

text \<open>The steps of a run of the front-end handler that returns.\<close>

lemma handle_cbe_frontendE:
  assumes "handle_cbe_frontend E w = Some (Inr (w', pr))"
  obtains (rejected) "submit_pending_request E (submit_helper_requests E w) = (w', True)"
  | (driven) w1 w3 p3 w4 p4 w5 p5 w6 p6 q where
      "submit_pending_request E (submit_helper_requests E w) = (w1, False)"
      "complete_requests E (execute_library E w1)
         (execute_progress (world_lib E) (w_cbe (execute_library E w1))) = Some (Inr (w3, p3))"
      "finish_helper_read w3 p3 = (w4, p4)" "finish_helper_write w4 p4 = (w5, p5)"
      "deliver_read_data E w5 p5 = Inr (w6, p6, q)"
      "w' = w6 \<and> pr = p6 \<or> take_write_data E w6 p6 = Inr (w', pr)"
proof -
  obtain w1 rejected where w1: "submit_pending_request E (submit_helper_requests E w) = (w1, rejected)"
    by fastforce
  show ?thesis
  proof (cases rejected)
    case True
    with assms w1 that(1) show ?thesis by (simp add: handle_cbe_frontend_def)
  next
    case False
    let ?w2 = "execute_library E w1"
    obtain w3 p3 where c: "complete_requests E ?w2 (execute_progress (world_lib E) (w_cbe ?w2)) = Some (Inr (w3, p3))"
      and rest: "(case finish_helper_read w3 p3 of (w4, p4) \<Rightarrow>
              case finish_helper_write w4 p4 of (w5, p5) \<Rightarrow>
              bind_run (Some (deliver_read_data E w5 p5)) (\<lambda>(w6, p6, returns).
                if returns then Some (Inr (w6, p6)) else Some (take_write_data E w6 p6))) = Some (Inr (w', pr))"
      using assms w1 False by (auto simp: handle_cbe_frontend_def Let_def elim!: bind_run_InrE)
    obtain w4 p4 where w4: "finish_helper_read w3 p3 = (w4, p4)" by fastforce
    obtain w5 p5 where w5: "finish_helper_write w4 p4 = (w5, p5)" by fastforce
    obtain w6 p6 q where w6: "deliver_read_data E w5 p5 = Inr (w6, p6, q)"
      and w': "(if q then Some (Inr (w6, p6)) else Some (take_write_data E w6 p6)) = Some (Inr (w', pr))"
      using rest w4 w5 by (auto elim!: bind_run_InrE)
    from w' have w7: "w' = w6 \<and> pr = p6 \<or> take_write_data E w6 p6 = Inr (w', pr)" by (simp split: if_splits)
    from w1 False have "submit_pending_request E (submit_helper_requests E w) = (w1, False)" by simp
    then show ?thesis by (rule that(2) [OF _ c w4 w5 w6 w7])
  qed
qed

lemma handle_frontend_passE:
  assumes "handle_frontend_pass E w = Some (Inr (w', pr))"
  obtains w1 p1 w2 p2 p3 where "handle_cbe_frontend E w = Some (Inr (w1, p1))"
    "handle_cbe_backend E w1 = Inr (w2, p2)" "handle_crypto E w2 = Some (Inr (w', p3))"
proof -
  obtain w1 p1 where w1: "handle_cbe_frontend E w = Some (Inr (w1, p1))"
    and rest: "bind_run (Some (handle_cbe_backend E w1)) (\<lambda>(w2, p2).
        bind_run (handle_crypto E w2) (\<lambda>(w3, p3).
          let progress = (p1 \<or> p2 \<or> p3) in
          if progress then Some (Inr (w3, True))
          else bind_run (Some (dump_state w3)) (\<lambda>_. Some (Inr (w3, False))))) = Some (Inr (w', pr))"
    using assms by (auto simp: handle_frontend_pass_def elim!: bind_run_InrE)
  obtain w2 p2 where w2: "handle_cbe_backend E w1 = Inr (w2, p2)"
    and rest2: "bind_run (handle_crypto E w2) (\<lambda>(w3, p3).
          let progress = (p1 \<or> p2 \<or> p3) in
          if progress then Some (Inr (w3, True))
          else bind_run (Some (dump_state w3)) (\<lambda>_. Some (Inr (w3, False)))) = Some (Inr (w', pr))"
    using rest by (auto elim!: bind_run_InrE)
  obtain p3 where "handle_crypto E w2 = Some (Inr (w', p3))"
    using rest2 by (auto simp: Let_def elim!: bind_run_InrE split: if_splits)
  with that w1 w2 show ?thesis by blast
qed

lemma handle_cbe_frontend_drives:
  assumes "library_contract (world_lib E) n" "drives n p w" "handle_cbe_frontend E w = Some (Inr (w', pr))"
  shows "drives n p w'"
proof -
  have inv: "frontend_inv n w" using assms(2) by (simp add: drives_def)
  have inv': "frontend_inv n w'" using handle_cbe_frontend_inv [OF assms(1) inv assms(3)] by simp
  have i0: "frontend_inv n (submit_helper_requests E w)"
    by (rule submit_helper_requests_inv [OF assms(1) inv])
  have d0: "drives n p (submit_helper_requests E w)"
    by (rule drives_step [OF assms(2) i0 submit_helper_requests_phase [OF inv]])
  have pending: "drives n p w1" if "submit_pending_request E (submit_helper_requests E w) = (w1, q)" for w1 q
    by (rule drives_step [OF d0 submit_pending_request_inv [OF assms(1) i0 that]
          submit_pending_request_phase [OF i0 that]])
  show ?thesis
    using assms(3)
  proof (cases rule: handle_cbe_frontendE)
    case rejected
    then show ?thesis by (rule pending)
  next
    case (driven w1 w3 p3 w4 p4 w5 p5 w6 p6 q)
    have "drives n p (execute_library E w1)"
      using pending [OF driven(1)] execute_library_inv [OF assms(1), of w1] by (simp add: drives_def)
    from complete_requests_drives [OF assms(1) this driven(2)] have d3: "drives n p w3" .
    then have i3: "frontend_inv n w3" by (simp add: drives_def)
    have i4: "frontend_inv n w4" by (rule finish_helper_read_inv [OF i3 driven(3)])
    have d4: "drives n p w4" by (rule drives_step [OF d3 i4 finish_helper_read_phase [OF i3 driven(3)]])
    have i5: "frontend_inv n w5" by (rule finish_helper_write_inv [OF i4 driven(4)])
    have d5: "drives n p w5" by (rule drives_step [OF d4 i5 finish_helper_write_phase [OF i4 driven(4)]])
    have "phase_of w' = phase_of w5"
      using driven(6) deliver_read_data_phase [OF assms(1) driven(5)] take_write_data_phase [OF assms(1), of w6 p6]
      by auto
    with d5 inv' show ?thesis by (simp add: drives_def)
  qed
qed

section \<open>The other handlers\<close>

text \<open>They do not change what the phase is read from, nor client memory, nor construct the library.\<close>

definition same_front :: "('l, 'f) wrapper \<Rightarrow> ('l, 'f) wrapper \<Rightarrow> bool" where
  "same_front w w' \<longleftrightarrow>
     w_frontend w' = w_frontend w \<and> w_helper_read w' = w_helper_read w
     \<and> w_helper_write w' = w_helper_write w \<and> w_memory w' = w_memory w
     \<and> w_cbe_constructed w' = w_cbe_constructed w"

lemma same_front_phase: "same_front w w' \<Longrightarrow> phase_of w' = phase_of w"
  by (rule phase_of_cong) (simp_all add: same_front_def)

lemma handle_cbe_backend_front:
  "handle_cbe_backend E w = Inr (w', pr) \<Longrightarrow> same_front w w'"
  by (auto simp: handle_cbe_backend_def execute_backend_job_def same_front_def bind_exn_def
      split: prod.splits option.splits if_splits sum.splits)

text \<open>The crypto handler leaves the back end alone as well.\<close>

definition same_outside :: "('l, 'f) wrapper \<Rightarrow> ('l, 'f) wrapper \<Rightarrow> bool" where
  "same_outside w w' \<longleftrightarrow>
     same_front w w' \<and> w_backend_job w' = w_backend_job w \<and> w_backend w' = w_backend w
     \<and> w_io_data w' = w_io_data w"

text \<open>A crypto loop, and the composition of the loops.\<close>

definition front_run :: "('l, 'f) wrapper \<Rightarrow> (('l, 'f) wrapper \<times> bool) run \<Rightarrow> bool" where
  "front_run w m \<longleftrightarrow> (\<forall>s. m = Some (Inr s) \<longrightarrow> same_outside w (fst s))"

lemma front_run_loop:
  fixes body :: "('l, 'f) wrapper \<times> bool \<Rightarrow> (('l, 'f) wrapper \<times> bool, exn) loop_step"
  assumes "\<And>s s'. body s = Continue s' \<or> body s = Break s' \<Longrightarrow> same_outside (fst s) (fst s')"
    and "same_outside w (fst s)"
  shows "front_run w (run_loop body s)"
proof -
  let ?Q = "\<lambda>r. case r of Inl (e :: exn) \<Rightarrow> True | Inr t \<Rightarrow> same_outside w (fst t)"
  have trans: "same_outside w (fst t) \<Longrightarrow> body t = Continue t' \<or> body t = Break t' \<Longrightarrow> same_outside w (fst t')" for t t'
    using assms(1) [of t t'] by (simp add: same_outside_def same_front_def)
  have "?Q r" if "run_loop body s = Some r" for r
    by (rule run_loop_rule [where I = "\<lambda>t. same_outside w (fst t)" and Q = ?Q, OF that assms(2)])
      (use trans in auto)
  then show ?thesis by (fastforce simp: front_run_def)
qed

lemma front_run_bind:
  "front_run w m \<Longrightarrow> (\<And>s. same_outside w (fst s) \<Longrightarrow> front_run w (f s)) \<Longrightarrow> front_run w (bind_run m f)"
  unfolding front_run_def by (fastforce elim!: bind_run_InrE)

lemma crypto_pass_front:
  "add_key_pass E s = Continue s' \<or> add_key_pass E s = Break s' \<Longrightarrow> same_outside (fst s) (fst s')"
  "remove_key_pass E s = Continue s' \<or> remove_key_pass E s = Break s' \<Longrightarrow> same_outside (fst s) (fst s')"
  "encrypt_pass E s = Continue s' \<or> encrypt_pass E s = Break s' \<Longrightarrow> same_outside (fst s) (fst s')"
  "encrypted_pass E s = Continue s' \<or> encrypted_pass E s = Break s' \<Longrightarrow> same_outside (fst s) (fst s')"
  "decrypt_pass E s = Continue s' \<or> decrypt_pass E s = Break s' \<Longrightarrow> same_outside (fst s) (fst s')"
  "decrypted_pass E s = Continue s' \<or> decrypted_pass E s = Break s' \<Longrightarrow> same_outside (fst s) (fst s')"
  by (auto simp: add_key_pass_def remove_key_pass_def encrypt_pass_def encrypted_pass_def decrypt_pass_def
      decrypted_pass_def Let_def same_outside_def same_front_def split: prod.splits sum.splits option.splits if_splits)

lemma handle_crypto_outside:
  assumes "handle_crypto E w = Some (Inr (w', pr))"
  shows "same_outside w w'"
proof -
  have "front_run w (handle_crypto E w)"
    unfolding handle_crypto_def
  proof (cases "crypto_execute (world_aes E) (w_crypto w)")
    case (Inl e)
    then show "front_run w (bind_run (Some (crypto_execute (world_aes E) (w_crypto w))) (\<lambda>(c, p0).
     bind_run (run_loop (add_key_pass E) (w\<lparr>w_crypto := c\<rparr>, p0)) (\<lambda>s1.
     bind_run (run_loop (remove_key_pass E) s1) (\<lambda>s2.
     bind_run (run_loop (encrypt_pass E) s2) (\<lambda>s3.
     bind_run (run_loop (encrypted_pass E) s3) (\<lambda>s4.
     bind_run (run_loop (decrypt_pass E) s4) (\<lambda>s5.
       run_loop (decrypted_pass E) s5)))))))" by (simp add: front_run_def)
  next
    case (Inr t)
    obtain c p0 where t: "t = (c, p0)" by (cases t)
    have "same_outside w (fst (w\<lparr>w_crypto := c\<rparr>, p0))" by (simp add: same_outside_def same_front_def)
    then show "front_run w (bind_run (Some (crypto_execute (world_aes E) (w_crypto w))) (\<lambda>(c, p0).
     bind_run (run_loop (add_key_pass E) (w\<lparr>w_crypto := c\<rparr>, p0)) (\<lambda>s1.
     bind_run (run_loop (remove_key_pass E) s1) (\<lambda>s2.
     bind_run (run_loop (encrypt_pass E) s2) (\<lambda>s3.
     bind_run (run_loop (encrypted_pass E) s3) (\<lambda>s4.
     bind_run (run_loop (decrypt_pass E) s4) (\<lambda>s5.
       run_loop (decrypted_pass E) s5)))))))"
      unfolding Inr t bind_run_simps prod.case
      by (intro front_run_bind front_run_loop crypto_pass_front)
  qed
  with assms show ?thesis by (simp add: front_run_def)
qed

lemma handle_crypto_front: "handle_crypto E w = Some (Inr (w', pr)) \<Longrightarrow> same_front w w'"
  using handle_crypto_outside by (auto simp: same_outside_def)

section \<open>The loop over the handlers\<close>

lemma same_front_drives:
  "drives n p w \<Longrightarrow> frontend_inv n w' \<Longrightarrow> same_front w w' \<Longrightarrow> drives n p w'"
  by (simp add: drives_def same_front_phase)

lemma handle_frontend_pass_drives:
  assumes "library_contract (world_lib E) n" "drives n p w"
    and "handle_frontend_pass E w = Some (Inr (w', pr))"
  shows "drives n p w'"
proof -
  obtain w1 p1 w2 p2 p3 where w1: "handle_cbe_frontend E w = Some (Inr (w1, p1))"
    and w2: "handle_cbe_backend E w1 = Inr (w2, p2)" and w3: "handle_crypto E w2 = Some (Inr (w', p3))"
    using assms(3) by (rule handle_frontend_passE)
  have d1: "drives n p w1" by (rule handle_cbe_frontend_drives [OF assms(1,2) w1])
  then have i1: "frontend_inv n w1" by (simp add: drives_def)
  have i2: "frontend_inv n w2" using handle_cbe_backend_inv [OF assms(1) i1] w2 by simp
  have d2: "drives n p w2" by (rule same_front_drives [OF d1 i2 handle_cbe_backend_front [OF w2]])
  have i3: "frontend_inv n w'"
    using handle_crypto_safe [OF assms(1) i2] w3 by (simp add: safe_result_def)
  show ?thesis by (rule same_front_drives [OF d2 i3 handle_crypto_front [OF w3]])
qed

lemma update_background_state_phase [simp]: "phase_of (update_background_state i w) = phase_of w"
  by (rule phase_of_cong) simp_all

lemma handle_frontend_request_drives:
  assumes "library_contract (world_lib E) n" "frontend_inv n w"
    and "handle_frontend_request E w = Some (Inr w')"
  shows "drive\<^sup>*\<^sup>* (phase_of w) (phase_of w')"
proof -
  obtain w1 where run: "run_while (handle_frontend_pass E) w = Some (Inr w1)"
    and w': "w' = update_background_state (library_info (world_lib E) (w_cbe w1)) w1"
    using assms(3) by (auto simp: handle_frontend_request_def split: if_splits elim!: bind_run_InrE)
  let ?Q = "\<lambda>r. case r of Inl (e :: exn) \<Rightarrow> True | Inr t \<Rightarrow> drives n (phase_of w) t"
  have "?Q (Inr w1)"
  proof (rule run_while_rule [where I = "drives n (phase_of w)" and Q = ?Q, OF run])
    show "drives n (phase_of w) w" using assms(2) by (simp add: drives_def)
  qed (use handle_frontend_pass_drives [OF assms(1)] in auto)
  with w' show ?thesis by (simp add: drives_def)
qed

section \<open>Properties\<close>

text \<open>
  C9. A call of handle_frontend_request refines the steps of the abstract machine: the phase
  only moves forward in the order of the ranks, so that a request takes a bounded number of
  steps, and no request appears, is lost or gets into an inconsistent combination of states.
\<close>

theorem handlers_refine_phases:
  assumes "library_contract (world_lib E) n" "frontend_inv n w"
    and "handle_frontend_request E w = Some (Inr w')"
  shows "drive\<^sup>*\<^sup>* (phase_of w) (phase_of w')
     \<and> rank (phase_of w) \<le> rank (phase_of w') \<and> rank (phase_of w') \<le> 7
     \<and> (phase_of w' = Idle \<longleftrightarrow> phase_of w = Idle) \<and> (phase_of w' = Broken \<longleftrightarrow> phase_of w = Broken)"
proof -
  note steps = handle_frontend_request_drives [OF assms]
  have "rank p \<le> 7" for p by (cases p) simp_all
  with steps drives_ends [OF steps] show ?thesis by simp
qed

section \<open>The operations of the data file\<close>

text \<open>The machine with its two kinds of steps.\<close>

definition machine :: "phase \<Rightarrow> phase \<Rightarrow> bool" where
  "machine p q \<longleftrightarrow> client p q \<or> drive p q"

lemma machine_drives: "drive\<^sup>*\<^sup>* p q \<Longrightarrow> machine\<^sup>*\<^sup>* p q"
  by (rule rtranclp_mono [THEN predicate2D]) (auto simp: machine_def)

lemma phase_idle: "frontend_inv n w \<Longrightarrow> phase_of w = Idle \<longleftrightarrow> fr_state (w_frontend w) = F_NONE"
  by (auto simp: phase_defs inv_defs split: frontend_state.splits helper_state.splits)

lemma submit_frontend_request_phase:
  assumes "frontend_inv n w" "fr_state (w_frontend w) = F_NONE" "op = READ \<or> op = WRITE \<or> op = SYNC"
    and "submit_frontend_request w seek data count op snap_id = (w', accepted)"
  shows "accepted \<and> client (phase_of w) (phase_of w')"
proof -
  have idle: "h_state (w_helper_read w) = H_NONE" "h_state (w_helper_write w) = H_NONE"
    using assms(1,2) by (auto simp: inv_defs)
  show ?thesis
  proof (cases "op = SYNC")
    case True
    with assms(2,4) idle show ?thesis
      by (auto simp: submit_frontend_request_def Let_def phase_defs intro: client.intros)
  next
    case False
    then show ?thesis
      using assms(2-4) idle
      by (cases "unaligned_request seek count")
        (auto simp: submit_unaligned submit_aligned phase_defs intro: client.intros)
  qed
qed

lemma handled_outcome:
  assumes "library_contract (world_lib E) n" "frontend_inv n w" "handle_frontend_request E w = Some (Inr w')"
    and "phase_of w \<noteq> Idle" "phase_of w \<noteq> Broken"
  shows "(fr_state (w_frontend w') = F_PENDING \<or> fr_state (w_frontend w') = F_IN_PROGRESS)
       \<and> machine\<^sup>*\<^sup>* (phase_of w) (phase_of (enqueue_handle h w'))
     \<or> (fr_state (w_frontend w') = F_COMPLETE \<or> fr_state (w_frontend w') = F_ERROR_EOF)
       \<and> machine\<^sup>*\<^sup>* (phase_of w) Idle \<and> phase_of (ack_frontend_request w') = Idle"
proof -
  note fine = handle_frontend_request_drives [OF assms(1-3)]
  have inv: "frontend_inv n w'" by (rule handle_frontend_request_inv [OF assms(1-3)])
  have steps: "machine\<^sup>*\<^sup>* (phase_of w) (phase_of w')" by (rule machine_drives [OF fine])
  have kept: "phase_of w' \<noteq> Idle" "phase_of w' \<noteq> Broken"
    using drives_ends(2,3) [OF fine] assms(4,5) by simp_all
  have queue: "phase_of (enqueue_handle h w') = phase_of w'"
    by (rule phase_of_cong) (simp_all add: enqueue_handle_def io_progress_response_def Let_def)
  have finished: "machine (phase_of w') Idle \<and> phase_of (ack_frontend_request w') = Idle"
    if "fr_state (w_frontend w') = F_COMPLETE \<or> fr_state (w_frontend w') = F_ERROR_EOF"
    using that inv by (auto simp: machine_def phase_defs inv_defs ack_frontend_request_def intro: client.intros)
  show ?thesis
  proof (cases "fr_state (w_frontend w')")
    case F_NONE
    with kept(1) phase_idle [OF inv] show ?thesis by simp
  next
    case F_ERROR
    with kept(2) show ?thesis by (simp add: phase_defs)
  qed (use steps queue finished in \<open>auto intro: rtranclp.rtrancl_into_rtrancl\<close>)
qed

lemma submitted_outcome:
  assumes "library_contract (world_lib E) n" "frontend_inv n w" "phase_of w \<noteq> Broken"
    and "if fr_state (w_frontend w) = F_NONE
         then submit_frontend_request w seek data count op snap_id = (w1, accepted) else w1 = w"
    and "op = READ \<or> op = WRITE \<or> op = SYNC" "handle_frontend_request E w1 = Some (Inr w2)"
  shows "(fr_state (w_frontend w2) = F_PENDING \<or> fr_state (w_frontend w2) = F_IN_PROGRESS)
       \<and> machine\<^sup>*\<^sup>* (phase_of w) (phase_of (enqueue_handle h w2))
     \<or> (fr_state (w_frontend w2) = F_COMPLETE \<or> fr_state (w_frontend w2) = F_ERROR_EOF)
       \<and> machine\<^sup>*\<^sup>* (phase_of w) (phase_of (ack_frontend_request w2))
       \<and> phase_of (ack_frontend_request w2) = Idle"
proof -
  have w1: "frontend_inv n w1 \<and> phase_of w1 \<noteq> Idle \<and> phase_of w1 \<noteq> Broken
      \<and> machine\<^sup>*\<^sup>* (phase_of w) (phase_of w1)"
  proof (cases "fr_state (w_frontend w) = F_NONE")
    case True
    with assms(4) have sub: "submit_frontend_request w seek data count op snap_id = (w1, accepted)" by simp
    have "client (phase_of w) (phase_of w1)"
      using submit_frontend_request_phase [OF assms(2) True assms(5) sub] by simp
    moreover have "phase_of w = Idle" using True phase_idle [OF assms(2)] by simp
    ultimately show ?thesis
      using submit_frontend_request_inv [OF assms(2,5) sub]
      by (auto simp: machine_def elim: client.cases)
  next
    case False
    with assms(2-4) phase_idle [OF assms(2)] show ?thesis by simp
  qed
  have lift: "machine\<^sup>*\<^sup>* (phase_of w1) q \<Longrightarrow> machine\<^sup>*\<^sup>* (phase_of w) q" for q
    using w1 by (blast intro: rtranclp_trans)
  from handled_outcome [OF assms(1) _ assms(6), of h] w1 show ?thesis
    by (auto intro: lift)
qed

lemma submit_accepted:
  "fr_state (w_frontend w) = F_NONE \<Longrightarrow> submit_frontend_request w seek data count op snap_id = (w1, acc) \<Longrightarrow> acc"
  by (auto simp: submit_frontend_request_def Let_def split: if_splits)

lemma data_read_path:
  assumes "data_read E h dst count w = Some (Inr (w', res, out))"
  obtains (later) "w' = w" "res = READ_QUEUED"
  | (handled) w1 w2 where
      "if fr_state (w_frontend w) = F_NONE
       then submit_frontend_request w (dh_seek h) dst count READ (dh_snap_id h) = (w1, True) else w1 = w"
      "handle_frontend_request E w1 = Some (Inr w2)"
      "(w', res, out) =
        (case fr_state (w_frontend w2) of
           F_PENDING \<Rightarrow> (enqueue_handle (dh_id h) w2, READ_QUEUED, None)
         | F_IN_PROGRESS \<Rightarrow> (enqueue_handle (dh_id h) w2, READ_QUEUED, None)
         | F_COMPLETE \<Rightarrow> (ack_frontend_request w2, READ_OK, Some (fr_count (w_frontend w2)))
         | F_ERROR_EOF \<Rightarrow> (ack_frontend_request w2, READ_OK, Some 0)
         | F_ERROR \<Rightarrow> (ack_frontend_request w2, READ_ERR_IO, Some 0)
         | F_NONE \<Rightarrow> (w2, READ_ERR_IO, None))"
proof (cases "fr_state (w_frontend w) = F_NONE")
  case True
  obtain w1 acc where sub: "submit_frontend_request w (dh_seek h) dst count READ (dh_snap_id h) = (w1, acc)"
    by fastforce
  note acc = submit_accepted [OF True sub]
  show ?thesis
  proof (cases "wrapper_client_request_acceptable E w")
    case (Inl e)
    with assms True show ?thesis by (simp add: data_read_def)
  next
    case (Inr acceptable)
    show ?thesis
    proof (cases acceptable)
      case False
      with assms True Inr have "w' = w \<and> res = READ_QUEUED" by (simp add: data_read_def)
      then show ?thesis using later by simp
    next
      case acceptable: True
      obtain w2 where w2: "handle_frontend_request E w1 = Some (Inr w2)"
        using assms True Inr acceptable sub acc by (auto simp: data_read_def elim!: bind_run_InrE)
      show ?thesis
        by (rule handled [OF _ w2]) (use assms True Inr acceptable sub acc w2 in \<open>simp_all add: data_read_def\<close>)
    qed
  qed
next
  case False
  with assms obtain w2 where w2: "handle_frontend_request E w = Some (Inr w2)"
    by (auto simp: data_read_def elim!: bind_run_InrE)
  show ?thesis
    by (rule handled [OF _ w2]) (use assms False w2 in \<open>simp_all add: data_read_def\<close>)
qed

lemma data_write_path:
  assumes "data_write E h src count w = Some (Inr (w', res, out))"
  obtains (later) "w' = w" "res = Insufficient_buffer"
  | (handled) w1 w2 where
      "if fr_state (w_frontend w) = F_NONE
       then submit_frontend_request w (dh_seek h) src count WRITE (dh_snap_id h) = (w1, True) else w1 = w"
      "handle_frontend_request E w1 = Some (Inr w2)"
      "(w', res, out) =
        (case fr_state (w_frontend w2) of
           F_PENDING \<Rightarrow> (enqueue_handle (dh_id h) w2, Insufficient_buffer, None)
         | F_IN_PROGRESS \<Rightarrow> (enqueue_handle (dh_id h) w2, Insufficient_buffer, None)
         | F_COMPLETE \<Rightarrow> (ack_frontend_request w2, Wrote WRITE_OK, Some (fr_count (w_frontend w2)))
         | F_ERROR_EOF \<Rightarrow> (ack_frontend_request w2, Wrote WRITE_OK, Some 0)
         | F_ERROR \<Rightarrow> (ack_frontend_request w2, Wrote WRITE_ERR_IO, Some 0)
         | F_NONE \<Rightarrow> (w2, Wrote WRITE_ERR_IO, None))"
proof (cases "fr_state (w_frontend w) = F_NONE")
  case True
  obtain w1 acc where sub: "submit_frontend_request w (dh_seek h) src count WRITE (dh_snap_id h) = (w1, acc)"
    by fastforce
  note acc = submit_accepted [OF True sub]
  show ?thesis
  proof (cases "wrapper_client_request_acceptable E w")
    case (Inl e)
    with assms True show ?thesis by (simp add: data_write_def)
  next
    case (Inr acceptable)
    show ?thesis
    proof (cases acceptable)
      case False
      with assms True Inr have "w' = w \<and> res = Insufficient_buffer" by (simp add: data_write_def)
      then show ?thesis using later by simp
    next
      case acceptable: True
      obtain w2 where w2: "handle_frontend_request E w1 = Some (Inr w2)"
        using assms True Inr acceptable sub acc by (auto simp: data_write_def elim!: bind_run_InrE)
      show ?thesis
        by (rule handled [OF _ w2]) (use assms True Inr acceptable sub acc w2 in \<open>simp_all add: data_write_def\<close>)
    qed
  qed
next
  case False
  with assms obtain w2 where w2: "handle_frontend_request E w = Some (Inr w2)"
    by (auto simp: data_write_def elim!: bind_run_InrE)
  show ?thesis
    by (rule handled [OF _ w2]) (use assms False w2 in \<open>simp_all add: data_write_def\<close>)
qed

text \<open>
  C8. Reads and writes of the data file refine the abstract machine of a request: each call
  takes the wrapper's phase along steps of the machine, and a call that returns a result ends in
  the idle phase; the result is then always OK, so an I/O error is never reported. The library
  keeps its contract (C3).
\<close>

theorem data_file_refines_machine:
  assumes lib: "library_contract (world_lib E) n" and inv: "frontend_inv n w" and fine: "phase_of w \<noteq> Broken"
  shows "(data_read E h dst count w = Some (Inr (w', res, out)) \<longrightarrow>
      machine\<^sup>*\<^sup>* (phase_of w) (phase_of w') \<and> (res = READ_QUEUED \<or> res = READ_OK \<and> phase_of w' = Idle))
    \<and> (data_write E h dst count w = Some (Inr (w'', outcome, out')) \<longrightarrow>
      machine\<^sup>*\<^sup>* (phase_of w) (phase_of w'')
      \<and> (outcome = Insufficient_buffer \<or> outcome = Wrote WRITE_OK \<and> phase_of w'' = Idle))"
proof (intro conjI impI)
  assume "data_read E h dst count w = Some (Inr (w', res, out))"
  then have "machine\<^sup>*\<^sup>* (phase_of w) (phase_of w') \<and> (res = READ_QUEUED \<or> res = READ_OK \<and> phase_of w' = Idle)"
  proof (cases rule: data_read_path)
    case (handled w1 w2)
    from submitted_outcome [OF lib inv fine handled(1) _ handled(2), of "dh_id h"] handled(3) show ?thesis
      by auto
  qed simp
  then show "machine\<^sup>*\<^sup>* (phase_of w) (phase_of w')" "res = READ_QUEUED \<or> res = READ_OK \<and> phase_of w' = Idle"
    by blast+
next
  assume "data_write E h dst count w = Some (Inr (w'', outcome, out'))"
  then have "machine\<^sup>*\<^sup>* (phase_of w) (phase_of w'')
      \<and> (outcome = Insufficient_buffer \<or> outcome = Wrote WRITE_OK \<and> phase_of w'' = Idle)"
  proof (cases rule: data_write_path)
    case (handled w1 w2)
    from submitted_outcome [OF lib inv fine handled(1) _ handled(2), of "dh_id h"] handled(3) show ?thesis
      by auto
  qed simp
  then show "machine\<^sup>*\<^sup>* (phase_of w) (phase_of w'')"
    "outcome = Insufficient_buffer \<or> outcome = Wrote WRITE_OK \<and> phase_of w'' = Idle"
    by blast+
qed

section \<open>Examples\<close>

theorem handlers_refine_phases_witness:
  "\<exists>w'. handle_frontend_request echo_world (echo_wrapper echo_request) = Some (Inr w')
     \<and> drive\<^sup>*\<^sup>* Waiting (phase_of w') \<and> phase_of w' = Finished"
proof -
  have inv: "frontend_inv id (echo_wrapper echo_request)" by (simp add: inv_defs echo_request_def)
  have lib: "library_contract (world_lib echo_world) id" by (simp add: echo_contract)
  have run: "handle_frontend_request echo_world (echo_wrapper echo_request)
      = Some (Inr (echo_wrapper (echo_request\<lparr>fr_state := F_COMPLETE,
          fr_cbe_request := set_success (fr_cbe_request echo_request) True\<rparr>)))"
    by (rule echo_run) (simp_all add: echo_request_def)
  from handlers_refine_phases [OF lib inv run] run show ?thesis
    by (simp add: phase_defs echo_request_def)
qed

theorem data_file_refines_machine_witness:
  "\<exists>w'. data_read echo_world example_handle 8192 4096 (echo_wrapper frontend_init)
      = Some (Inr (w', READ_OK, Some 4096))
     \<and> machine\<^sup>*\<^sup>* Idle (phase_of w') \<and> phase_of w' = Idle"
proof -
  have inv: "frontend_inv id (echo_wrapper frontend_init)" by (simp add: inv_defs)
  have lib: "library_contract (world_lib echo_world) id" by (simp add: echo_contract)
  have idle: "phase_of (echo_wrapper frontend_init) = Idle" by (simp add: phase_defs)
  obtain w' where read: "data_read echo_world example_handle 8192 4096 (echo_wrapper frontend_init)
      = Some (Inr (w', READ_OK, Some 4096))" by (rule example_read)
  from data_file_refines_machine [OF lib inv, where h = example_handle and dst = 8192 and count = 4096
      and w' = w' and res = READ_OK and out = "Some 4096"]
  show ?thesis using read idle by simp
qed

end
