(* ===== verification/Vfs_Snapshots.thy ===== *)
theory Vfs_Snapshots
  imports Vfs_Files
begin

text \<open>
  The directory \<open>snapshots\<close> of the VFS plugin and the factories that put the plugin's tree
  together (\<open>src/lib/vfs/cbe/vfs.cc\<close>).

  \<^item> \<open>snapshot_registry\<close> is the registry: the file systems it holds, each known by the
    identifier of its snapshot, in the order in which Genode's registry visits them, and the
    counter. Where Genode inserts a new element is an argument (\<open>insert_fs\<close>).
  \<^item> The file system of one snapshot is a Genode directory; its operations are the fields of
    \<open>snapshot_ops\<close>.
\<close>

section \<open>The registry\<close>

record snapshot_registry =
  reg_fs :: "u32 list"
  reg_number :: u32

definition new_registry :: snapshot_registry where
  "new_registry = \<lparr> reg_fs = [], reg_number = 0 \<rparr>"

text \<open>One pass of the first loop of \<open>update\<close>; the identifier is cut to 32 bits.\<close>

definition register_snapshot ::
  "(u32 \<Rightarrow> u32 list \<Rightarrow> u32 list) \<Rightarrow> u64 \<Rightarrow> snapshot_registry \<Rightarrow> snapshot_registry" where
  "register_snapshot insert_fs v reg =
     (let ident = ucast v :: u32 in
      if ident = 0 then reg
      else if list_ex (\<lambda>fs. fs = ident) (reg_fs reg) then reg
      else \<lparr> reg_fs = insert_fs ident (reg_fs reg), reg_number = reg_number reg + 1 \<rparr>)"

definition snapshot_stale :: "u64 list \<Rightarrow> u32 \<Rightarrow> bool" where
  "snapshot_stale values fs \<longleftrightarrow> \<not> list_ex (\<lambda>v. (ucast v :: u32) \<noteq> 0 \<and> fs = ucast v) values"

definition registry_update ::
  "(u32 \<Rightarrow> u32 list \<Rightarrow> u32 list) \<Rightarrow> u64 list \<Rightarrow> snapshot_registry \<Rightarrow> snapshot_registry" where
  "registry_update insert_fs values reg =
     (let reg1 = fold (register_snapshot insert_fs) values reg;
          stale = filter (snapshot_stale values) (reg_fs reg1)
      in \<lparr> reg_fs = filter (\<lambda>fs. \<not> snapshot_stale values fs) (reg_fs reg1),
           reg_number = reg_number reg1 - of_nat (length stale) \<rparr>)"

text \<open>\<open>update\<close> takes the identifiers from the wrapper.\<close>

definition snapshot_registry_update ::
  "('l, 'f) world \<Rightarrow> (u32 \<Rightarrow> u32 list \<Rightarrow> u32 list) \<Rightarrow> ('l, 'f) wrapper \<times> snapshot_registry
    \<Rightarrow> (('l, 'f) wrapper \<times> snapshot_registry) run" where
  "snapshot_registry_update E insert_fs s =
     (case s of (w, reg) \<Rightarrow>
      bind_run (wrapper_active_snapshot_ids E w) (\<lambda>(w1, values).
        Some (Inr (w1, registry_update insert_fs values reg))))"

definition by_index :: "snapshot_registry \<Rightarrow> u32 \<Rightarrow> exn + u32" where
  "by_index reg idx =
     (if unat idx < length (reg_fs reg) then Inr (reg_fs reg ! unat idx) else Inl Invalid_index)"

text \<open>The last element with the identifier.\<close>

definition by_id :: "snapshot_registry \<Rightarrow> u32 \<Rightarrow> exn + u32" where
  "by_id reg ident =
     fold (\<lambda>fs res. if fs = ident then Inr fs else res) (reg_fs reg) (Inl Invalid_path)"

definition skip_slash :: "string \<Rightarrow> string" where
  "skip_slash path = (if path \<noteq> [] \<and> hd path = CHR ''/'' then tl path else path)"

definition by_path :: "parsers \<Rightarrow> snapshot_registry \<Rightarrow> string option \<Rightarrow> exn + u32" where
  "by_path P reg path =
     (case path of
        None \<Rightarrow> Inl Invalid_path
      | Some p \<Rightarrow> by_id reg (parse_u32 P (skip_slash p)))"

section \<open>The directory\<close>

definition root_dir :: "string \<Rightarrow> bool" where
  "root_dir path \<longleftrightarrow> path = ''/snapshots''"

definition top_dir :: "string \<Rightarrow> bool" where
  "top_dir path \<longleftrightarrow> path = ''/''"

definition snapshots_type_name :: string where
  "snapshots_type_name = ''snapshots''"

definition sub_path :: "string \<Rightarrow> string option" where
  "sub_path path0 =
     (let path = skip_slash path0; name_len = length snapshots_type_name in
      if take name_len path \<noteq> snapshots_type_name then None
      else
        (let rest = drop name_len path in
         if rest \<noteq> [] \<and> hd rest \<noteq> CHR ''/'' then None else Some rest))"

datatype dirent = Dirent_end | Dirent_directory u64 string

text \<open>
  \<open>self\<close> is the address of the handle and \<open>show_u32\<close> Genode's decimal output.
\<close>

definition query_snapshots ::
  "(u32 \<Rightarrow> string) \<Rightarrow> u64 \<Rightarrow> snapshot_registry \<Rightarrow> u64 \<Rightarrow> read_result \<times> dirent option" where
  "query_snapshots show_u32 self reg index =
     (if index \<ge> ucast (reg_number reg) then (READ_OK, Some Dirent_end)
      else
        (case by_index reg (ucast index) of
           Inl e \<Rightarrow> (READ_ERR_INVALID, None)
         | Inr fs \<Rightarrow> (READ_OK, Some (Dirent_directory (or self index) (take 31 (show_u32 fs))))))"

definition query_root :: "u64 \<Rightarrow> u64 \<Rightarrow> read_result \<times> dirent option" where
  "query_root self index =
     (if index = 0 then (READ_OK, Some (Dirent_directory self ''snapshots''))
      else (READ_OK, Some Dirent_end))"

text \<open>The output count is the size of an entry when an entry is written, else 0.\<close>

definition dir_read ::
  "(u32 \<Rightarrow> string) \<Rightarrow> u64 \<Rightarrow> u64 \<Rightarrow> snapshot_registry \<Rightarrow> bool \<Rightarrow> u64 \<Rightarrow> u64
    \<Rightarrow> read_result \<times> dirent option \<times> u64" where
  "dir_read show_u32 sizeof_dirent self reg is_root seek count =
     (if count < sizeof_dirent then (READ_ERR_INVALID, None, 0)
      else
        (let index = seek div sizeof_dirent in
         case (if \<not> is_root then query_snapshots show_u32 self reg index
               else query_root self index) of
           (res, None) \<Rightarrow> (res, None, 0)
         | (res, Some d) \<Rightarrow> (res, Some d, sizeof_dirent)))"

datatype opendir_result = OPENDIR_OK | OPENDIR_ERR_LOOKUP_FAILED | OPENDIR_ERR_PERMISSION_DENIED

datatype dir_handle = Registry_dir bool | Snapshot_dir u32

record snapshot_ops =
  fs_open :: "u32 \<Rightarrow> string \<Rightarrow> open_result"
  fs_opendir :: "u32 \<Rightarrow> string \<Rightarrow> bool \<Rightarrow> opendir_result"
  fs_stat :: "u32 \<Rightarrow> string \<Rightarrow> bool"
  fs_num_dirent :: "u32 \<Rightarrow> string \<Rightarrow> u64"
  fs_directory :: "u32 \<Rightarrow> string \<Rightarrow> bool"
  fs_leaf_path :: "u32 \<Rightarrow> string \<Rightarrow> string option"

definition snapshots_open ::
  "parsers \<Rightarrow> snapshot_ops \<Rightarrow> snapshot_registry \<Rightarrow> string \<Rightarrow> open_result" where
  "snapshots_open P ops reg path =
     (case sub_path path of
        None \<Rightarrow> OPEN_ERR_UNACCESSIBLE
      | Some p \<Rightarrow>
          if p = [] \<or> hd p \<noteq> CHR ''/'' then OPEN_ERR_UNACCESSIBLE
          else
            (case by_path P reg (Some p) of
               Inl e \<Rightarrow> OPEN_ERR_UNACCESSIBLE
             | Inr fs \<Rightarrow> fs_open ops fs p))"

definition snapshots_opendir ::
  "('l, 'f) world \<Rightarrow> (u32 \<Rightarrow> u32 list \<Rightarrow> u32 list) \<Rightarrow> parsers \<Rightarrow> snapshot_ops \<Rightarrow> string \<Rightarrow> bool
    \<Rightarrow> ('l, 'f) wrapper \<times> snapshot_registry
    \<Rightarrow> ((('l, 'f) wrapper \<times> snapshot_registry) \<times> opendir_result \<times> dir_handle option) run" where
  "snapshots_opendir E insert_fs P ops path create s =
     (if create then Some (Inr (s, OPENDIR_ERR_PERMISSION_DENIED, None))
      else
        (let top = top_dir path in
         if root_dir path \<or> top then
           bind_run (snapshot_registry_update E insert_fs s) (\<lambda>s1.
             Some (Inr (s1, OPENDIR_OK, Some (Registry_dir top))))
         else
           Some (Inr (s,
             (case sub_path path of
                None \<Rightarrow> (OPENDIR_ERR_LOOKUP_FAILED, None)
              | Some p \<Rightarrow>
                  (case by_path P (snd s) (Some p) of
                     Inl e \<Rightarrow> (OPENDIR_ERR_LOOKUP_FAILED, None)
                   | Inr fs \<Rightarrow>
                       if fs_opendir ops fs p create \<noteq> OPENDIR_OK
                       then (OPENDIR_ERR_LOOKUP_FAILED, None)
                       else (OPENDIR_OK, Some (Snapshot_dir fs))))))))"

text \<open>\<open>True\<close> is \<open>STAT_OK\<close>, \<open>False\<close> is \<open>STAT_ERR_NO_ENTRY\<close>.\<close>

definition snapshots_stat :: "parsers \<Rightarrow> snapshot_ops \<Rightarrow> snapshot_registry \<Rightarrow> string \<Rightarrow> bool" where
  "snapshots_stat P ops reg path =
     (case sub_path path of
        None \<Rightarrow> False
      | Some p \<Rightarrow>
          if p = [] \<or> top_dir p then True
          else if hd p \<noteq> CHR ''/'' then False
          else (case by_path P reg (Some p) of Inl e \<Rightarrow> False | Inr fs \<Rightarrow> fs_stat ops fs p))"

definition snapshots_num_dirent ::
  "('l, 'f) world \<Rightarrow> (u32 \<Rightarrow> u32 list \<Rightarrow> u32 list) \<Rightarrow> parsers \<Rightarrow> snapshot_ops \<Rightarrow> string
    \<Rightarrow> ('l, 'f) wrapper \<times> snapshot_registry
    \<Rightarrow> ((('l, 'f) wrapper \<times> snapshot_registry) \<times> u64) run" where
  "snapshots_num_dirent E insert_fs P ops path s =
     bind_run (snapshot_registry_update E insert_fs s) (\<lambda>s1.
       Some (Inr (s1,
         (if top_dir path \<or> root_dir path then ucast (reg_number (snd s1))
          else
            (case sub_path path of
               None \<Rightarrow> 0
             | Some p \<Rightarrow>
                 (case by_path P (snd s1) (Some p) of Inl e \<Rightarrow> 0 | Inr fs \<Rightarrow> fs_num_dirent ops fs p))))))"

definition snapshots_directory :: "parsers \<Rightarrow> snapshot_ops \<Rightarrow> snapshot_registry \<Rightarrow> string \<Rightarrow> bool" where
  "snapshots_directory P ops reg path =
     (if root_dir path then True
      else
        (case sub_path path of
           None \<Rightarrow> False
         | Some p \<Rightarrow> (case by_path P reg (Some p) of Inl e \<Rightarrow> False | Inr fs \<Rightarrow> fs_directory ops fs p)))"

definition snapshots_leaf_path ::
  "parsers \<Rightarrow> snapshot_ops \<Rightarrow> snapshot_registry \<Rightarrow> string \<Rightarrow> string option" where
  "snapshots_leaf_path P ops reg path =
     (case sub_path path of
        None \<Rightarrow> None
      | Some p \<Rightarrow>
          if p = [] then Some p
          else (case by_path P reg (Some p) of Inl e \<Rightarrow> None | Inr fs \<Rightarrow> fs_leaf_path ops fs p))"

datatype rename_result = RENAME_ERR_NO_PERM

datatype unlink_result = UNLINK_ERR_NO_PERM

definition snapshots_unlink :: "string \<Rightarrow> unlink_result" where
  "snapshots_unlink path = UNLINK_ERR_NO_PERM"

definition snapshots_rename :: "string \<Rightarrow> string \<Rightarrow> rename_result" where
  "snapshots_rename a b = RENAME_ERR_NO_PERM"

definition snapshots_write :: write_result where
  "snapshots_write = WRITE_ERR_IO"

text \<open>
  Reading dispatches on the kind of the handle: a directory of the registry, a handle of a
  snapshot's own file system, or neither.
\<close>

datatype vfs_handle_kind = Snap_handle | Dir_snap_handle | Other_handle

definition snapshots_queue_read :: "vfs_handle_kind \<Rightarrow> bool \<Rightarrow> bool" where
  "snapshots_queue_read k inner = (if k = Dir_snap_handle then inner else True)"

definition snapshots_complete_read :: "vfs_handle_kind \<Rightarrow> 'r \<Rightarrow> 'r \<Rightarrow> 'r \<Rightarrow> 'r" where
  "snapshots_complete_read k own inner err_io =
     (case k of Snap_handle \<Rightarrow> own | Dir_snap_handle \<Rightarrow> inner | Other_handle \<Rightarrow> err_io)"

section \<open>Configuration and factories\<close>

definition show_bool :: "bool \<Rightarrow> string" where
  "show_bool b = (if b then ''true'' else ''false'')"

definition snapshot_config :: "(u32 \<Rightarrow> string) \<Rightarrow> u32 \<Rightarrow> bool \<Rightarrow> xml" where
  "snapshot_config show_u32 snap_id readonly =
     Xml ''dir'' [(''name'', if \<not> readonly then ''current'' else show_u32 snap_id)]
       [Xml ''data'' [(''readonly'', show_bool readonly)] []]"

definition control_config :: xml where
  "control_config =
     Xml ''dir'' [(''name'', ''control'')]
       [Xml ''rekey'' [] [], Xml ''extend'' [] [], Xml ''create_snapshot'' [] [],
        Xml ''discard_snapshot'' [] []]"

definition plugin_config :: "xml \<Rightarrow> xml" where
  "plugin_config node =
     Xml ''dir'' [(''name'', take 63 (xml_attribute node ''name'' ''cbe''))]
       [Xml ''control'' [] [], Xml ''snapshot'' [(''name'', ''current'')] [], Xml ''snapshots'' [] []]"

datatype plugin_fs =
    Data_fs u32 | Rekey_fs | Create_snapshot_fs | Discard_snapshot_fs | Extend_fs
  | Snapshot_fs u32 | Control_fs | Snapshots_fs

definition snapshot_factory_create :: "u32 \<Rightarrow> xml \<Rightarrow> plugin_fs option" where
  "snapshot_factory_create snap_id node = (if has_type node ''data'' then Some (Data_fs snap_id) else None)"

definition control_factory_create :: "xml \<Rightarrow> plugin_fs option" where
  "control_factory_create node =
     (if has_type node ''rekey'' then Some Rekey_fs
      else if has_type node ''create_snapshot'' then Some Create_snapshot_fs
      else if has_type node ''discard_snapshot'' then Some Discard_snapshot_fs
      else if has_type node ''extend'' then Some Extend_fs
      else None)"

definition local_factory_create :: "xml \<Rightarrow> plugin_fs option" where
  "local_factory_create node =
     (if has_type node ''snapshot'' \<and> take 63 (xml_attribute node ''name'' '''') = ''current''
      then Some (Snapshot_fs 0)
      else if has_type node ''control'' then Some Control_fs
      else if has_type node ''snapshots'' then Some Snapshots_fs
      else None)"

section \<open>Properties\<close>

text \<open>Where Genode inserts a new element; it keeps the others.\<close>

definition inserts :: "(u32 \<Rightarrow> u32 list \<Rightarrow> u32 list) \<Rightarrow> bool" where
  "inserts insert_fs \<longleftrightarrow> (\<forall>x xs. \<exists>as bs. xs = as @ bs \<and> insert_fs x xs = as @ x # bs)"

definition registry_ok :: "snapshot_registry \<Rightarrow> bool" where
  "registry_ok reg \<longleftrightarrow> distinct (reg_fs reg) \<and> reg_number reg = of_nat (length (reg_fs reg))"

definition snapshot_idents :: "u64 list \<Rightarrow> u32 set" where
  "snapshot_idents values = (ucast ` set values) - {0}"

lemma inserts_facts:
  assumes "inserts insert_fs"
  shows "set (insert_fs x xs) = insert x (set xs)" "length (insert_fs x xs) = Suc (length xs)"
    "distinct (insert_fs x xs) \<longleftrightarrow> x \<notin> set xs \<and> distinct xs"
proof -
  obtain as bs where "xs = as @ bs" "insert_fs x xs = as @ x # bs"
    using assms unfolding inserts_def by blast
  then show "set (insert_fs x xs) = insert x (set xs)" "length (insert_fs x xs) = Suc (length xs)"
    "distinct (insert_fs x xs) \<longleftrightarrow> x \<notin> set xs \<and> distinct xs" by auto
qed

lemma register_all:
  assumes "inserts insert_fs"
  shows "registry_ok reg \<Longrightarrow>
     registry_ok (fold (register_snapshot insert_fs) vs reg)
     \<and> set (reg_fs (fold (register_snapshot insert_fs) vs reg)) = set (reg_fs reg) \<union> snapshot_idents vs"
proof (induction vs arbitrary: reg)
  case Nil
  then show ?case by (simp add: snapshot_idents_def)
next
  case (Cons v vs)
  have "registry_ok (register_snapshot insert_fs v reg)
      \<and> set (reg_fs (register_snapshot insert_fs v reg)) = set (reg_fs reg) \<union> ({ucast v} - {0})"
    using Cons.prems inserts_facts [OF assms]
    by (auto simp: register_snapshot_def registry_ok_def Let_def list_ex_iff)
  with Cons.IH [of "register_snapshot insert_fs v reg"] show ?case
    by (auto simp: snapshot_idents_def)
qed

lemma snapshot_stale_iff: "snapshot_stale values fs \<longleftrightarrow> fs \<notin> snapshot_idents values"
  by (auto simp: snapshot_stale_def snapshot_idents_def list_ex_iff)

text \<open>
  C31. After an update the snapshot registry holds exactly the non-zero identifiers that the
  library reports, each once, and its counter is their number. An identifier is the 32-bit
  number the registry makes of it.
\<close>

theorem registry_update_exact:
  assumes "inserts insert_fs" "registry_ok reg"
  shows "registry_ok (registry_update insert_fs values reg)
     \<and> set (reg_fs (registry_update insert_fs values reg)) = snapshot_idents values"
proof -
  let ?r = "fold (register_snapshot insert_fs) values reg"
  have ok: "registry_ok ?r" and fs: "set (reg_fs ?r) = set (reg_fs reg) \<union> snapshot_idents values"
    using register_all [OF assms(1)] assms(2) by blast+
  let ?stale = "filter (snapshot_stale values) (reg_fs ?r)"
  let ?keep = "filter (\<lambda>x. \<not> snapshot_stale values x) (reg_fs ?r)"
  have sum: "length ?stale + length ?keep = length (reg_fs ?r)" by (rule sum_length_filter_compl)
  have "of_nat (length (reg_fs ?r)) - of_nat (length ?stale) = (of_nat (length ?keep) :: u32)"
    unfolding sum [symmetric] by simp
  with ok fs show ?thesis
    by (auto simp: registry_update_def Let_def registry_ok_def snapshot_stale_iff)
qed

text \<open>
  C32. Reading the snapshots directory at the n-th entry yields the n-th snapshot of the
  registry, and the end marker behind the last one.
\<close>

theorem directory_lists_registry:
  assumes "registry_ok reg" "length (reg_fs reg) < 2 ^ 32"
    and "0 < sizeof_dirent" "unat index * unat sizeof_dirent < 2 ^ 64" "sizeof_dirent \<le> count"
  shows "dir_read show_u32 sizeof_dirent self reg False (index * sizeof_dirent) count =
     (READ_OK,
      Some (if unat index < length (reg_fs reg)
            then Dirent_directory (or self index) (take 31 (show_u32 (reg_fs reg ! unat index)))
            else Dirent_end),
      sizeof_dirent)"
proof -
  have num: "unat (reg_number reg) = length (reg_fs reg)"
    using assms(1,2) by (simp add: registry_ok_def unat_of_nat)
  have le: "(ucast (reg_number reg) \<le> index) = (length (reg_fs reg) \<le> unat index)"
    using num assms(2) by (simp add: word_le_nat_alt unsigned_ucast_eq take_bit_nat_eq_self)
  have "unat (index * sizeof_dirent) = unat index * unat sizeof_dirent"
    using assms(4) unat_mult_lem [of index sizeof_dirent] by simp
  then have div: "index * sizeof_dirent div sizeof_dirent = index"
    using assms(3) by (simp add: word_unat_eq_iff unat_div word_less_nat_alt)
  have cast: "unat index < length (reg_fs reg) \<Longrightarrow> unat (ucast index :: u32) = unat index"
    using assms(2) by (simp add: unsigned_ucast_eq unsigned_take_bit_eq take_bit_nat_eq_self)
  show ?thesis
    using assms(5) div le cast
    by (simp add: dir_read_def Let_def query_snapshots_def by_index_def not_less)
qed

theorem sub_path_iff:
  fixes path rest :: string
  shows "sub_path path = Some rest \<longleftrightarrow>
     skip_slash path = ''snapshots'' @ rest \<and> (rest = [] \<or> hd rest = CHR ''/'')"
proof -
  have "take 9 p = ''snapshots'' \<longleftrightarrow> (\<exists>r. p = ''snapshots'' @ r)" for p
  proof
    assume t: "take 9 p = ''snapshots''"
    have "p = take 9 p @ drop 9 p" by simp
    with t show "\<exists>r. p = ''snapshots'' @ r" by metis
  qed auto
  then have "take 9 (skip_slash path) = ''snapshots'' \<longleftrightarrow> (\<exists>r. skip_slash path = ''snapshots'' @ r)" .
  moreover have nine: "length snapshots_type_name = 9" by (simp add: snapshots_type_name_def)
  ultimately show ?thesis
    unfolding sub_path_def Let_def nine unfolding snapshots_type_name_def
    by (cases "take 9 (skip_slash path) = ''snapshots''") (auto split: if_splits)
qed

section \<open>Examples\<close>

theorem registry_update_exact_witness:
  "registry_ok (registry_update Cons [3, 0, 5, 3] \<lparr> reg_fs = [9], reg_number = 1 \<rparr>)
   \<and> set (reg_fs (registry_update Cons [3, 0, 5, 3] \<lparr> reg_fs = [9], reg_number = 1 \<rparr>)) = {3, 5}"
proof -
  have "inserts Cons" unfolding inserts_def by (metis append_Nil)
  moreover have "registry_ok \<lparr> reg_fs = [9], reg_number = 1 \<rparr>" by (simp add: registry_ok_def)
  moreover have "snapshot_idents [3, 0, 5, 3] = {3, 5}" by (auto simp: snapshot_idents_def)
  ultimately show ?thesis using registry_update_exact by metis
qed

theorem directory_lists_registry_witness:
  "dir_read (\<lambda>i. if i = 9 then ''9'' else ''other'') 64 0 \<lparr> reg_fs = [7, 9], reg_number = 2 \<rparr> False (1 * 64) 100
     = (READ_OK, Some (Dirent_directory (or 0 1) ''9''), 64)"
  by (subst directory_lists_registry) (simp_all add: registry_ok_def)

end
