(* ===== verification/Vfs_Plugin.thy ===== *)
theory Vfs_Plugin
  imports Wrapper_Phases Vfs_Snapshots
begin

text \<open>
  The plugin as a whole (\<open>src/lib/vfs/cbe/vfs.cc\<close>): its file systems with their types, the
  factories that make them from the generated configuration, and its creation.

  \<^item> \<open>data_file_system\<close> and the definitions after it are what the files hand to the constructor of
    Genode's \<open>Single_file_system\<close>; \<open>fs_type_name\<close> is the \<open>type_name\<close> of each file system.
  \<^item> \<open>factory_create\<close> is the entry point through which Genode creates the plugin.
  \<^item> \<open>kept\<close> says that the library object stays constructed, which every operation guarantees.
\<close>

section \<open>The file systems\<close>

datatype node_kind = Continuous_file | Transactional_file

datatype node_rwx = Rw | Wo

definition data_file_system :: "node_kind \<times> string \<times> node_rwx \<times> xml" where
  "data_file_system = (Continuous_file, ''data'', Rw, Xml ''data'' [] [])"

definition extend_file_system :: "node_kind \<times> string \<times> node_rwx \<times> xml" where
  "extend_file_system = (Transactional_file, ''extend'', Wo, Xml ''extend'' [] [])"

definition rekey_file_system :: "node_kind \<times> string \<times> node_rwx \<times> xml" where
  "rekey_file_system = (Transactional_file, ''rekey'', Wo, Xml ''rekey'' [] [])"

definition create_snapshot_file_system :: "node_kind \<times> string \<times> node_rwx \<times> xml" where
  "create_snapshot_file_system =
     (Transactional_file, ''create_snapshot'', Wo, Xml ''create_snapshot'' [] [])"

definition discard_snapshot_file_system :: "node_kind \<times> string \<times> node_rwx \<times> xml" where
  "discard_snapshot_file_system =
     (Transactional_file, ''discard_snapshot'', Wo, Xml ''discard_snapshot'' [] [])"

definition snapshot_type_name :: string where
  "snapshot_type_name = ''snapshot''"

definition control_type_name :: string where
  "control_type_name = ''control''"

fun fs_type_name :: "plugin_fs \<Rightarrow> string" where
  "fs_type_name (Data_fs snap_id) = fst (snd data_file_system)"
| "fs_type_name Rekey_fs = fst (snd rekey_file_system)"
| "fs_type_name Create_snapshot_fs = fst (snd create_snapshot_file_system)"
| "fs_type_name Discard_snapshot_fs = fst (snd discard_snapshot_file_system)"
| "fs_type_name Extend_fs = fst (snd extend_file_system)"
| "fs_type_name (Snapshot_fs snap_id) = snapshot_type_name"
| "fs_type_name Control_fs = control_type_name"
| "fs_type_name Snapshots_fs = snapshots_type_name"

text \<open>The \<open>open\<close> methods of the other control files repeat the code of the extend file's.\<close>

definition rekey_open :: "bool \<Rightarrow> open_result \<Rightarrow> open_result" where
  "rekey_open single_file allocate =
     (if \<not> single_file then OPEN_ERR_UNACCESSIBLE else allocate)"

definition create_snapshot_open :: "bool \<Rightarrow> open_result \<Rightarrow> open_result" where
  "create_snapshot_open single_file allocate =
     (if \<not> single_file then OPEN_ERR_UNACCESSIBLE else allocate)"

definition discard_snapshot_open :: "bool \<Rightarrow> open_result \<Rightarrow> open_result" where
  "discard_snapshot_open single_file allocate =
     (if \<not> single_file then OPEN_ERR_UNACCESSIBLE else allocate)"

text \<open>The handles of the snapshots directory: no writes, and a sync that has nothing to do.\<close>

definition snap_handle_sync :: sync_result where
  "snap_handle_sync = SYNC_OK"

definition dir_handle_write :: write_result where
  "dir_handle_write = WRITE_ERR_INVALID"

text \<open>
  \<open>close\<close> destroys a handle if it is its own; \<open>own\<close> tells the handles of the directory among the
  live ones.
\<close>

definition snapshots_close :: "(nat \<Rightarrow> bool) \<Rightarrow> nat option \<Rightarrow> nat list \<Rightarrow> nat list" where
  "snapshots_close own h live =
     (case h of None \<Rightarrow> live | Some i \<Rightarrow> if own i then remove1 i live else live)"

section \<open>Creation\<close>

text \<open>
  \<open>build\<close> stands for the constructors of Genode's directory file systems over the generated
  configuration. Any exception ends in a null pointer.
\<close>

definition factory_create ::
  "('l, 'f) world \<Rightarrow> (xml \<Rightarrow> exn + 'd) \<Rightarrow> vfs_config \<Rightarrow> xml \<Rightarrow> ('l, 'f) wrapper
    \<Rightarrow> (('l, 'f) wrapper \<times> 'd) option" where
  "factory_create E build config node members =
     (case new_wrapper E config members of
        Inl e \<Rightarrow> None
      | Inr w \<Rightarrow> (case build (plugin_config node) of Inl e \<Rightarrow> None | Inr d \<Rightarrow> Some (w, d)))"

theorem generated_nodes_known:
  "map control_factory_create (xml_nodes control_config)
     = [Some Rekey_fs, Some Extend_fs, Some Create_snapshot_fs, Some Discard_snapshot_fs]
   \<and> map local_factory_create (xml_nodes (plugin_config node))
     = [Some Control_fs, Some (Snapshot_fs 0), Some Snapshots_fs]
   \<and> map (snapshot_factory_create snap_id) (xml_nodes (snapshot_config show_u32 snap_id readonly))
     = [Some (Data_fs snap_id)]
   \<and> map (map_option fs_type_name \<circ> control_factory_create) (xml_nodes control_config)
     = map (Some \<circ> xml_type) (xml_nodes control_config)
   \<and> map (map_option fs_type_name \<circ> local_factory_create) (xml_nodes (plugin_config node))
     = map (Some \<circ> xml_type) (xml_nodes (plugin_config node))"
  by (simp add: control_config_def control_factory_create_def plugin_config_def local_factory_create_def
      snapshot_config_def snapshot_factory_create_def has_type_def xml_attribute_def attribute_value_def
      rekey_file_system_def extend_file_system_def create_snapshot_file_system_def
      discard_snapshot_file_system_def snapshot_type_name_def control_type_name_def
      snapshots_type_name_def)

section \<open>What the front-end handler leaves alone\<close>

text \<open>The library stays constructed, and the engine below the front end is not touched.\<close>

definition kept :: "('l, 'f) wrapper \<Rightarrow> ('l, 'f) wrapper \<Rightarrow> bool" where
  "kept w w' \<longleftrightarrow>
     w_cbe_constructed w' = w_cbe_constructed w \<and> w_backend_job w' = w_backend_job w
     \<and> w_backend w' = w_backend w \<and> w_crypto w' = w_crypto w"

lemma kept_steps [simp]:
  "kept w (submit_helper_requests E w)" "kept w (fst (submit_pending_request E w))"
  "kept w (execute_library E w)" "kept w (fst (finish_helper_read w p))"
  "kept w (fst (finish_helper_write w p))" "kept w (update_background_state i w)"
  "kept w (enqueue_handle h w)" "kept w (ack_frontend_request w)"
  by (auto simp: kept_def submit_helper_requests_def submit_pending_request_def execute_library_def
      finish_helper_read_def finish_helper_write_def update_background_state_def enqueue_handle_def
      io_progress_response_def ack_frontend_request_def Let_def split: prod.split)

lemma kept_trans: "kept w w1 \<Longrightarrow> kept w1 w2 \<Longrightarrow> kept w w2"
  by (simp add: kept_def)

lemma kept_data:
  "deliver_read_data E w p = Inr (w', p', q) \<Longrightarrow> kept w w'"
  "take_write_data E w p = Inr (w'', p'') \<Longrightarrow> kept w w''"
  by (auto simp: kept_def deliver_read_data_def take_write_data_def Let_def bind_exn_def
      split: if_splits prod.splits sum.splits)

lemma kept_complete_request:
  "complete_request E s = Continue s' \<Longrightarrow> kept (fst s) (fst s')"
  "complete_request E s = Break s' \<Longrightarrow> kept (fst s) (fst s')"
  by (cases s; auto simp: complete_request_def Let_def kept_def split: if_splits)+

lemma kept_complete_requests:
  assumes "complete_requests E w p = Some (Inr (w', p'))"
  shows "kept w w'"
proof -
  let ?Q = "\<lambda>r. case r of Inl (e :: exn) \<Rightarrow> True | Inr s \<Rightarrow> kept w (fst s)"
  have "?Q (Inr (w', p'))"
  proof (rule run_loop_rule [where I = "\<lambda>s. kept w (fst s)" and Q = ?Q,
        OF assms [unfolded complete_requests_def]])
    show "kept w (fst (w, p))" by (simp add: kept_def)
  qed (use kept_complete_request [of E] kept_trans in fastforce)+
  then show ?thesis by simp
qed

lemma kept_handle_cbe_frontend:
  assumes "handle_cbe_frontend E w = Some (Inr (w', p))"
  shows "kept w w'"
proof -
  have pending: "kept w w1" if "submit_pending_request E (submit_helper_requests E w) = (w1, q)" for w1 q
    using kept_steps(1) [of w E] kept_steps(2) [of "submit_helper_requests E w" E] that
    by (simp add: kept_def)
  show ?thesis
    using assms
  proof (cases rule: handle_cbe_frontendE)
    case rejected
    then show ?thesis by (rule pending)
  next
    case (driven w1 w3 p3 w4 p4 w5 p5 w6 p6 q)
    have "kept w3 w4" "kept w4 w5" "kept w6 w'"
      using kept_steps(4) [of w3 p3] kept_steps(5) [of w4 p4] driven(3,4,6) kept_data(2) [of E w6 p6]
      by (auto simp: kept_def)
    with pending [OF driven(1)] kept_steps(3) [of w1 E] kept_complete_requests [OF driven(2)]
      kept_data(1) [OF driven(5)] show ?thesis
      by (simp add: kept_def)
  qed
qed

lemma constructed_handle_frontend_request:
  assumes "handle_frontend_request E w = Some (Inr w')"
  shows "w_cbe_constructed w' = w_cbe_constructed w"
proof -
  obtain w1 where run: "run_while (handle_frontend_pass E) w = Some (Inr w1)"
    and w': "w' = update_background_state (library_info (world_lib E) (w_cbe w1)) w1"
    using assms by (auto simp: handle_frontend_request_def split: if_splits elim!: bind_run_InrE)
  have pass: "w_cbe_constructed t' = w_cbe_constructed t" if "handle_frontend_pass E t = Some (Inr (t', q))" for t t' q
    using that
  proof (rule handle_frontend_passE)
    fix t1 p1 t2 p2 p3
    assume "handle_cbe_frontend E t = Some (Inr (t1, p1))" "handle_cbe_backend E t1 = Inr (t2, p2)"
      "handle_crypto E t2 = Some (Inr (t', p3))"
    from kept_handle_cbe_frontend [OF this(1)] handle_cbe_backend_front [OF this(2)] handle_crypto_front [OF this(3)]
    show ?thesis by (simp add: kept_def same_front_def)
  qed
  let ?Q = "\<lambda>r. case r of Inl (e :: exn) \<Rightarrow> True | Inr t \<Rightarrow> w_cbe_constructed t = w_cbe_constructed w"
  have "?Q (Inr w1)"
    by (rule run_while_rule [where I = "\<lambda>t. w_cbe_constructed t = w_cbe_constructed w" and Q = ?Q, OF run])
      (simp_all add: pass)
  with w' show ?thesis by (simp add: update_background_state_def Let_def)
qed

section \<open>A back end that ends early\<close>

definition backend_stuck :: "('l, 'f) wrapper \<Rightarrow> bool" where
  "backend_stuck w \<longleftrightarrow> (case w_backend_job w of None \<Rightarrow> False | Some j \<Rightarrow> job_stuck j)"

lemma handle_cbe_backend_stuck:
  assumes "file_at_end (world_file E)" "backend_stuck w" "handle_cbe_backend E w = Inr (w', p)"
  shows "p \<and> backend_stuck w'"
proof -
  obtain j where j: "w_backend_job w = Some j" "job_stuck j"
    using assms(2) by (auto simp: backend_stuck_def split: option.splits)
  let ?e = "\<lparr> env_job = j, env_file = w_backend w, env_lib = w_cbe w, env_io_data = w_io_data w \<rparr>"
  obtain e' where e': "job_execute (world_file E) (world_lib E) ?e = Inr (e', p)"
    and w': "w_backend_job w' = (if job_completed (env_job e') then None else Some (env_job e'))"
    using assms(3) j(1) by (auto simp: handle_cbe_backend_def execute_backend_job_def elim!: bind_exn_InrE)
  have "job_stuck (env_job ?e)" using j(2) by simp
  from io_read_stuck_at_end [OF assms(1) this e'] have "p" "job_stuck (env_job e')" by blast+
  with w' show ?thesis by (simp add: backend_stuck_def job_completed_def job_stuck_def)
qed

text \<open>
  C40. A back-end job that reads behind the end of its file, where the file system answers
  READ_OK with no bytes, never completes, and every pass over the handlers counts it as
  progress: the driver loop never comes to its end. It runs for ever, or a handler throws;
  whatever the library does, and with any number of passes.
\<close>

theorem driver_loop_stuck_at_end:
  assumes "file_at_end (world_file E)" "backend_stuck w"
  shows "handle_frontend_request E w \<noteq> Some (Inr w')"
proof
  assume "handle_frontend_request E w = Some (Inr w')"
  then obtain w1 where run: "run_while (handle_frontend_pass E) w = Some (Inr w1)"
    by (auto simp: handle_frontend_request_def split: if_splits elim!: bind_run_InrE)
  have pass: "q \<and> backend_stuck t'" if stuck: "backend_stuck t" and t': "handle_frontend_pass E t = Some (Inr (t', q))"
    for t t' q
  proof -
    obtain t1 p1 t2 p2 p3 where steps: "handle_cbe_frontend E t = Some (Inr (t1, p1))"
      "handle_cbe_backend E t1 = Inr (t2, p2)" "handle_crypto E t2 = Some (Inr (t', p3))"
      using t' by (rule handle_frontend_passE)
    have "backend_stuck t1" using kept_handle_cbe_frontend [OF steps(1)] stuck by (simp add: kept_def backend_stuck_def)
    from handle_cbe_backend_stuck [OF assms(1) this steps(2)] have t2: "p2" "backend_stuck t2" by simp_all
    with handle_crypto_outside [OF steps(3)] have "backend_stuck t'" by (simp add: backend_stuck_def same_outside_def)
    with t' steps t2(1) show ?thesis by (simp add: handle_frontend_pass_def)
  qed
  let ?Q = "\<lambda>r. case r of Inl (e :: exn) \<Rightarrow> True | Inr t \<Rightarrow> False"
  have "?Q (Inr w1)"
    by (rule run_while_rule [where I = backend_stuck and Q = ?Q, OF run assms(2)])
      (use pass in \<open>blast, blast, simp\<close>)
  then show False by simp
qed

definition stuck_wrapper :: "(unit, unit) wrapper" where
  "stuck_wrapper =
     (example_wrapper () ())\<lparr>w_backend_job := Some
        \<lparr> job_op = READ, job_index = 0, job_io_state = PENDING, job_base_offset = 8192,
          job_current_offset = 0, job_current_count = 4096, job_success = False, job_complete = False \<rparr>\<rparr>"

theorem driver_loop_stuck_at_end_witness:
  "\<not> (\<exists>w'. handle_frontend_request (example_world null_library () empty_reader ()) stuck_wrapper = Some (Inr w'))"
proof -
  have "file_at_end (world_file (example_world null_library () empty_reader ()))"
    by (simp add: file_at_end_def empty_reader_def)
  moreover have "backend_stuck stuck_wrapper"
    by (simp add: backend_stuck_def stuck_wrapper_def job_stuck_def)
  ultimately show ?thesis using driver_loop_stuck_at_end by blast
qed

end
