(* ===== verification/Wrapper_Progress.thy ===== *)
theory Wrapper_Progress
  imports Wrapper_Phases "HOL-Library.Product_Lexorder"
begin

text \<open>
  The loop over the handlers of \<open>Vfs_Wrapper\<close> ends.

  \<^item> \<open>library_finite\<close> is what it needs of the library: a bound \<open>lw_work\<close> on the work that is left,
    which every completion, every block and every key that the library hands over uses up and
    which only a new request can raise. A block request to the device and a request to the
    crypto unit stay outstanding until the wrapper answers them.
  \<^item> \<open>file_moves\<close> is what it needs of the device: a transfer that succeeds moves at least one byte.
  \<^item> \<open>in_step\<close> is the invariant that ties the back-end job and the crypto jobs to the library.
  \<^item> \<open>work_left\<close> is the measure: the phase, the work of the library, the back-end job, the crypto jobs.
\<close>

section \<open>The contracts\<close>

record 'l library_work =
  lw_work :: "'l \<Rightarrow> nat"
  lw_io :: "'l \<Rightarrow> u32 \<Rightarrow> bool"
  lw_encrypting :: "'l \<Rightarrow> bool"
  lw_decrypting :: "'l \<Rightarrow> bool"

text \<open>What stays outstanding from one state of the library to the next.\<close>

definition still_open :: "'l library_work \<Rightarrow> 'l \<Rightarrow> 'l \<Rightarrow> bool" where
  "still_open G l l' \<longleftrightarrow>
     (\<forall>i. lw_io G l i \<longrightarrow> lw_io G l' i) \<and> (lw_encrypting G l \<longrightarrow> lw_encrypting G l')
     \<and> (lw_decrypting G l \<longrightarrow> lw_decrypting G l')"

text \<open>Requests of the client, block requests to the device, requests to the crypto unit.\<close>

definition client_finite :: "'l cbe_library \<Rightarrow> 'l library_work \<Rightarrow> bool" where
  "client_finite L G \<longleftrightarrow>
     (\<forall>l r i. still_open G l (submit_client_request L l r i))
     \<and> (\<forall>l a b c l' d. lib_execute L l a b c = (l', d) \<longrightarrow>
          still_open G l l' \<and> lw_work G l' \<le> lw_work G l
          \<and> (execute_progress L l' \<longrightarrow> lw_work G l' < lw_work G l))
     \<and> (\<forall>l r. r = peek_completed_client_request L l \<longrightarrow> valid r \<longrightarrow>
          still_open G l (drop_completed_client_request L l r)
          \<and> lw_work G (drop_completed_client_request L l r) < lw_work G l)
     \<and> (\<forall>l r l1. client_data_ready L l = (r, l1) \<longrightarrow>
          still_open G l l1 \<and> lw_work G l1 \<le> lw_work G l)
     \<and> (\<forall>l r l1 i ok j l2. client_data_ready L l = (r, l1) \<longrightarrow> valid r \<longrightarrow>
          obtain_client_data L l1 r i = ((ok, j), l2) \<longrightarrow>
          still_open G l1 l2 \<and> lw_work G l2 \<le> lw_work G l1 \<and> (ok \<longrightarrow> lw_work G l2 < lw_work G l1))
     \<and> (\<forall>l r l1. client_data_required L l = (r, l1) \<longrightarrow>
          still_open G l l1 \<and> lw_work G l1 \<le> lw_work G l)
     \<and> (\<forall>l r l1 d ok l2. client_data_required L l = (r, l1) \<longrightarrow> valid r \<longrightarrow>
          supply_client_data L l1 r d = (ok, l2) \<longrightarrow> still_open G l1 l2 \<and> lw_work G l2 < lw_work G l1)"

definition device_finite :: "'l cbe_library \<Rightarrow> 'l library_work \<Rightarrow> bool" where
  "device_finite L G \<longleftrightarrow>
     (\<forall>l i r j. has_io_request L l i = (r, j) \<longrightarrow> valid r \<longrightarrow> lw_io G l j)
     \<and> (\<forall>l i. lw_io G l i \<longrightarrow>
          still_open G l (io_request_in_progress L l i) \<and> lw_work G (io_request_in_progress L l i) \<le> lw_work G l)
     \<and> (\<forall>l i ok. lw_io G l i \<longrightarrow>
          (lw_encrypting G l \<longrightarrow> lw_encrypting G (io_request_completed L l i ok))
          \<and> (lw_decrypting G l \<longrightarrow> lw_decrypting G (io_request_completed L l i ok))
          \<and> lw_work G (io_request_completed L l i ok) < lw_work G l)"

definition crypto_finite :: "'l cbe_library \<Rightarrow> 'l library_work \<Rightarrow> bool" where
  "crypto_finite L G \<longleftrightarrow>
     (\<forall>l k r k' l'. crypto_add_key_required L l k = (r, k') \<longrightarrow> valid r \<longrightarrow>
          l' = crypto_add_key_completed L (crypto_add_key_requested L l r) (set_success r True) \<longrightarrow>
          still_open G l l' \<and> lw_work G l' < lw_work G l)
     \<and> (\<forall>l k r k' l'. crypto_remove_key_required L l k = (r, k') \<longrightarrow> valid r \<longrightarrow>
          l' = crypto_remove_key_completed L (crypto_remove_key_requested L l r) (set_success r True) \<longrightarrow>
          still_open G l l' \<and> lw_work G l' < lw_work G l)
     \<and> (\<forall>l i r j l'. crypto_cipher_data_required L l i = (r, j) \<longrightarrow> valid r \<longrightarrow>
          l' = crypto_cipher_data_requested L l j \<longrightarrow>
          req_operation r = WRITE \<and> \<not> lw_encrypting G l
          \<and> still_open G l l' \<and> lw_encrypting G l' \<and> lw_work G l' < lw_work G l)
     \<and> (\<forall>l i r j l'. crypto_plain_data_required L l i = (r, j) \<longrightarrow> valid r \<longrightarrow>
          l' = crypto_plain_data_requested L l j \<longrightarrow>
          req_operation r = READ \<and> \<not> lw_decrypting G l
          \<and> still_open G l l' \<and> lw_decrypting G l' \<and> lw_work G l' < lw_work G l)
     \<and> (\<forall>l i ok l'. lw_encrypting G l \<longrightarrow> l' = supply_crypto_cipher_data L l i ok \<longrightarrow>
          (\<forall>j. lw_io G l j \<longrightarrow> lw_io G l' j) \<and> (lw_decrypting G l \<longrightarrow> lw_decrypting G l')
          \<and> lw_work G l' \<le> lw_work G l)
     \<and> (\<forall>l i ok l'. lw_decrypting G l \<longrightarrow> l' = supply_crypto_plain_data L l i ok \<longrightarrow>
          (\<forall>j. lw_io G l j \<longrightarrow> lw_io G l' j) \<and> (lw_encrypting G l \<longrightarrow> lw_encrypting G l')
          \<and> lw_work G l' \<le> lw_work G l)"

definition library_finite :: "'l cbe_library \<Rightarrow> 'l library_work \<Rightarrow> bool" where
  "library_finite L G \<longleftrightarrow> client_finite L G \<and> device_finite L G \<and> crypto_finite L G"

text \<open>The conditions one by one.\<close>

lemmas finite_client = client_finite_def [THEN iffD1]
lemmas finite_client2 = finite_client [THEN conjunct2]
lemmas finite_client3 = finite_client2 [THEN conjunct2]
lemmas finite_client4 = finite_client3 [THEN conjunct2]
lemmas finite_client5 = finite_client4 [THEN conjunct2]
lemmas finite_client6 = finite_client5 [THEN conjunct2]
lemmas finite_submit = finite_client [THEN conjunct1, rule_format]
lemmas finite_execute = finite_client2 [THEN conjunct1, rule_format]
lemmas finite_drop = finite_client3 [THEN conjunct1, rule_format, OF _ refl]
lemmas finite_ready = finite_client4 [THEN conjunct1, rule_format]
lemmas finite_obtain = finite_client5 [THEN conjunct1, rule_format]
lemmas finite_required = finite_client6 [THEN conjunct1, rule_format]
lemmas finite_supply = finite_client6 [THEN conjunct2, rule_format]

lemmas finite_device = device_finite_def [THEN iffD1]
lemmas finite_io = finite_device [THEN conjunct1, rule_format]
lemmas finite_in_progress = finite_device [THEN conjunct2, THEN conjunct1, rule_format]
lemmas finite_completed = finite_device [THEN conjunct2, THEN conjunct2, rule_format]

lemmas finite_crypto = crypto_finite_def [THEN iffD1]
lemmas finite_crypto2 = finite_crypto [THEN conjunct2]
lemmas finite_crypto3 = finite_crypto2 [THEN conjunct2]
lemmas finite_crypto4 = finite_crypto3 [THEN conjunct2]
lemmas finite_crypto5 = finite_crypto4 [THEN conjunct2]
lemmas finite_add_key = finite_crypto [THEN conjunct1, rule_format, OF _ _ _ refl]
lemmas finite_remove_key = finite_crypto2 [THEN conjunct1, rule_format, OF _ _ _ refl]
lemmas finite_cipher = finite_crypto3 [THEN conjunct1, rule_format, OF _ _ _ refl]
lemmas finite_plain = finite_crypto4 [THEN conjunct1, rule_format, OF _ _ _ refl]
lemmas finite_supply_cipher = finite_crypto5 [THEN conjunct1, rule_format, OF _ _ refl]
lemmas finite_supply_plain = finite_crypto5 [THEN conjunct2, rule_format, OF _ _ refl]

text \<open>A transfer that succeeds moves something, and not more than was asked for.\<close>

definition file_moves :: "'f vfs_file \<Rightarrow> bool" where
  "file_moves F \<longleftrightarrow>
     (\<forall>f n out bs f'. vfs_complete_read F f n = ((READ_OK, out, bs), f') \<longrightarrow>
        out \<le> n \<and> (n \<noteq> 0 \<longrightarrow> out \<noteq> 0))
     \<and> (\<forall>f d n out f'. vfs_write F f d n = ((Wrote WRITE_OK, out), f') \<longrightarrow>
        out \<le> n \<and> (n \<noteq> 0 \<longrightarrow> out \<noteq> 0))"

lemma still_open_refl [simp]: "still_open G l l"
  by (simp add: still_open_def)

lemma still_open_trans: "still_open G l l1 \<Longrightarrow> still_open G l1 l2 \<Longrightarrow> still_open G l l2"
  by (auto simp: still_open_def)

section \<open>The back-end job\<close>

definition job_left :: "io_job \<Rightarrow> nat" where
  "job_left j = 2 * unat (job_current_count j) + (if job_io_state j = PENDING then 1 else 0)"

text \<open>
  What a call of the job achieves: the job is still open and has come closer to its end, or its
  request is completed. The Boolean is the progress reported.
\<close>

definition job_advances :: "'l library_work \<Rightarrow> ('f, 'l) io_env \<Rightarrow> ('f, 'l) io_env \<Rightarrow> bool \<Rightarrow> bool" where
  "job_advances G e e' p \<longleftrightarrow>
     (\<not> job_complete (env_job e') \<and> job_index (env_job e') = job_index (env_job e)
      \<and> still_open G (env_lib e) (env_lib e') \<and> lw_work G (env_lib e') \<le> lw_work G (env_lib e)
      \<and> job_left (env_job e') \<le> job_left (env_job e) \<and> (p \<longrightarrow> job_left (env_job e') < job_left (env_job e)))
     \<or> (job_complete (env_job e')
      \<and> (lw_encrypting G (env_lib e) \<longrightarrow> lw_encrypting G (env_lib e'))
      \<and> (lw_decrypting G (env_lib e) \<longrightarrow> lw_decrypting G (env_lib e'))
      \<and> lw_work G (env_lib e') < lw_work G (env_lib e))"

lemma job_done_advances:
  assumes "device_finite L G" "lw_io G (env_lib e) (job_index (env_job e))" "job_done L e = (e', p)"
  shows "job_advances G e e' q"
  using assms(3) finite_completed [OF assms(1,2), of "job_success (env_job e)"]
  by (auto simp: job_advances_def job_done_def)

lemma apply_answer_advances:
  assumes "device_finite L G" "lw_io G (env_lib e) (job_index (env_job e))" "\<not> job_complete (env_job e)"
    and "job_io_state (env_job e) = IN_PROGRESS"
    and "\<And>out. a = Moved out \<Longrightarrow> out \<le> job_current_count (env_job e) \<and> (job_current_count (env_job e) \<noteq> 0 \<longrightarrow> out \<noteq> 0)"
    and "apply_answer L progress a e = (e', p)"
  shows "job_advances G e e' p \<or> e' = e \<and> p = progress"
proof (cases a)
  case Wait
  with assms(6) show ?thesis by (simp add: apply_answer_def)
next
  case (Moved out)
  let ?c = "job_current_count (env_job e)"
  show ?thesis
  proof (cases "?c - out = 0")
    case True
    with Moved assms(6) finite_completed [OF assms(1,2)] show ?thesis
      by (auto simp: apply_answer_def job_done_def job_advances_def)
  next
    case False
    with assms(5) [OF Moved] have "out \<le> ?c" "out \<noteq> 0" by auto
    then have "unat (?c - out) = unat ?c - unat out" "unat out \<le> unat ?c" "0 < unat out"
      by (simp_all add: unat_sub word_le_nat_alt unat_gt_0)
    with False Moved assms(3,4,6) show ?thesis
      by (auto simp: apply_answer_def job_advances_def job_left_def Let_def)
  qed
next
  case Failed
  with assms(6) finite_completed [OF assms(1,2)] show ?thesis
    by (auto simp: apply_answer_def job_done_def job_advances_def)
qed

definition job_stays :: "('f, 'l) io_env \<Rightarrow> ('f, 'l) io_env \<Rightarrow> bool" where
  "job_stays e e' \<longleftrightarrow> env_job e' = env_job e \<and> env_lib e' = env_lib e"

lemma read_in_progress_advances:
  assumes "device_finite L G" "file_moves F" "lw_io G (env_lib e) (job_index (env_job e))"
    and "\<not> job_complete (env_job e)" "job_io_state (env_job e) = IN_PROGRESS"
    and "read_in_progress F L progress e = Inr (e', p)"
  shows "job_advances G e e' p \<or> job_stays e e' \<and> p = progress"
  using assms(6)
proof (rule read_in_progressE)
  fix data result out bs f' io'
  assume answer: "vfs_complete_read F (env_file e) (job_current_count (env_job e)) = ((result, out, bs), f')"
    and e': "apply_answer L progress (read_answer result out) (e\<lparr>env_file := f', env_io_data := io'\<rparr>) = (e', p)"
  have "n = out \<and> result = READ_OK" if "read_answer result out = Moved n" for n
    using that by (cases result) simp_all
  with assms(2) answer have "n \<le> job_current_count (env_job e) \<and> (job_current_count (env_job e) \<noteq> 0 \<longrightarrow> n \<noteq> 0)"
    if "read_answer result out = Moved n" for n
    using that unfolding file_moves_def by metis
  from apply_answer_advances [OF assms(1) _ _ _ _ e'] assms(3-5) this
  show ?thesis by (auto simp: job_advances_def job_stays_def)
qed

lemma write_in_progress_advances:
  assumes "device_finite L G" "file_moves F" "lw_io G (env_lib e) (job_index (env_job e))"
    and "\<not> job_complete (env_job e)" "job_io_state (env_job e) = IN_PROGRESS"
    and "write_in_progress F L progress e = Inr (e', p)"
  shows "job_advances G e e' p \<or> job_stays e e' \<and> p = progress"
  using assms(6)
proof (rule write_in_progressE)
  fix data outcome out f'
  assume answer: "vfs_write F (env_file e)
       (take (unat (job_current_count (env_job e))) (drop (unat (job_current_offset (env_job e))) data))
       (job_current_count (env_job e)) = ((outcome, out), f')"
    and e': "apply_answer L progress (write_answer outcome out) (e\<lparr>env_file := f'\<rparr>) = (e', p)"
  have "n = out \<and> outcome = Wrote WRITE_OK" if "write_answer outcome out = Moved n" for n
    using that by (cases "(outcome, out)" rule: write_answer.cases) simp_all
  with assms(2) answer have "n \<le> job_current_count (env_job e) \<and> (job_current_count (env_job e) \<noteq> 0 \<longrightarrow> n \<noteq> 0)"
    if "write_answer outcome out = Moved n" for n
    using that unfolding file_moves_def by metis
  from apply_answer_advances [OF assms(1) _ _ _ _ e'] assms(3-5) this
  show ?thesis by (auto simp: job_advances_def job_stays_def)
qed

lemma sync_in_progress_advances:
  assumes "device_finite L G" "lw_io G (env_lib e) (job_index (env_job e))"
    and "sync_in_progress F L progress e = Inr (e', p)"
  shows "job_advances G e e' p \<or> job_stays e e' \<and> p = progress"
  using assms(3) finite_completed [OF assms(1,2)]
  by (auto simp: sync_in_progress_def Let_def job_done_def job_advances_def job_stays_def
      split: prod.splits sync_result.splits)

text \<open>The way of a pending job: it is marked, and the rest is as for a job in progress.\<close>

lemma pending_advances:
  assumes "device_finite L G" "lw_io G (env_lib e) (job_index (env_job e))" "\<not> job_complete (env_job e)"
    and "job_io_state (env_job e) = PENDING"
    and "env_lib e1 = io_request_in_progress L (env_lib e) (job_index (env_job e))"
      "env_job e1 = (env_job e)\<lparr>job_io_state := IN_PROGRESS\<rparr>"
    and "job_advances G e1 e' p \<or> job_stays e1 e'"
  shows "job_advances G e e' q"
proof -
  note marked = finite_in_progress [OF assms(1,2)]
  have "job_left (env_job e1) < job_left (env_job e)" using assms(4,6) by (simp add: job_left_def)
  with assms(3,5-7) marked show ?thesis
    by (auto simp: job_advances_def job_stays_def still_open_def)
qed

lemma job_execute_advances:
  assumes "device_finite L G" "file_moves F" "lw_io G (env_lib e) (job_index (env_job e))"
    and "\<not> job_complete (env_job e)" "job_execute F L e = Inr (e', p)"
  shows "job_advances G e e' p"
proof -
  let ?marked = "\<lambda>f. e\<lparr>env_file := f, env_lib := io_request_in_progress L (env_lib e) (job_index (env_job e)),
      env_job := (env_job e)\<lparr>job_io_state := IN_PROGRESS\<rparr>\<rparr>"
  have marked: "lw_io G (env_lib (?marked f)) (job_index (env_job (?marked f)))" for f
    using finite_in_progress [OF assms(1,3)] assms(3) by (simp add: still_open_def)
  have stays: "job_advances G e e' False" if "job_stays e e'"
    using that assms(4) by (simp add: job_stays_def job_advances_def)
  note pending = pending_advances [OF assms(1,3,4)]
  have "job_advances G e e' p" if "io_read F L e = Inr (e', p)"
  proof (cases "job_io_state (env_job e)")
    case PENDING
    obtain q f2 where queue: "vfs_queue_read F
        (vfs_seek F (env_file e) (job_base_offset (env_job e) + job_current_offset (env_job e)))
        (job_current_count (env_job e)) = (q, f2)" by fastforce
    show ?thesis
    proof (cases q)
      case True
      with that PENDING queue have "read_in_progress F L True (?marked f2) = Inr (e', p)"
        by (simp add: io_read_def Let_def)
      from read_in_progress_advances [OF assms(1,2) marked _ _ this] assms(4)
      show ?thesis by (intro pending [OF PENDING, of "?marked f2" e' p]) auto
    next
      case False
      with that PENDING queue stays show ?thesis by (auto simp: io_read_def Let_def job_stays_def)
    qed
  next
    case IN_PROGRESS
    with that read_in_progress_advances [OF assms(1-4)] stays show ?thesis by (auto simp: io_read_def Let_def)
  next
    case COMPLETE
    with that job_done_advances [OF assms(1,3)] show ?thesis by (simp add: io_read_def Let_def)
  qed
  moreover have "job_advances G e e' p" if "io_write F L e = Inr (e', p)"
  proof (cases "job_io_state (env_job e)")
    case PENDING
    let ?f = "vfs_seek F (env_file e) (job_base_offset (env_job e) + job_current_offset (env_job e))"
    from that PENDING have "write_in_progress F L True (?marked ?f) = Inr (e', p)"
      by (simp add: io_write_def Let_def)
    from write_in_progress_advances [OF assms(1,2) marked _ _ this] assms(4)
    show ?thesis by (intro pending [OF PENDING, of "?marked ?f" e' p]) auto
  next
    case IN_PROGRESS
    with that write_in_progress_advances [OF assms(1-4)] stays show ?thesis by (auto simp: io_write_def Let_def)
  next
    case COMPLETE
    with that job_done_advances [OF assms(1,3)] show ?thesis by (simp add: io_write_def Let_def)
  qed
  moreover have "job_advances G e e' p" if "io_sync F L e = Inr (e', p)"
  proof (cases "job_io_state (env_job e)")
    case PENDING
    obtain q f2 where queue: "vfs_queue_sync F (env_file e) = (q, f2)" by fastforce
    show ?thesis
    proof (cases q)
      case True
      with that PENDING queue have "sync_in_progress F L True (?marked f2) = Inr (e', p)"
        by (simp add: io_sync_def Let_def)
      from sync_in_progress_advances [OF assms(1) marked this]
      show ?thesis by (intro pending [OF PENDING, of "?marked f2" e' p]) auto
    next
      case False
      with that PENDING queue stays show ?thesis by (auto simp: io_sync_def Let_def job_stays_def)
    qed
  next
    case IN_PROGRESS
    with that sync_in_progress_advances [OF assms(1,3)] stays show ?thesis by (auto simp: io_sync_def Let_def)
  next
    case COMPLETE
    with that job_done_advances [OF assms(1,3)] show ?thesis by (simp add: io_sync_def Let_def)
  qed
  ultimately show ?thesis
    using assms(5) stays by (auto simp: job_execute_def job_stays_def split: if_splits)
qed

section \<open>The crypto unit\<close>

definition slot_left :: "crypto_job \<Rightarrow> nat" where
  "slot_left j =
     (if \<not> job_active j then 0 else if job_state j = Submitted then 2 else 1)"

definition crypto_left :: "crypto \<Rightarrow> nat" where
  "crypto_left c = sum_list (map slot_left (cr_jobs c))"

definition slot_in_step :: "'l library_work \<Rightarrow> 'l \<Rightarrow> crypto_job \<Rightarrow> bool" where
  "slot_in_step G l j \<longleftrightarrow>
     (job_operation j = Job_Encrypt \<longrightarrow>
        lw_encrypting G l \<and> spark_valid (job_request j) \<and> spark_operation (job_request j) = WRITE
        \<and> spark_count (job_request j) \<le> Tree_Max_Number_Of_Leafs)
     \<and> (job_operation j = Job_Decrypt \<longrightarrow>
        lw_decrypting G l \<and> spark_valid (job_request j) \<and> spark_operation (job_request j) = READ
        \<and> spark_count (job_request j) \<le> Tree_Max_Number_Of_Leafs)"

text \<open>
  At most one job of each direction, each asked for by the library, and no freed first slot
  whose request equals that of the second.
\<close>

definition crypto_in_step :: "'l library_work \<Rightarrow> 'l \<Rightarrow> crypto \<Rightarrow> bool" where
  "crypto_in_step G l c \<longleftrightarrow>
     (\<exists>a b. cr_jobs c = [a, b] \<and> slot_in_step G l a \<and> slot_in_step G l b
        \<and> (job_active b \<longrightarrow> job_operation a \<noteq> job_operation b)
        \<and> (job_active b \<longrightarrow> \<not> spark_request_equal (job_request a) (job_request b)))"

lemmas in_step_defs = crypto_in_step_def slot_in_step_def slot_left_def crypto_left_def job_active_def

lemma crypto_in_step_open: "crypto_in_step G l c \<Longrightarrow> still_open G l l' \<Longrightarrow> crypto_in_step G l' c"
  by (auto simp: crypto_in_step_def slot_in_step_def still_open_def)

lemma crypto_execute_left:
  assumes "crypto_in_step G l c" "crypto_execute A c = Inr (c', p)"
  shows "crypto_in_step G l c' \<and> crypto_left c' \<le> crypto_left c \<and> (p \<longrightarrow> crypto_left c' < crypto_left c)"
proof -
  have slot: "job_operation j' = job_operation j \<and> slot_left j' \<le> slot_left j
      \<and> (q' \<longrightarrow> q \<or> slot_left j' < slot_left j)
      \<and> spark_request_equal (job_request j') (job_request j)
      \<and> spark_valid (job_request j') = spark_valid (job_request j)
      \<and> spark_operation (job_request j') = spark_operation (job_request j)
      \<and> spark_count (job_request j') = spark_count (job_request j)"
    if "(case job_operation j of
          Job_Encrypt \<Rightarrow> Execute_Encrypt A j ks q
        | Job_Decrypt \<Rightarrow> Execute_Decrypt A j ks q
        | Job_Invalid \<Rightarrow> Inr (j, q)) = Inr (j', q')" for j ks q j' q'
    using that
    by (auto simp: Execute_Encrypt_def Execute_Decrypt_def slot_left_def job_active_def bind_exn_def
        split: job_operation_type.splits job_state_type.splits sum.splits)
  obtain a b where slots: "cr_jobs c = [a, b]" "slot_in_step G l a" "slot_in_step G l b"
      "job_active b \<longrightarrow> job_operation a \<noteq> job_operation b"
      "job_active b \<longrightarrow> \<not> spark_request_equal (job_request a) (job_request b)"
    using assms(1) by (auto simp: crypto_in_step_def)
  obtain a' q b' where a': "(case job_operation a of
          Job_Encrypt \<Rightarrow> Execute_Encrypt A a (cr_keys c) False
        | Job_Decrypt \<Rightarrow> Execute_Decrypt A a (cr_keys c) False
        | Job_Invalid \<Rightarrow> Inr (a, False)) = Inr (a', q)"
    and b': "(case job_operation b of
          Job_Encrypt \<Rightarrow> Execute_Encrypt A b (cr_keys c) q
        | Job_Decrypt \<Rightarrow> Execute_Decrypt A b (cr_keys c) q
        | Job_Invalid \<Rightarrow> Inr (b, q)) = Inr (b', p)"
    and c': "c' = c\<lparr>cr_jobs := [a', b']\<rparr>"
    using assms(2) slots(1)
    by (auto simp: crypto_execute_def Crypto_Execute_def elim!: bind_exn_InrE)
  note sa = slot [OF a'] and sb = slot [OF b']
  have "\<not> spark_request_equal (job_request a') (job_request b')" if "job_active b'"
    using that slots(5) sa sb by (auto simp: spark_request_equal_def job_active_def)
  moreover have "slot_in_step G l a'" "slot_in_step G l b'"
    using slots(2,3) sa sb by (simp_all add: slot_in_step_def)
  moreover have "job_active b' \<longrightarrow> job_operation a' \<noteq> job_operation b'"
    using slots(4) sa sb by (simp add: job_active_def)
  ultimately have "crypto_in_step G l c'" by (simp add: crypto_in_step_def c')
  moreover have "crypto_left c' = slot_left a' + slot_left b'" "crypto_left c = slot_left a + slot_left b"
    using slots(1) by (simp_all add: crypto_left_def c')
  ultimately show ?thesis using sa sb by auto
qed

lemma update_in_step:
  assumes "crypto_in_step G l c" "still_open G l l'" "update_invalid_job f (cr_jobs c) = Inr js"
    and "\<And>j. slot_in_step G l' (f j) \<and> job_operation (f j) = D \<and> job_request (f j) = q"
    and "\<And>j. job_active j \<Longrightarrow> slot_in_step G l j \<Longrightarrow> job_operation j \<noteq> D \<and> \<not> spark_request_equal q (job_request j)"
  shows "crypto_in_step G l' (c\<lparr>cr_jobs := js\<rparr>)"
proof -
  obtain a b where slots: "cr_jobs c = [a, b]" "slot_in_step G l a" "slot_in_step G l b"
      "job_active b \<longrightarrow> job_operation a \<noteq> job_operation b"
      "job_active b \<longrightarrow> \<not> spark_request_equal (job_request a) (job_request b)"
    using assms(1) by (auto simp: crypto_in_step_def)
  have later: "slot_in_step G l' a" "slot_in_step G l' b"
    using slots(2,3) assms(2) by (auto simp: slot_in_step_def still_open_def)
  show ?thesis
  proof (cases "job_active a")
    case False
    with assms(3) slots(1) have "js = [f a, b]" by (simp add: job_active_def)
    with assms(4) [of a] assms(5) [OF _ slots(3)] later show ?thesis by (auto simp: crypto_in_step_def)
  next
    case True
    with assms(3) slots(1) have "js = [a, f b]"
      by (auto simp: job_active_def bind_exn_def split: if_splits)
    with assms(4) [of b] assms(5) [OF True slots(2)] later spark_request_equal_sym [of q] show ?thesis
      by (auto simp: crypto_in_step_def)
  qed
qed

lemma submit_in_step:
  assumes "crypto_in_step G l c" "still_open G l l'" "valid r"
  shows "submit_encryption_request c (set_tag r i) d k = Inr (c', ok) \<Longrightarrow> req_operation r = WRITE \<Longrightarrow>
      \<not> lw_encrypting G l \<Longrightarrow> lw_encrypting G l' \<Longrightarrow> crypto_in_step G l' c'"
    and "submit_decryption_request c (set_tag r i) d k = Inr (c', ok) \<Longrightarrow> req_operation r = READ \<Longrightarrow>
      \<not> lw_decrypting G l \<Longrightarrow> lw_decrypting G l' \<Longrightarrow> crypto_in_step G l' c'"
proof -
  let ?q = "to_spark (set_tag r i)"
  have q: "spark_valid ?q" "spark_operation ?q = req_operation r"
    using assms(3) by (simp_all add: valid_def to_spark_def)
  have count: "spark_count ?q \<le> Tree_Max_Number_Of_Leafs" if "spark_of_request (set_tag r i) = Inr s" for s
    using spark_of_request_InrD [OF that] assms(3)
    by (simp add: count_in_range_def to_spark_def valid_def)
  show "crypto_in_step G l' c'" if sub: "submit_encryption_request c (set_tag r i) d k = Inr (c', ok)"
    and dir: "req_operation r = WRITE" "\<not> lw_encrypting G l" "lw_encrypting G l'"
  proof -
    obtain js where js: "update_invalid_job (\<lambda>j. j\<lparr>job_operation := Job_Encrypt, job_state := Submitted,
        job_request := ?q, job_plain_data := d\<rparr>) (cr_jobs c) = Inr js" and c': "c' = c\<lparr>cr_jobs := js\<rparr>"
        and range: "spark_count ?q \<le> Tree_Max_Number_Of_Leafs"
      using sub count
      by (auto simp: submit_encryption_request_def Submit_Encryption_Request_def elim!: bind_exn_InrE dest: spark_of_request_InrD)
    have other: "job_operation j \<noteq> Job_Encrypt \<and> \<not> spark_request_equal ?q (job_request j)"
      if "job_active j" "slot_in_step G l j" for j
      using that q dir
      by (cases "job_operation j") (simp_all add: slot_in_step_def job_active_def spark_request_equal_def)
    have "crypto_in_step G l' (c\<lparr>cr_jobs := js\<rparr>)"
      by (rule update_in_step [OF assms(1,2) js, of Job_Encrypt ?q]) (simp add: slot_in_step_def q(2) range dir assms(3) [unfolded valid_def] valid_def, rule other, assumption+)
    with c' show ?thesis by simp
  qed
  show "crypto_in_step G l' c'" if sub: "submit_decryption_request c (set_tag r i) d k = Inr (c', ok)"
    and dir: "req_operation r = READ" "\<not> lw_decrypting G l" "lw_decrypting G l'"
  proof -
    obtain js where js: "update_invalid_job (\<lambda>j. j\<lparr>job_operation := Job_Decrypt, job_state := Submitted,
        job_request := ?q, job_cipher_data := d\<rparr>) (cr_jobs c) = Inr js" and c': "c' = c\<lparr>cr_jobs := js\<rparr>"
        and range: "spark_count ?q \<le> Tree_Max_Number_Of_Leafs"
      using sub count
      by (auto simp: submit_decryption_request_def Submit_Decryption_Request_def elim!: bind_exn_InrE dest: spark_of_request_InrD)
    have other: "job_operation j \<noteq> Job_Decrypt \<and> \<not> spark_request_equal ?q (job_request j)"
      if "job_active j" "slot_in_step G l j" for j
      using that q dir
      by (cases "job_operation j") (simp_all add: slot_in_step_def job_active_def spark_request_equal_def)
    have "crypto_in_step G l' (c\<lparr>cr_jobs := js\<rparr>)"
      by (rule update_in_step [OF assms(1,2) js, of Job_Decrypt ?q]) (simp add: slot_in_step_def q(2) range dir assms(3) [unfolded valid_def] valid_def, rule other, assumption+)
    with c' show ?thesis by simp
  qed
qed

lemma supply_slot:
  assumes "crypto_in_step G l c" "first_completed D (cr_jobs c) = s" "spark_valid s" "D \<noteq> Job_Invalid"
    and "supply_job data s (cr_jobs c) = (js, out)"
  shows "out \<noteq> None \<and> sum_list (map slot_left js) < crypto_left c
     \<and> (\<forall>l'. (\<forall>j. job_operation j \<noteq> D \<longrightarrow> slot_in_step G l j \<longrightarrow> slot_in_step G l' j) \<longrightarrow>
          crypto_in_step G l' (c\<lparr>cr_jobs := js\<rparr>))
     \<and> (\<exists>j. job_operation j = D \<and> slot_in_step G l j \<and> job_request j = s)"
proof -
  obtain a b where slots: "cr_jobs c = [a, b]" "slot_in_step G l a" "slot_in_step G l b"
      "job_active b \<longrightarrow> job_operation a \<noteq> job_operation b"
      "job_active b \<longrightarrow> \<not> spark_request_equal (job_request a) (job_request b)"
    using assms(1) by (auto simp: crypto_in_step_def)
  consider (first) "job_operation a = D" "job_state a = Completed" "s = job_request a"
    | (second) "job_operation b = D" "job_state b = Completed" "s = job_request b"
        "\<not> spark_request_equal s (job_request a)"
    using assms(2-4) slots
    by (auto simp: spark_invalid_object_def job_active_def spark_request_equal_sym split: if_splits)
  moreover have freed: "slot_in_step G l' (j\<lparr>job_operation := Job_Invalid\<rparr>)" for l' j
    by (simp add: slot_in_step_def)
  ultimately show ?thesis
  proof cases
    case first
    with assms(5) slots(1) have "js = [a\<lparr>job_operation := Job_Invalid\<rparr>, b]" "out = Some (data a)" by simp_all
    moreover have "job_operation b \<noteq> D" using first(1) slots(4) assms(4) by (auto simp: job_active_def)
    ultimately show ?thesis
      using first slots assms(4) freed by (auto simp: crypto_left_def slot_left_def crypto_in_step_def job_active_def)
  next
    case second
    with assms(5) slots(1) have "js = [a, b\<lparr>job_operation := Job_Invalid\<rparr>]" "out = Some (data b)" by simp_all
    moreover have "job_operation a \<noteq> D" using second(1) slots(4) assms(4) by (auto simp: job_active_def)
    ultimately show ?thesis
      using second slots assms(4) freed by (auto simp: crypto_left_def slot_left_def crypto_in_step_def job_active_def)
  qed
qed

lemma supply_in_step:
  assumes "crypto_in_step G l c"
  shows "valid (peek_completed_encryption_request c) \<Longrightarrow>
      supply_cipher_data c (peek_completed_encryption_request c) = Inr (c', out) \<Longrightarrow>
      out \<noteq> None \<and> lw_encrypting G l \<and> crypto_left c' < crypto_left c
      \<and> (\<forall>l'. (lw_decrypting G l \<longrightarrow> lw_decrypting G l') \<longrightarrow> crypto_in_step G l' c')"
    and "valid (peek_completed_decryption_request c) \<Longrightarrow>
      supply_plain_data c (peek_completed_decryption_request c) = Inr (c', out) \<Longrightarrow>
      out \<noteq> None \<and> lw_decrypting G l \<and> crypto_left c' < crypto_left c
      \<and> (\<forall>l'. (lw_encrypting G l \<longrightarrow> lw_encrypting G l') \<longrightarrow> crypto_in_step G l' c')"
proof -
  have round: "spark_valid s \<and> to_spark (from_spark s) = s" if "valid (from_spark s)" for s
    using that to_from_spark by simp
  show "out \<noteq> None \<and> lw_encrypting G l \<and> crypto_left c' < crypto_left c
      \<and> (\<forall>l'. (lw_decrypting G l \<longrightarrow> lw_decrypting G l') \<longrightarrow> crypto_in_step G l' c')"
    if peek: "valid (peek_completed_encryption_request c)"
      and handed: "supply_cipher_data c (peek_completed_encryption_request c) = Inr (c', out)"
  proof -
    let ?s = "first_completed Job_Encrypt (cr_jobs c)"
    have s: "spark_valid ?s" "to_spark (peek_completed_encryption_request c) = ?s"
      using round [of ?s] peek by (simp_all add: peek_completed_encryption_request_def Peek_Completed_Encryption_Request_def)
    obtain js where js: "supply_job job_cipher_data ?s (cr_jobs c) = (js, out)" and c': "c' = c\<lparr>cr_jobs := js\<rparr>"
      using handed
      by (auto simp: supply_cipher_data_def Supply_Cipher_Data_def spark_of_request_eq s split: prod.splits if_splits)
    from supply_slot [OF assms refl s(1) _ js] c' show ?thesis
      by (auto simp: slot_in_step_def crypto_left_def)
  qed
  show "out \<noteq> None \<and> lw_decrypting G l \<and> crypto_left c' < crypto_left c
      \<and> (\<forall>l'. (lw_encrypting G l \<longrightarrow> lw_encrypting G l') \<longrightarrow> crypto_in_step G l' c')"
    if peek: "valid (peek_completed_decryption_request c)"
      and handed: "supply_plain_data c (peek_completed_decryption_request c) = Inr (c', out)"
  proof -
    let ?s = "first_completed Job_Decrypt (cr_jobs c)"
    have s: "spark_valid ?s" "to_spark (peek_completed_decryption_request c) = ?s"
      using round [of ?s] peek by (simp_all add: peek_completed_decryption_request_def Peek_Completed_Decryption_Request_def)
    obtain js where js: "supply_job job_plain_data ?s (cr_jobs c) = (js, out)" and c': "c' = c\<lparr>cr_jobs := js\<rparr>"
      using handed
      by (auto simp: supply_plain_data_def Supply_Plain_Data_def spark_of_request_eq s split: prod.splits if_splits)
    from supply_slot [OF assms refl s(1) _ js] c' show ?thesis
      by (auto simp: slot_in_step_def crypto_left_def)
  qed
qed

section \<open>The measure\<close>

definition in_step :: "'l library_work \<Rightarrow> ('l, 'f) wrapper \<Rightarrow> bool" where
  "in_step G w \<longleftrightarrow>
     crypto_in_step G (w_cbe w) (w_crypto w)
     \<and> (case w_backend_job w of None \<Rightarrow> True
        | Some j \<Rightarrow> \<not> job_complete j \<and> lw_io G (w_cbe w) (job_index j))"

definition work_left :: "'l library_work \<Rightarrow> ('l, 'f) wrapper \<Rightarrow> nat \<times> nat \<times> nat \<times> nat \<times> nat" where
  "work_left G w =
     (7 - rank (phase_of w), lw_work G (w_cbe w),
      case w_backend_job w of None \<Rightarrow> 1 | Some j \<Rightarrow> 0,
      case w_backend_job w of None \<Rightarrow> 0 | Some j \<Rightarrow> job_left j,
      crypto_left (w_crypto w))"

text \<open>
  One step of the handlers, from a state with its progress flag to the next: the invariants are
  kept, no work is added, and the flag is only set when work was done.
\<close>

definition moves ::
  "('l \<Rightarrow> nat) \<Rightarrow> 'l library_work \<Rightarrow> ('l, 'f) wrapper \<times> bool \<Rightarrow> ('l, 'f) wrapper \<times> bool \<Rightarrow> bool" where
  "moves n G s s' \<longleftrightarrow>
     frontend_inv n (fst s') \<and> in_step G (fst s') \<and> work_left G (fst s') \<le> work_left G (fst s)
     \<and> (snd s' \<longrightarrow> snd s \<or> work_left G (fst s') < work_left G (fst s))"

lemma moves_refl: "frontend_inv n w \<Longrightarrow> in_step G w \<Longrightarrow> moves n G (w, p) (w, p)"
  by (simp add: moves_def)

lemma moves_trans: "moves n G s s1 \<Longrightarrow> moves n G s1 s2 \<Longrightarrow> moves n G s s2"
  by (auto simp: moves_def)

lemma in_step_open:
  assumes "in_step G w" "w_backend_job w' = w_backend_job w" "w_crypto w' = w_crypto w"
    and "still_open G (w_cbe w) (w_cbe w')"
  shows "in_step G w'"
  using assms crypto_in_step_open [of G "w_cbe w" "w_crypto w" "w_cbe w'"]
  by (auto simp: in_step_def still_open_def split: option.splits)

lemma rank_le: "rank p \<le> 7"
  by (cases p) simp_all

lemma work_left_phase:
  assumes "rank (phase_of w) < rank (phase_of w')"
  shows "work_left G w' < work_left G w"
proof -
  have "7 - rank (phase_of w') < 7 - rank (phase_of w)" using assms rank_le [of "phase_of w'"] by linarith
  then show ?thesis by (simp add: work_left_def less_prod_def)
qed

lemma work_left_library:
  assumes "rank (phase_of w) \<le> rank (phase_of w')" "lw_work G (w_cbe w') < lw_work G (w_cbe w)"
  shows "work_left G w' < work_left G w"
  using assms by (auto simp: work_left_def less_prod_def)

lemma work_left_le:
  assumes "rank (phase_of w) \<le> rank (phase_of w')" "lw_work G (w_cbe w') \<le> lw_work G (w_cbe w)"
    and "w_backend_job w' = w_backend_job w" "crypto_left (w_crypto w') \<le> crypto_left (w_crypto w)"
  shows "work_left G w' \<le> work_left G w"
  using assms by (auto simp: work_left_def less_eq_prod_def)

text \<open>A front-end step keeps job and crypto unit; either it takes the phase on or it keeps it.\<close>

lemma moves_front:
  assumes "in_step G w" "frontend_inv n w'" "w_backend_job w' = w_backend_job w" "w_crypto w' = w_crypto w"
    and "still_open G (w_cbe w) (w_cbe w')"
    and "drive (phase_of w) (phase_of w')
      \<or> phase_of w' = phase_of w \<and> lw_work G (w_cbe w') \<le> lw_work G (w_cbe w)
        \<and> (p' \<longrightarrow> p \<or> lw_work G (w_cbe w') < lw_work G (w_cbe w))"
  shows "moves n G (w, p) (w', p')"
proof -
  have "in_step G w'" by (rule in_step_open [OF assms(1,3-5)])
  moreover have "drive (phase_of w) (phase_of w') \<Longrightarrow> work_left G w' < work_left G w"
    by (intro work_left_phase) (auto dest: drive_rank)
  moreover have "phase_of w' = phase_of w \<Longrightarrow> lw_work G (w_cbe w') \<le> lw_work G (w_cbe w) \<Longrightarrow> work_left G w' \<le> work_left G w"
    by (intro work_left_le) (simp_all add: assms)
  moreover have "phase_of w' = phase_of w \<Longrightarrow> lw_work G (w_cbe w') < lw_work G (w_cbe w) \<Longrightarrow> work_left G w' < work_left G w"
    by (intro work_left_library) simp_all
  ultimately show ?thesis using assms(2,6) by (auto simp: moves_def)
qed

section \<open>The front-end handler\<close>

text \<open>The hypotheses of the rest of the theory, on a world and a state of the wrapper.\<close>

definition finite_world :: "('l \<Rightarrow> nat) \<Rightarrow> 'l library_work \<Rightarrow> ('l, 'f) world \<Rightarrow> bool" where
  "finite_world n G E \<longleftrightarrow>
     library_contract (world_lib E) n \<and> library_finite (world_lib E) G \<and> file_moves (world_file E)"

lemma finite_worldD:
  assumes "finite_world n G E"
  shows "library_contract (world_lib E) n" "client_finite (world_lib E) G" "device_finite (world_lib E) G"
    "crypto_finite (world_lib E) G" "file_moves (world_file E)"
  using assms by (simp_all add: finite_world_def library_finite_def)

lemma submit_helper_requests_moves:
  assumes "finite_world n G E" "frontend_inv n w" "in_step G w"
  shows "moves n G (w, p) (submit_helper_requests E w, p)"
proof (rule moves_front [OF assms(3) submit_helper_requests_inv [OF finite_worldD(1) [OF assms(1)] assms(2)]])
  note submitted = finite_submit [OF finite_worldD(2) [OF assms(1)]]
  show "w_backend_job (submit_helper_requests E w) = w_backend_job w"
    "w_crypto (submit_helper_requests E w) = w_crypto w"
    by (simp_all add: submit_helper_requests_def Let_def)
  show "still_open G (w_cbe w) (w_cbe (submit_helper_requests E w))"
    using submitted by (auto simp: submit_helper_requests_def Let_def intro: still_open_trans)
  show "drive (phase_of w) (phase_of (submit_helper_requests E w))
      \<or> phase_of (submit_helper_requests E w) = phase_of w
        \<and> lw_work G (w_cbe (submit_helper_requests E w)) \<le> lw_work G (w_cbe w)
        \<and> (p \<longrightarrow> p \<or> lw_work G (w_cbe (submit_helper_requests E w)) < lw_work G (w_cbe w))"
    using assms(2)
    by (cases "h_state (w_helper_read w)"; cases "h_state (w_helper_write w)")
      (auto simp: submit_helper_requests_def Let_def phase_defs inv_defs intro: drive.intros)
qed

lemma submit_pending_request_moves:
  assumes "finite_world n G E" "frontend_inv n w" "in_step G w" "submit_pending_request E w = (w', q)"
  shows "moves n G (w, p) (w', p)"
proof (rule moves_front [OF assms(3) submit_pending_request_inv [OF finite_worldD(1) [OF assms(1)] assms(2,4)]])
  note submitted = finite_submit [OF finite_worldD(2) [OF assms(1)]]
  show "w_backend_job w' = w_backend_job w" "w_crypto w' = w_crypto w"
    "still_open G (w_cbe w) (w_cbe w')"
    using assms(4) submitted by (auto simp: submit_pending_request_def Let_def split: if_splits)
  show "drive (phase_of w) (phase_of w')
      \<or> phase_of w' = phase_of w \<and> lw_work G (w_cbe w') \<le> lw_work G (w_cbe w)
        \<and> (p \<longrightarrow> p \<or> lw_work G (w_cbe w') < lw_work G (w_cbe w))"
    using assms(2,4)
    by (auto simp: submit_pending_request_def Let_def phase_defs inv_defs intro: drive.intros split: if_splits)
qed

lemma execute_library_moves:
  assumes "finite_world n G E" "frontend_inv n w" "in_step G w"
  defines "w' \<equiv> execute_library E w"
  shows "moves n G (w, False) (w', execute_progress (world_lib E) (w_cbe w'))"
proof (rule moves_front [OF assms(3)])
  obtain l d where e: "lib_execute (world_lib E) (w_cbe w) (w_io_data w) (w_plain_data w) (w_cipher_data w) = (l, d)"
    by (rule prod.exhaust)
  then have l: "w_cbe w' = l" by (simp add: w'_def execute_library_def split: prod.split)
  show "frontend_inv n w'"
    unfolding w'_def by (rule execute_library_inv [OF finite_worldD(1) [OF assms(1)] assms(2)])
  show "w_backend_job w' = w_backend_job w" "w_crypto w' = w_crypto w"
    by (simp_all add: w'_def execute_library_def split: prod.split)
  note work = finite_execute [OF finite_worldD(2) [OF assms(1)] e]
  show "still_open G (w_cbe w) (w_cbe w')" using work l by simp
  show "drive (phase_of w) (phase_of w')
      \<or> phase_of w' = phase_of w \<and> lw_work G (w_cbe w') \<le> lw_work G (w_cbe w)
        \<and> (execute_progress (world_lib E) (w_cbe w') \<longrightarrow> False \<or> lw_work G (w_cbe w') < lw_work G (w_cbe w))"
    using work l by (simp add: w'_def)
qed

text \<open>A completed request is dropped, which uses up work, whatever it does to the phase.\<close>

lemma complete_request_frame:
  assumes "complete_request E (w, p) = Continue (w', p') \<or> complete_request E (w, p) = Break (w', p')"
  shows "w_backend_job w' = w_backend_job w \<and> w_crypto w' = w_crypto w
     \<and> (w' = w \<and> p' = p \<or> valid (peek_completed_client_request (world_lib E) (w_cbe w))
        \<and> w_cbe w' = drop_completed_client_request (world_lib E) (w_cbe w)
            (peek_completed_client_request (world_lib E) (w_cbe w)))"
  using assms by (auto simp: complete_request_def Let_def split: if_splits)

lemma complete_request_moves:
  assumes "finite_world n G E" "frontend_inv n w" "in_step G w"
    and "complete_request E (w, p) = Continue (w', p') \<or> complete_request E (w, p) = Break (w', p')"
  shows "moves n G (w, p) (w', p')"
proof -
  note lib = finite_worldD [OF assms(1)]
  have inv: "frontend_inv n w'" and phase: "phase_of w' = phase_of w \<or> drive (phase_of w) (phase_of w')"
    using complete_request_inv [OF lib(1) assms(2), of p] complete_request_phase [OF lib(1) assms(2), of p] assms(4)
    by auto
  note frame = complete_request_frame [OF assms(4)]
  show ?thesis
  proof (cases "w' = w \<and> p' = p")
    case True
    with assms(2,3) show ?thesis by (simp add: moves_refl)
  next
    case False
    with frame finite_drop [OF lib(2), of "w_cbe w"]
    have "still_open G (w_cbe w) (w_cbe w')" "lw_work G (w_cbe w') < lw_work G (w_cbe w)" by auto
    with frame phase show ?thesis by (intro moves_front [OF assms(3) inv]) auto
  qed
qed

lemma complete_request_continues:
  assumes "client_finite (world_lib E) G" "complete_request E s = Continue s'"
  shows "lw_work G (w_cbe (fst s')) < lw_work G (w_cbe (fst s))"
proof -
  obtain w p w' p' where s: "s = (w, p)" "s' = (w', p')" by (cases s; cases s')
  have "valid (peek_completed_client_request (world_lib E) (w_cbe w))"
    "w_cbe w' = drop_completed_client_request (world_lib E) (w_cbe w)
            (peek_completed_client_request (world_lib E) (w_cbe w))"
    using assms(2) s by (auto simp: complete_request_def Let_def split: if_splits)
  with finite_drop [OF assms(1)] s show ?thesis by simp
qed

text \<open>A loop whose passes move the state, as a whole.\<close>

lemma run_loop_moves:
  fixes body :: "('l, 'f) wrapper \<times> bool \<Rightarrow> (('l, 'f) wrapper \<times> bool, exn) loop_step"
  assumes "run_loop body s = Some (Inr s')" "frontend_inv n (fst s)" "in_step G (fst s)"
    and "\<And>t t'. frontend_inv n (fst t) \<Longrightarrow> in_step G (fst t) \<Longrightarrow> body t = Continue t' \<or> body t = Break t' \<Longrightarrow> moves n G t t'"
  shows "moves n G s s'"
proof -
  let ?Q = "\<lambda>r. case r of Inl (e :: exn) \<Rightarrow> True | Inr t \<Rightarrow> moves n G s t"
  have "?Q (Inr s')"
  proof (rule run_loop_rule [where I = "moves n G s" and Q = ?Q, OF assms(1)])
    show "moves n G s s" using moves_refl [OF assms(2,3), of "snd s"] by simp
  next
    fix t t' assume I: "moves n G s t"
    then have inv: "frontend_inv n (fst t)" "in_step G (fst t)" by (simp_all add: moves_def)
    show "body t = Continue t' \<Longrightarrow> moves n G s t'"
      by (rule moves_trans [OF I assms(4) [OF inv]]) simp
    show "body t = Break t' \<Longrightarrow> ?Q (Inr t')"
      using moves_trans [OF I assms(4) [OF inv], of t'] by simp
  qed simp
  then show ?thesis by simp
qed

lemma complete_requests_moves:
  assumes "finite_world n G E" "frontend_inv n w" "in_step G w"
  shows "complete_requests E w p \<noteq> None"
    and "complete_requests E w p = Some (Inr (w', p')) \<Longrightarrow> moves n G (w, p) (w', p')"
proof -
  show "complete_requests E w p \<noteq> None"
    using run_loop_total [of "\<lambda>s. True" "(w, p)" "complete_request E" "\<lambda>s. lw_work G (w_cbe (fst s))"]
      complete_request_continues [OF finite_worldD(2) [OF assms(1)]]
    by (auto simp: complete_requests_def)
  show "moves n G (w, p) (w', p')" if "complete_requests E w p = Some (Inr (w', p'))"
    by (rule run_loop_moves [OF that [unfolded complete_requests_def]])
      (use assms complete_request_moves [OF assms(1)] in \<open>auto simp: split_paired_all\<close>)
qed

lemma finish_helper_read_moves:
  assumes "frontend_inv n w" "in_step G w" "finish_helper_read w p = (w', p')"
  shows "moves n G (w, p) (w', p')"
proof (rule moves_front [OF assms(2)])
  show "frontend_inv n w'" using finish_helper_read_inv [OF assms(1,3)] .
  show "w_backend_job w' = w_backend_job w" "w_crypto w' = w_crypto w" "still_open G (w_cbe w) (w_cbe w')"
    using assms(3) by (auto simp: finish_helper_read_def Let_def split: if_splits)
  show "drive (phase_of w) (phase_of w')
      \<or> phase_of w' = phase_of w \<and> lw_work G (w_cbe w') \<le> lw_work G (w_cbe w)
        \<and> (p' \<longrightarrow> p \<or> lw_work G (w_cbe w') < lw_work G (w_cbe w))"
    using assms(1,3)
    by (auto simp: finish_helper_read_def Let_def phase_defs inv_defs set_success_def
        intro: drive.intros split: if_splits)
qed

lemma finish_helper_write_moves:
  assumes "frontend_inv n w" "in_step G w" "finish_helper_write w p = (w', p')"
  shows "moves n G (w, p) (w', p')"
proof (rule moves_front [OF assms(2)])
  show "frontend_inv n w'" using finish_helper_write_inv [OF assms(1,3)] .
  show "w_backend_job w' = w_backend_job w" "w_crypto w' = w_crypto w" "still_open G (w_cbe w) (w_cbe w')"
    using assms(3) by (auto simp: finish_helper_write_def split: if_splits)
  show "drive (phase_of w) (phase_of w')
      \<or> phase_of w' = phase_of w \<and> lw_work G (w_cbe w') \<le> lw_work G (w_cbe w)
        \<and> (p' \<longrightarrow> p \<or> lw_work G (w_cbe w') < lw_work G (w_cbe w))"
    using assms(1,3)
    by (auto simp: finish_helper_write_def phase_defs inv_defs intro: drive.intros split: if_splits)
qed

lemma deliver_read_data_moves:
  assumes "finite_world n G E" "frontend_inv n w" "in_step G w" "deliver_read_data E w p = Inr (w', p', q)"
  shows "moves n G (w, p) (w', p')"
proof (rule moves_front [OF assms(3)])
  note lib = finite_worldD [OF assms(1)]
  obtain r l where ready: "client_data_ready (world_lib E) (w_cbe w) = (r, l)" by fastforce
  show "frontend_inv n w'" using deliver_read_data_inv [OF lib(1) assms(2,4)] by simp
  show "w_backend_job w' = w_backend_job w" "w_crypto w' = w_crypto w"
    using assms(4)
    by (auto simp: deliver_read_data_def Let_def bind_exn_def split: if_splits prod.splits sum.splits)
  note work = finite_ready [OF lib(2) ready] finite_obtain [OF lib(2) ready]
  show "still_open G (w_cbe w) (w_cbe w')"
    using assms(4) ready work
    by (auto simp: deliver_read_data_def Let_def bind_exn_def split: if_splits prod.splits sum.splits
        intro: still_open_trans)
  have "lw_work G (w_cbe w') \<le> lw_work G (w_cbe w) \<and> (p' \<longrightarrow> p \<or> lw_work G (w_cbe w') < lw_work G (w_cbe w))"
    using assms(4) ready work(1)
    by (auto simp: deliver_read_data_def Let_def bind_exn_def split: if_splits prod.splits sum.splits
        dest!: work(2))
  with deliver_read_data_phase [OF lib(1) assms(4)]
  show "drive (phase_of w) (phase_of w')
      \<or> phase_of w' = phase_of w \<and> lw_work G (w_cbe w') \<le> lw_work G (w_cbe w)
        \<and> (p' \<longrightarrow> p \<or> lw_work G (w_cbe w') < lw_work G (w_cbe w))"
    by simp
qed

lemma take_write_data_moves:
  assumes "finite_world n G E" "frontend_inv n w" "in_step G w" "take_write_data E w p = Inr (w', p')"
  shows "moves n G (w, p) (w', p')"
proof (rule moves_front [OF assms(3)])
  note lib = finite_worldD [OF assms(1)]
  obtain r l where required: "client_data_required (world_lib E) (w_cbe w) = (r, l)" by fastforce
  show "frontend_inv n w'" using take_write_data_inv [OF lib(1) assms(2,4)] by simp
  show "w_backend_job w' = w_backend_job w" "w_crypto w' = w_crypto w"
    using assms(4) by (auto simp: take_write_data_def Let_def split: if_splits prod.splits)
  note work = finite_required [OF lib(2) required] finite_supply [OF lib(2) required]
  show "still_open G (w_cbe w) (w_cbe w')"
    using assms(4) required work
    by (auto simp: take_write_data_def Let_def split: if_splits prod.splits intro: still_open_trans)
  have "lw_work G (w_cbe w') \<le> lw_work G (w_cbe w) \<and> (p' \<longrightarrow> p \<or> lw_work G (w_cbe w') < lw_work G (w_cbe w))"
    using assms(4) required work
    by (auto simp: take_write_data_def Let_def split: if_splits prod.splits) fastforce+
  with take_write_data_phase [OF lib(1) assms(4)]
  show "drive (phase_of w) (phase_of w')
      \<or> phase_of w' = phase_of w \<and> lw_work G (w_cbe w') \<le> lw_work G (w_cbe w)
        \<and> (p' \<longrightarrow> p \<or> lw_work G (w_cbe w') < lw_work G (w_cbe w))"
    by simp
qed

lemma moves_inv: "moves n G s s' \<Longrightarrow> frontend_inv n (fst s') \<and> in_step G (fst s')"
  by (simp add: moves_def)

lemma moves_step:
  "moves n G s (w1, p1) \<Longrightarrow> (frontend_inv n w1 \<Longrightarrow> in_step G w1 \<Longrightarrow> moves n G (w1, p1) t) \<Longrightarrow> moves n G s t"
  using moves_trans [of n G s "(w1, p1)" t] by (simp add: moves_def)

lemma handle_cbe_frontend_moves:
  assumes "finite_world n G E" "frontend_inv n w" "in_step G w" "handle_cbe_frontend E w = Some (Inr (w', p))"
  shows "moves n G (w, False) (w', p)"
proof -
  let ?w0 = "submit_helper_requests E w"
  note m0 = submit_helper_requests_moves [OF assms(1-3), of False]
  have i0: "frontend_inv n ?w0" "in_step G ?w0" using moves_inv [OF m0] by simp_all
  from assms(4) show ?thesis
  proof (cases rule: handle_cbe_frontendE)
    case rejected
    then have "submit_pending_request E ?w0 = (w', True)" "p = False"
      using assms(4) by (simp_all add: handle_cbe_frontend_def)
    with moves_trans [OF m0 submit_pending_request_moves [OF assms(1) i0, of w' True False]]
    show ?thesis by simp
  next
    case (driven w1 w3 p3 w4 p4 w5 p5 w6 p6 q)
    have m1: "moves n G (w, False) (w1, False)"
      by (rule moves_step [OF m0], rule submit_pending_request_moves [OF assms(1) _ _ driven(1)])
    let ?w2 = "execute_library E w1"
    have m2: "moves n G (w, False) (?w2, execute_progress (world_lib E) (w_cbe ?w2))"
      by (rule moves_step [OF m1], rule execute_library_moves [OF assms(1)])
    have m3: "moves n G (w, False) (w3, p3)"
      by (rule moves_step [OF m2], rule complete_requests_moves(2) [OF assms(1) _ _ driven(2)])
    have m4: "moves n G (w, False) (w4, p4)"
      by (rule moves_step [OF m3], rule finish_helper_read_moves [OF _ _ driven(3)])
    have m5: "moves n G (w, False) (w5, p5)"
      by (rule moves_step [OF m4], rule finish_helper_write_moves [OF _ _ driven(4)])
    have m6: "moves n G (w, False) (w6, p6)"
      by (rule moves_step [OF m5], rule deliver_read_data_moves [OF assms(1) _ _ driven(5)])
    from driven(6) show ?thesis
    proof
      assume "take_write_data E w6 p6 = Inr (w', p)"
      then show ?thesis by (intro moves_step [OF m6] take_write_data_moves [OF assms(1)])
    qed (use m6 in simp)
  qed
qed

lemma handle_cbe_frontend_returns:
  assumes "finite_world n G E" "frontend_inv n w" "in_step G w"
  shows "handle_cbe_frontend E w \<noteq> None"
proof -
  obtain w1 q where w1: "submit_pending_request E (submit_helper_requests E w) = (w1, q)" by fastforce
  have i0: "frontend_inv n (submit_helper_requests E w)" "in_step G (submit_helper_requests E w)"
    using moves_inv [OF submit_helper_requests_moves [OF assms, of False]] by simp_all
  have i1: "frontend_inv n w1" "in_step G w1"
    using moves_inv [OF submit_pending_request_moves [OF assms(1) i0 w1, of False]] by simp_all
  have i2: "frontend_inv n (execute_library E w1)" "in_step G (execute_library E w1)"
    using moves_inv [OF execute_library_moves [OF assms(1) i1]] by simp_all
  obtain res where "complete_requests E (execute_library E w1)
      (execute_progress (world_lib E) (w_cbe (execute_library E w1))) = Some res"
    using complete_requests_moves(1) [OF assms(1) i2] by blast
  with w1 show ?thesis
    by (auto simp: handle_cbe_frontend_def Let_def bind_run_def split: option.splits sum.splits prod.splits if_splits)
qed

section \<open>The back end\<close>

text \<open>A step of the other handlers leaves the phase alone.\<close>

lemma moves_engine:
  assumes "frontend_inv n w'" "in_step G w'" "phase_of w' = phase_of w"
    and "lw_work G (w_cbe w') < lw_work G (w_cbe w)
      \<or> lw_work G (w_cbe w') \<le> lw_work G (w_cbe w) \<and> w_backend_job w' = w_backend_job w
        \<and> crypto_left (w_crypto w') \<le> crypto_left (w_crypto w)
        \<and> (p' \<longrightarrow> p \<or> crypto_left (w_crypto w') < crypto_left (w_crypto w))"
  shows "moves n G (w, p) (w', p')"
  using assms by (auto simp: moves_def work_left_def less_eq_prod_def less_prod_def)

lemma execute_backend_job_moves:
  assumes "finite_world n G E" "frontend_inv n w" "in_step G w" "execute_backend_job E j w = Inr (w', p)"
    and "w_backend_job w = Some j \<or> w_backend_job w = None" "\<not> job_complete j" "lw_io G (w_cbe w) (job_index j)"
  shows "moves n G (w, False) (w', p)"
proof -
  note lib = finite_worldD [OF assms(1)]
  let ?e = "\<lparr> env_job = j, env_file = w_backend w, env_lib = w_cbe w, env_io_data = w_io_data w \<rparr>"
  obtain e where run: "job_execute (world_file E) (world_lib E) ?e = Inr (e, p)"
    and w': "w' = w\<lparr>w_backend := env_file e, w_cbe := env_lib e, w_io_data := env_io_data e,
      w_backend_job := (if job_completed (env_job e) then None else Some (env_job e))\<rparr>"
    using assms(4) by (auto simp: execute_backend_job_def elim!: bind_exn_InrE)
  have advances: "job_advances G ?e e p"
    by (rule job_execute_advances [OF lib(3,5) _ _ run]) (simp_all add: assms)
  have inv: "frontend_inv n w'"
    using execute_backend_job_inv [OF lib(1) assms(2), of j] assms(4) by simp
  have phase: "phase_of w' = phase_of w" by (rule phase_of_cong) (simp_all add: w')
  have crypto: "crypto_in_step G (w_cbe w) (w_crypto w)" using assms(3) by (simp add: in_step_def)
  show ?thesis
  proof (cases "job_complete (env_job e)")
    case True
    with advances have enc: "lw_encrypting G (w_cbe w) \<longrightarrow> lw_encrypting G (w_cbe w')"
      "lw_decrypting G (w_cbe w) \<longrightarrow> lw_decrypting G (w_cbe w')"
      "lw_work G (w_cbe w') < lw_work G (w_cbe w)"
      by (simp_all add: job_advances_def w')
    have "in_step G w'"
      using crypto enc True by (auto simp: in_step_def w' job_completed_def crypto_in_step_def slot_in_step_def)
    with inv phase enc show ?thesis by (intro moves_engine) simp_all
  next
    case False
    with advances have open_job: "job_index (env_job e) = job_index j" "still_open G (w_cbe w) (env_lib e)"
      "lw_work G (env_lib e) \<le> lw_work G (w_cbe w)" "job_left (env_job e) \<le> job_left j"
      "p \<longrightarrow> job_left (env_job e) < job_left j"
      by (simp_all add: job_advances_def)
    have "in_step G w'"
      using crypto_in_step_open [OF crypto open_job(2)] open_job(1,2) assms(7) False
      by (simp add: in_step_def w' job_completed_def still_open_def)
    moreover have "work_left G w' \<le> work_left G w \<and> (p \<longrightarrow> work_left G w' < work_left G w)"
      using assms(5) open_job False phase
      by (auto simp: work_left_def w' job_completed_def less_eq_prod_def less_prod_def)
    ultimately show ?thesis using inv by (simp add: moves_def)
  qed
qed

lemma handle_cbe_backend_moves:
  assumes "finite_world n G E" "frontend_inv n w" "in_step G w" "handle_cbe_backend E w = Inr (w', p)"
  shows "moves n G (w, False) (w', p)"
proof (cases "w_backend_job w")
  case None
  obtain r i where io: "has_io_request (world_lib E) (w_cbe w) 0 = (r, i)" by fastforce
  show ?thesis
  proof (cases "valid r")
    case True
    obtain j where j: "new_io_job (req_operation r) i (req_block_number r * BLOCK_SIZE) (req_count r * BLOCK_SIZE) = Inr j"
      and run: "execute_backend_job E j w = Inr (w', p)"
      using assms(4) None io True by (auto simp: handle_cbe_backend_def elim!: bind_exn_InrE)
    have "\<not> job_complete j" "job_index j = i"
      using j by (auto simp: new_io_job_def elim!: bind_exn_InrE)
    with finite_io [OF finite_worldD(3) [OF assms(1)] io True] None show ?thesis
      by (intro execute_backend_job_moves [OF assms(1-3) run]) simp_all
  next
    case False
    with assms None io moves_refl [of n w G False] show ?thesis by (simp add: handle_cbe_backend_def)
  qed
next
  case (Some j)
  with assms(3,4) show ?thesis
    by (intro execute_backend_job_moves [OF assms(1-3), of j])
      (auto simp: handle_cbe_backend_def in_step_def split: prod.splits)
qed

section \<open>The crypto handler\<close>

lemma key_operations_jobs:
  "crypto_add_key c kid d = Inr c' \<Longrightarrow> cr_jobs c' = cr_jobs c"
  "crypto_remove_key c kid = Inr c' \<Longrightarrow> cr_jobs c' = cr_jobs c"
  by (auto simp: crypto_add_key_def Add_Key_def crypto_remove_key_def Remove_Key_def
      split: if_splits elim!: bind_exn_InrE)

lemma crypto_in_step_jobs:
  "cr_jobs c' = cr_jobs c \<Longrightarrow> crypto_in_step G l c' = crypto_in_step G l c"
  "cr_jobs c' = cr_jobs c \<Longrightarrow> crypto_left c' = crypto_left c"
  by (simp_all add: crypto_in_step_def crypto_left_def)

text \<open>What a pass of a crypto loop has to show beside \<open>safe_pass\<close>.\<close>

definition moving_pass ::
  "('l \<Rightarrow> nat) \<Rightarrow> 'l library_work \<Rightarrow> (('l, 'f) wrapper \<times> bool \<Rightarrow> (('l, 'f) wrapper \<times> bool, exn) loop_step) \<Rightarrow> bool" where
  "moving_pass n G body \<longleftrightarrow>
     (\<forall>s s'. frontend_inv n (fst s) \<longrightarrow> in_step G (fst s) \<longrightarrow>
        (body s = Continue s' \<longrightarrow> moves n G s s' \<and> work_left G (fst s') < work_left G (fst s))
        \<and> (body s = Break s' \<longrightarrow> s' = s))"

lemma moving_passI:
  fixes body :: "('l, 'f) wrapper \<times> bool \<Rightarrow> (('l, 'f) wrapper \<times> bool, exn) loop_step"
  assumes "safe_pass n body"
    and "\<And>w p w' p'. in_step G w \<Longrightarrow> body (w, p) = Continue (w', p') \<Longrightarrow>
      same_front w w' \<and> in_step G w'
      \<and> (lw_work G (w_cbe w') < lw_work G (w_cbe w)
         \<or> lw_work G (w_cbe w') \<le> lw_work G (w_cbe w) \<and> w_backend_job w' = w_backend_job w
           \<and> crypto_left (w_crypto w') < crypto_left (w_crypto w))"
    and "\<And>w p w' p'. in_step G w \<Longrightarrow> body (w, p) = Break (w', p') \<Longrightarrow> w' = w \<and> p' = p"
  shows "moving_pass n G body"
  unfolding moving_pass_def
proof (intro allI impI conjI)
  fix s s' :: "('l, 'f) wrapper \<times> bool"
  assume inv: "frontend_inv n (fst s)" "in_step G (fst s)"
  obtain w p where s: "s = (w, p)" by (cases s)
  obtain w' p' where s': "s' = (w', p')" by (cases s')
  show "body s = Break s' \<Longrightarrow> s' = s" using assms(3) inv(2) s s' by simp
  assume run: "body s = Continue s'"
  note step = assms(2) [of w p w' p']
  have phase: "phase_of w' = phase_of w" using step run inv s s' by (simp add: same_front_phase)
  have "frontend_inv n w'" using safe_passD(1) [OF assms(1) inv(1) run] s' by simp
  then show "moves n G s s'"
    unfolding s s' using step run inv s s' phase by (intro moves_engine) auto
  show "work_left G (fst s') < work_left G (fst s)"
    using step run inv s s' phase by (auto simp: work_left_def less_prod_def less_eq_prod_def)
qed

lemma moving_loop:
  fixes body :: "('l, 'f) wrapper \<times> bool \<Rightarrow> (('l, 'f) wrapper \<times> bool, exn) loop_step"
  assumes "moving_pass n G body" "frontend_inv n (fst s)" "in_step G (fst s)"
  shows "\<exists>r. run_loop body s = Some r \<and> (\<forall>s'. r = Inr s' \<longrightarrow> moves n G s s')"
proof -
  note pass = assms(1) [unfolded moving_pass_def, rule_format]
  let ?I = "\<lambda>s. frontend_inv n (fst s) \<and> in_step G (fst s)"
  have "\<exists>r. run_loop body s = Some r"
  proof (rule run_loop_total [where I = ?I and m = "\<lambda>s. work_left G (fst s)"])
    show "?I t' \<and> work_left G (fst t') < work_left G (fst t)" if "?I t" "body t = Continue t'" for t t'
      using pass [of t t'] that moves_inv [of n G t t'] by simp
  qed (use assms in simp)
  moreover have "moves n G s s'" if "run_loop body s = Some (Inr s')" for s'
  proof (rule run_loop_moves [OF that assms(2,3)])
    show "moves n G t t'" if "frontend_inv n (fst t)" "in_step G (fst t)" "body t = Continue t' \<or> body t = Break t'" for t t'
      using pass [of t t'] that moves_refl [of n "fst t" G "snd t"] by auto
  qed
  ultimately show ?thesis by blast
qed

lemma moving_key_passes:
  assumes "finite_world n G E"
  shows "moving_pass n G (add_key_pass E)" "moving_pass n G (remove_key_pass E)"
proof -
  note lib = finite_worldD [OF assms]
  have in_step: "in_step G w'"
    if "in_step G w" "w_backend_job w' = w_backend_job w" "cr_jobs (w_crypto w') = cr_jobs (w_crypto w)"
      "still_open G (w_cbe w) (w_cbe w')" for w w' :: "('a, 'b) wrapper"
    using that crypto_in_step_open [of G "w_cbe w" "w_crypto w" "w_cbe w'"] crypto_in_step_jobs(1) [OF that(3), of G]
    by (auto simp: in_step_def still_open_def split: option.splits)
  show "moving_pass n G (add_key_pass E)"
  proof (rule moving_passI [OF safe_key_passes(1) [OF lib(1)]])
    fix w w' :: "('a, 'b) wrapper" and p p'
    assume inv: "in_step G w" and run: "add_key_pass E (w, p) = Continue (w', p')"
    obtain r k c l where r: "crypto_add_key_required (world_lib E) (w_cbe w) \<lparr> key_value = replicate 32 0, key_ident = 0 \<rparr> = (r, k)" "valid r"
      and c: "crypto_add_key (w_crypto w) (key_ident k) (take 32 (key_value k)) = Inr c"
      and l: "l = crypto_add_key_completed (world_lib E) (crypto_add_key_requested (world_lib E) (w_cbe w) r) (set_success r True)"
      and w': "w' = w\<lparr>w_crypto := c, w_cbe := l\<rparr>"
      using run by (auto simp: add_key_pass_def Let_def split: prod.splits if_splits sum.splits)
    note asked = finite_add_key [OF lib(4) r, folded l]
    have "in_step G w'"
      by (rule in_step [OF inv]) (use asked key_operations_jobs(1) [OF c] in \<open>simp_all add: w'\<close>)
    with asked show "same_front w w' \<and> in_step G w'
      \<and> (lw_work G (w_cbe w') < lw_work G (w_cbe w)
         \<or> lw_work G (w_cbe w') \<le> lw_work G (w_cbe w) \<and> w_backend_job w' = w_backend_job w
           \<and> crypto_left (w_crypto w') < crypto_left (w_crypto w))"
      by (simp add: w' same_front_def)
  qed (auto simp: add_key_pass_def Let_def split: prod.splits if_splits sum.splits)
  show "moving_pass n G (remove_key_pass E)"
  proof (rule moving_passI [OF safe_key_passes(2) [OF lib(1)]])
    fix w w' :: "('a, 'b) wrapper" and p p'
    assume inv: "in_step G w" and run: "remove_key_pass E (w, p) = Continue (w', p')"
    obtain r k c l where r: "crypto_remove_key_required (world_lib E) (w_cbe w) (world_indeterminate E) = (r, k)" "valid r"
      and c: "crypto_remove_key (w_crypto w) k = Inr c"
      and l: "l = crypto_remove_key_completed (world_lib E) (crypto_remove_key_requested (world_lib E) (w_cbe w) r) (set_success r True)"
      and w': "w' = w\<lparr>w_crypto := c, w_cbe := l\<rparr>"
      using run by (auto simp: remove_key_pass_def Let_def split: prod.splits if_splits sum.splits)
    note asked = finite_remove_key [OF lib(4) r, folded l]
    have "in_step G w'"
      by (rule in_step [OF inv]) (use asked key_operations_jobs(2) [OF c] in \<open>simp_all add: w'\<close>)
    with asked show "same_front w w' \<and> in_step G w'
      \<and> (lw_work G (w_cbe w') < lw_work G (w_cbe w)
         \<or> lw_work G (w_cbe w') \<le> lw_work G (w_cbe w) \<and> w_backend_job w' = w_backend_job w
           \<and> crypto_left (w_crypto w') < crypto_left (w_crypto w))"
      by (simp add: w' same_front_def)
  qed (auto simp: remove_key_pass_def Let_def split: prod.splits if_splits sum.splits)
qed

lemma moving_submit_passes:
  assumes "finite_world n G E"
  shows "moving_pass n G (encrypt_pass E)" "moving_pass n G (decrypt_pass E)"
proof -
  note lib = finite_worldD [OF assms]
  show "moving_pass n G (encrypt_pass E)"
  proof (rule moving_passI [OF safe_submit_passes(1) [OF lib(1)]])
    fix w w' :: "('a, 'b) wrapper" and p p'
    assume inv: "in_step G w" and run: "encrypt_pass E (w, p) = Continue (w', p')"
    obtain r i c ok b where r: "crypto_cipher_data_required (world_lib E) (w_cbe w) 0 = (r, i)" "valid r"
      and c: "submit_encryption_request (w_crypto w) (set_tag r i) b 0 = Inr (c, ok)"
      and w': "w' = w\<lparr>w_crypto := c, w_cbe := crypto_cipher_data_requested (world_lib E) (w_cbe w) i\<rparr>"
      using run by (auto simp: encrypt_pass_def Let_def bind_exn_def split: prod.splits if_splits sum.splits)
    note asked = finite_cipher [OF lib(4) r]
    have "crypto_in_step G (w_cbe w) (w_crypto w)" using inv by (simp add: in_step_def)
    from submit_in_step(1) [OF this _ r(2) c] asked have "crypto_in_step G (w_cbe w') c" by (simp add: w')
    then have "in_step G w'"
      using inv asked by (auto simp: in_step_def w' still_open_def split: option.splits)
    with asked show "same_front w w' \<and> in_step G w'
      \<and> (lw_work G (w_cbe w') < lw_work G (w_cbe w)
         \<or> lw_work G (w_cbe w') \<le> lw_work G (w_cbe w) \<and> w_backend_job w' = w_backend_job w
           \<and> crypto_left (w_crypto w') < crypto_left (w_crypto w))"
      by (simp add: w' same_front_def)
  qed (auto simp: encrypt_pass_def Let_def split: prod.splits if_splits sum.splits)
  show "moving_pass n G (decrypt_pass E)"
  proof (rule moving_passI [OF safe_submit_passes(2) [OF lib(1)]])
    fix w w' :: "('a, 'b) wrapper" and p p'
    assume inv: "in_step G w" and run: "decrypt_pass E (w, p) = Continue (w', p')"
    obtain r i c ok b where r: "crypto_plain_data_required (world_lib E) (w_cbe w) 0 = (r, i)" "valid r"
      and c: "submit_decryption_request (w_crypto w) (set_tag r i) b 0 = Inr (c, ok)"
      and w': "w' = w\<lparr>w_crypto := c, w_cbe := crypto_plain_data_requested (world_lib E) (w_cbe w) i\<rparr>"
      using run by (auto simp: decrypt_pass_def Let_def bind_exn_def split: prod.splits if_splits sum.splits)
    note asked = finite_plain [OF lib(4) r]
    have "crypto_in_step G (w_cbe w) (w_crypto w)" using inv by (simp add: in_step_def)
    from submit_in_step(2) [OF this _ r(2) c] asked have "crypto_in_step G (w_cbe w') c" by (simp add: w')
    then have "in_step G w'"
      using inv asked by (auto simp: in_step_def w' still_open_def split: option.splits)
    with asked show "same_front w w' \<and> in_step G w'
      \<and> (lw_work G (w_cbe w') < lw_work G (w_cbe w)
         \<or> lw_work G (w_cbe w') \<le> lw_work G (w_cbe w) \<and> w_backend_job w' = w_backend_job w
           \<and> crypto_left (w_crypto w') < crypto_left (w_crypto w))"
      by (simp add: w' same_front_def)
  qed (auto simp: decrypt_pass_def Let_def split: prod.splits if_splits sum.splits)
qed

lemma moving_supply_passes:
  assumes "finite_world n G E"
  shows "moving_pass n G (encrypted_pass E)" "moving_pass n G (decrypted_pass E)"
proof -
  note lib = finite_worldD [OF assms]
  show "moving_pass n G (encrypted_pass E)"
  proof (rule moving_passI [OF safe_supply_passes(1) [OF lib(1)]])
    fix w w' :: "('a, 'b) wrapper" and p p'
    assume inv: "in_step G w"
    then have unit: "crypto_in_step G (w_cbe w) (w_crypto w)" by (simp add: in_step_def)
    let ?r = "peek_completed_encryption_request (w_crypto w)"
    note handed = supply_in_step(1) [OF unit]
    show "encrypted_pass E (w, p) = Break (w', p') \<Longrightarrow> w' = w \<and> p' = p"
      using handed
      by (auto simp: encrypted_pass_def Let_def split: prod.splits if_splits sum.splits option.splits)
    assume run: "encrypted_pass E (w, p) = Continue (w', p')"
    obtain c out l cipher where r: "valid ?r" "supply_cipher_data (w_crypto w) ?r = Inr (c, out)"
      and l: "l = supply_crypto_cipher_data (world_lib E) (w_cbe w) (req_tag ?r) (req_success ?r)"
      and w': "w' = w\<lparr>w_crypto := c, w_cipher_data := cipher, w_cbe := l\<rparr>"
      using run by (auto simp: encrypted_pass_def Let_def split: prod.splits if_splits sum.splits option.splits)
    note freed = handed [OF r]
    note kept = finite_supply_cipher [OF lib(4) freed [THEN conjunct2, THEN conjunct1]]
    have "in_step G w'"
      using inv freed kept by (auto simp: in_step_def w' l split: option.splits)
    with freed kept show "same_front w w' \<and> in_step G w'
      \<and> (lw_work G (w_cbe w') < lw_work G (w_cbe w)
         \<or> lw_work G (w_cbe w') \<le> lw_work G (w_cbe w) \<and> w_backend_job w' = w_backend_job w
           \<and> crypto_left (w_crypto w') < crypto_left (w_crypto w))"
      by (simp add: w' l same_front_def)
  qed
  show "moving_pass n G (decrypted_pass E)"
  proof (rule moving_passI [OF safe_supply_passes(2) [OF lib(1)]])
    fix w w' :: "('a, 'b) wrapper" and p p'
    assume inv: "in_step G w"
    then have unit: "crypto_in_step G (w_cbe w) (w_crypto w)" by (simp add: in_step_def)
    let ?r = "peek_completed_decryption_request (w_crypto w)"
    note handed = supply_in_step(2) [OF unit]
    show "decrypted_pass E (w, p) = Break (w', p') \<Longrightarrow> w' = w \<and> p' = p"
      using handed
      by (auto simp: decrypted_pass_def Let_def split: prod.splits if_splits sum.splits option.splits)
    assume run: "decrypted_pass E (w, p) = Continue (w', p')"
    obtain c out l plain where r: "valid ?r" "supply_plain_data (w_crypto w) ?r = Inr (c, out)"
      and l: "l = supply_crypto_plain_data (world_lib E) (w_cbe w) (req_tag ?r) (req_success ?r)"
      and w': "w' = w\<lparr>w_crypto := c, w_plain_data := plain, w_cbe := l\<rparr>"
      using run by (auto simp: decrypted_pass_def Let_def split: prod.splits if_splits sum.splits option.splits)
    note freed = handed [OF r]
    note kept = finite_supply_plain [OF lib(4) freed [THEN conjunct2, THEN conjunct1]]
    have "in_step G w'"
      using inv freed kept by (auto simp: in_step_def w' l split: option.splits)
    with freed kept show "same_front w w' \<and> in_step G w'
      \<and> (lw_work G (w_cbe w') < lw_work G (w_cbe w)
         \<or> lw_work G (w_cbe w') \<le> lw_work G (w_cbe w) \<and> w_backend_job w' = w_backend_job w
           \<and> crypto_left (w_crypto w') < crypto_left (w_crypto w))"
      by (simp add: w' l same_front_def)
  qed
qed

section \<open>The loop over the handlers\<close>

text \<open>A part of a pass, which returns and moves the state.\<close>

definition moving_run ::
  "('l \<Rightarrow> nat) \<Rightarrow> 'l library_work \<Rightarrow> ('l, 'f) wrapper \<times> bool \<Rightarrow> (('l, 'f) wrapper \<times> bool) run \<Rightarrow> bool" where
  "moving_run n G s m \<longleftrightarrow> (\<exists>r. m = Some r \<and> (\<forall>s'. r = Inr s' \<longrightarrow> moves n G s s'))"

lemma moving_run_bind:
  assumes "moving_run n G s m" "\<And>s1. moves n G s s1 \<Longrightarrow> moving_run n G s (f s1)"
  shows "moving_run n G s (bind_run m f)"
proof -
  obtain r where r: "m = Some r" "\<forall>s'. r = Inr s' \<longrightarrow> moves n G s s'"
    using assms(1) by (auto simp: moving_run_def)
  then show ?thesis
    using assms(2) by (cases r) (simp_all add: moving_run_def)
qed

lemma moving_run_loop:
  assumes "moving_pass n G body" "moves n G s s1"
  shows "moving_run n G s (run_loop body s1)"
  using moving_loop [OF assms(1), of s1] moves_inv [OF assms(2)] moves_trans [OF assms(2)]
  by (auto simp: moving_run_def)

lemma handle_crypto_moves:
  assumes "finite_world n G E" "frontend_inv n w" "in_step G w"
  shows "moving_run n G (w, False) (handle_crypto E w)"
proof (cases "crypto_execute (world_aes E) (w_crypto w)")
  case (Inl e)
  then show ?thesis by (simp add: handle_crypto_def moving_run_def)
next
  case (Inr t)
  obtain c p where t: "t = (c, p)" by (cases t)
  have unit: "crypto_in_step G (w_cbe w) (w_crypto w)" using assms(3) by (simp add: in_step_def)
  have "frontend_inv n (w\<lparr>w_crypto := c\<rparr>)"
    using frontend_inv_frame [OF assms(2), of "w\<lparr>w_crypto := c\<rparr>"] by simp
  moreover have "phase_of (w\<lparr>w_crypto := c\<rparr>) = phase_of w" by (rule phase_of_cong) simp_all
  moreover have "in_step G (w\<lparr>w_crypto := c\<rparr>)"
    using assms(3) crypto_execute_left [OF unit Inr [unfolded t]] by (simp add: in_step_def split: option.splits)
  ultimately have start: "moves n G (w, False) (w\<lparr>w_crypto := c\<rparr>, p)"
    using crypto_execute_left [OF unit Inr [unfolded t]] by (intro moves_engine) simp_all
  note pass = moving_key_passes [OF assms(1)] moving_submit_passes [OF assms(1)] moving_supply_passes [OF assms(1)]
  show ?thesis
    unfolding handle_crypto_def Inr t bind_run_simps prod.case
    by (intro moving_run_bind moving_run_loop pass start)
qed

lemma handle_frontend_pass_moves:
  assumes "finite_world n G E" "frontend_inv n w" "in_step G w"
  shows "moving_run n G (w, False) (handle_frontend_pass E w)"
proof -
  have front: "moving_run n G (w, False) (handle_cbe_frontend E w)"
    using handle_cbe_frontend_returns [OF assms] handle_cbe_frontend_moves [OF assms]
    by (auto simp: moving_run_def)
  have rest: "moving_run n G (w, False) (bind_run (Some (handle_cbe_backend E w1)) (\<lambda>(w2, p2).
      bind_run (handle_crypto E w2) (\<lambda>(w3, p3).
        let progress = (p1 \<or> p2 \<or> p3) in
        if progress then Some (Inr (w3, True))
        else bind_run (Some (dump_state w3)) (\<lambda>_. Some (Inr (w3, False))))))"
    if m1: "moves n G (w, False) (w1, p1)" for w1 p1
  proof (cases "handle_cbe_backend E w1")
    case (Inl e)
    then show ?thesis by (simp add: moving_run_def)
  next
    case (Inr t)
    obtain w2 p2 where t: "t = (w2, p2)" by (cases t)
    have i1: "frontend_inv n w1" "in_step G w1" using moves_inv [OF m1] by simp_all
    have m2: "moves n G (w1, False) (w2, p2)"
      by (rule handle_cbe_backend_moves [OF assms(1) i1 Inr [unfolded t]])
    have i2: "frontend_inv n w2" "in_step G w2" using moves_inv [OF m2] by simp_all
    obtain r where r: "handle_crypto E w2 = Some r" "\<And>w3 p3. r = Inr (w3, p3) \<Longrightarrow> moves n G (w2, False) (w3, p3)"
      using handle_crypto_moves [OF assms(1) i2] by (auto simp: moving_run_def)
    show ?thesis
    proof (cases r)
      case (Inl e)
      with r Inr t show ?thesis by (simp add: moving_run_def)
    next
      case step: (Inr u)
      obtain w3 p3 where u: "u = (w3, p3)" by (cases u)
      have m3: "moves n G (w2, False) (w3, p3)" using r(2) step u by simp
      have le: "work_left G w3 \<le> work_left G w2" "work_left G w2 \<le> work_left G w1" "work_left G w1 \<le> work_left G w"
        "p1 \<Longrightarrow> work_left G w1 < work_left G w" "p2 \<Longrightarrow> work_left G w2 < work_left G w1"
        "p3 \<Longrightarrow> work_left G w3 < work_left G w2"
        using m1 m2 m3 by (simp_all add: moves_def)
      have "p1 \<or> p2 \<or> p3 \<Longrightarrow> work_left G w3 < work_left G w"
        using le by (elim disjE) (meson le_less_trans less_le_trans)+
      then have "moves n G (w, False) (w3, p1 \<or> p2 \<or> p3)"
        using le(1-3) moves_inv [OF m3] by (auto simp: moves_def)
      with r(1) Inr t step u show ?thesis
        by (auto simp: moving_run_def Let_def dump_state_def moves_def split: option.split)
    qed
  qed
  show ?thesis
    unfolding handle_frontend_pass_def by (rule moving_run_bind [OF front]) (use rest in auto)
qed

lemma update_background_state_engine [simp]:
  "w_backend_job (update_background_state i w) = w_backend_job w"
  "w_crypto (update_background_state i w) = w_crypto w"
  by (simp_all add: update_background_state_def Let_def)

lemma handle_frontend_request_moves:
  assumes "finite_world n G E" "frontend_inv n w" "in_step G w"
  shows "\<exists>res. handle_frontend_request E w = Some res
     \<and> (\<forall>w'. res = Inr w' \<longrightarrow> frontend_inv n w' \<and> in_step G w')"
proof (cases "w_cbe_constructed w")
  case False
  then show ?thesis by (simp add: handle_frontend_request_def)
next
  case True
  let ?I = "\<lambda>w. frontend_inv n w \<and> in_step G w"
  have pass: "handle_frontend_pass E t \<noteq> None"
    "handle_frontend_pass E t = Some (Inr (t', p)) \<Longrightarrow> ?I t' \<and> (p \<longrightarrow> work_left G t' < work_left G t)"
    if "?I t" for t t' p
    using handle_frontend_pass_moves [OF assms(1), of t] that by (auto simp: moving_run_def moves_def)
  have "\<exists>r. run_while (handle_frontend_pass E) w = Some r"
    by (rule run_while_total [of ?I w "handle_frontend_pass E" "work_left G"])
      (use assms(2,3) in simp, erule pass(1), drule (1) pass(2), simp)
  then obtain r where r: "run_while (handle_frontend_pass E) w = Some r" ..
  let ?Q = "\<lambda>r. case r of Inl (e :: exn) \<Rightarrow> True | Inr t \<Rightarrow> ?I t"
  have "?Q r"
  proof (rule run_while_rule [where I = ?I and Q = ?Q, OF r])
    show "?I w" using assms(2,3) by simp
    show "?I t'" if "?I t" "handle_frontend_pass E t = Some (Inr (t', True))" for t t'
      using pass(2) [OF that] by simp
    show "?Q (Inr t')" if "?I t" "handle_frontend_pass E t = Some (Inr (t', False))" for t t'
      using pass(2) [OF that] by simp
  qed simp
  then have inv: "?I t" if "r = Inr t" for t using that by simp
  define res where "res = (case r of Inl e \<Rightarrow> Inl e
    | Inr t \<Rightarrow> Inr (update_background_state (library_info (world_lib E) (w_cbe t)) t))"
  have res: "handle_frontend_request E w = Some res"
    using True r by (cases r) (simp_all add: handle_frontend_request_def res_def)
  have "in_step G w'" if "res = Inr w'" for w'
    using inv that by (cases r) (auto simp: res_def in_step_def split: option.splits)
  with res handle_frontend_request_result [OF finite_worldD(1) [OF assms(1)] assms(2) res]
  show ?thesis by auto
qed

text \<open>
  C4. The loop over the three handlers ends, with each of the loops inside it, for a library
  with a bound on its work and a device whose successful transfers move something; the result is
  a state in which the invariants hold again, or one of the exceptions the code throws itself.
\<close>

theorem handle_frontend_request_returns:
  assumes "finite_world n G E" "frontend_inv n w" "in_step G w"
  shows "\<exists>res. handle_frontend_request E w = Some res
     \<and> (case res of Inr w' \<Rightarrow> frontend_inv n w' \<and> in_step G w' | Inl e \<Rightarrow> code_error e)"
  using handle_frontend_request_moves [OF assms]
    handle_frontend_request_result [OF finite_worldD(1) [OF assms(1)] assms(2)]
  by (fastforce split: sum.split)

section \<open>Example\<close>

text \<open>
  A library that reads a block from the device for each read of the client, hands it over and
  completes the request; other requests it completes at once. Its state are the outstanding
  requests in their order. The device always moves all that is asked for.
\<close>

datatype disk_stage = To_read | Reading | To_deliver | Finished

type_synonym disk_state = "(disk_stage \<times> request) list"

fun disk_stage_of :: "disk_state \<Rightarrow> disk_stage option" where
  "disk_stage_of [] = None"
| "disk_stage_of ((s, r) # rest) = Some s"

fun disk_request :: "disk_state \<Rightarrow> request" where
  "disk_request [] = invalid_request"
| "disk_request ((s, r) # rest) = r"

fun disk_advance :: "disk_stage \<Rightarrow> disk_state \<Rightarrow> disk_state" where
  "disk_advance s' [] = []"
| "disk_advance s' ((s, r) # rest) = (s', r) # rest"

definition disk_done :: "disk_state \<Rightarrow> bool" where
  "disk_done l \<longleftrightarrow> disk_stage_of l = Some Finished \<and> client_op (req_operation (disk_request l))"

definition disk_library :: "disk_state cbe_library" where
  "disk_library =
     null_library\<lparr>
       submit_client_request := (\<lambda>l r i.
         if req_operation r = READ then l @ [(To_read, r)]
         else if client_op (req_operation r) then l @ [(Finished, r)] else l),
       lib_execute := (\<lambda>l io plain cipher. (l, io, if disk_stage_of l = Some To_deliver then io else plain, cipher)),
       lib_has_io_request := (\<lambda>l r i.
         if disk_stage_of l = Some To_read
         then (make_request READ False (req_block_number (disk_request l)) 0 1 0 0, 0) else (r, i)),
       io_request_in_progress := (\<lambda>l i. if disk_stage_of l = Some To_read then disk_advance Reading l else l),
       io_request_completed := (\<lambda>l i ok.
         if disk_stage_of l = Some To_read \<or> disk_stage_of l = Some Reading then disk_advance To_deliver l else l),
       lib_client_data_ready := (\<lambda>l r. (if disk_stage_of l = Some To_deliver then disk_request l else r, l)),
       lib_obtain_client_data := (\<lambda>l r i b.
         if disk_stage_of l = Some To_deliver then ((True, 0), disk_advance Finished l) else ((b, i), l)),
       peek_completed_client_request := (\<lambda>l.
         if disk_done l then set_success (disk_request l) True else invalid_request),
       drop_completed_client_request := (\<lambda>l r. if disk_done l then tl l else l)\<rparr>"

fun stage_work :: "disk_stage \<Rightarrow> nat" where
  "stage_work To_read = 4"
| "stage_work Reading = 3"
| "stage_work To_deliver = 2"
| "stage_work Finished = 1"

definition disk_work :: "disk_state library_work" where
  "disk_work =
     \<lparr> lw_work = (\<lambda>l. sum_list (map (stage_work \<circ> fst) l)),
       lw_io = (\<lambda>l i. disk_stage_of l = Some To_read \<or> disk_stage_of l = Some Reading),
       lw_encrypting = (\<lambda>l. False), lw_decrypting = (\<lambda>l. False) \<rparr>"

definition zero_device :: "unit vfs_file" where
  "zero_device =
     \<lparr> vfs_seek = (\<lambda>f p. f), vfs_queue_read = (\<lambda>f n. (True, f)),
       vfs_complete_read = (\<lambda>f n. ((READ_OK, n, replicate (unat n) 0), f)),
       vfs_write = (\<lambda>f d n. ((Wrote WRITE_OK, n), f)), vfs_queue_sync = (\<lambda>f. (True, f)),
       vfs_complete_sync = (\<lambda>f. (SYNC_OK, f)) \<rparr>"

abbreviation disk_world :: "(disk_state, unit) world" where
  "disk_world \<equiv> example_world disk_library [] zero_device ()"

definition disk_wrapper :: "frontend_request \<Rightarrow> (disk_state, unit) wrapper" where
  "disk_wrapper fr = (example_wrapper [] ())\<lparr>w_frontend := fr\<rparr>"

lemmas disk_defs = disk_library_def null_library_def

lemma disk_sizes [simp]:
  "length (disk_advance s l) = length l" "disk_stage_of l = Some s \<Longrightarrow> 0 < length l"
  "disk_stage_of l = Some s \<Longrightarrow> disk_stage_of (l @ rest) = Some s"
  "disk_stage_of l = Some s \<Longrightarrow> disk_stage_of (disk_advance s' l) = Some s'"
  by (cases l rule: disk_stage_of.cases; simp)+

lemma disk_work_steps:
  assumes "disk_stage_of l = Some s"
  shows "lw_work disk_work (disk_advance s' l) + stage_work s = lw_work disk_work l + stage_work s'"
    "lw_work disk_work l = stage_work s + lw_work disk_work (tl l)"
  using assms by (cases l rule: disk_stage_of.cases; simp add: disk_work_def)+

lemma disk_work_io [simp]:
  "lw_io disk_work l i \<longleftrightarrow> disk_stage_of l = Some To_read \<or> disk_stage_of l = Some Reading"
  "\<not> lw_encrypting disk_work l" "\<not> lw_decrypting disk_work l"
  by (simp_all add: disk_work_def)

lemma disk_contract: "library_contract disk_library length"
  by (auto simp: library_contract_def disk_defs disk_done_def client_op_def invalid_request_def
      client_data_ready_def client_data_required_def obtain_client_data_def supply_client_data_def)

lemma disk_finite: "finite_world length disk_work disk_world"
proof -
  have tl: "disk_done l \<Longrightarrow> lw_work disk_work (tl l) < lw_work disk_work l" for l
    using disk_work_steps(2) [of l Finished] by (simp add: disk_done_def)
  have deliver: "disk_stage_of l = Some To_deliver \<Longrightarrow> lw_work disk_work (disk_advance Finished l) < lw_work disk_work l" for l
    using disk_work_steps(1) [of l To_deliver Finished] by simp
  have start: "disk_stage_of l = Some To_read \<Longrightarrow> lw_work disk_work (disk_advance Reading l) \<le> lw_work disk_work l"
    "disk_stage_of l = Some To_read \<Longrightarrow> lw_work disk_work (disk_advance To_deliver l) < lw_work disk_work l"
    "disk_stage_of l = Some Reading \<Longrightarrow> lw_work disk_work (disk_advance To_deliver l) < lw_work disk_work l" for l
    using disk_work_steps(1) [of l To_read Reading] disk_work_steps(1) [of l To_read To_deliver]
      disk_work_steps(1) [of l Reading To_deliver] by simp_all
  have none: "\<not> valid invalid_request" by (simp add: valid_def invalid_request_def)
  have "client_finite disk_library disk_work"
    unfolding client_finite_def
    by (intro conjI allI impI;
        simp add: disk_defs still_open_def client_data_ready_def client_data_required_def obtain_client_data_def
          supply_client_data_def none split: if_splits)
      (auto simp: none tl deliver less_imp_le [OF deliver] disk_done_def [THEN iffD1])
  moreover have "device_finite disk_library disk_work"
    by (auto simp: device_finite_def disk_defs still_open_def has_io_request_def none start)
  moreover have "crypto_finite disk_library disk_work"
    by (auto simp: crypto_finite_def disk_defs crypto_add_key_required_def
        crypto_remove_key_required_def crypto_cipher_data_required_def crypto_plain_data_required_def none)
  moreover have "file_moves zero_device" by (simp add: file_moves_def zero_device_def)
  ultimately show ?thesis by (simp add: finite_world_def library_finite_def disk_contract)
qed

lemma initial_in_step:
  "w_crypto w = Initialized_Object \<Longrightarrow> w_backend_job w = None \<Longrightarrow> in_step G w"
  by (simp add: in_step_def crypto_in_step_def slot_in_step_def job_active_def Initialized_Object_def Invalid_Job_def)

theorem handle_frontend_request_returns_witness:
  "\<exists>res. handle_frontend_request disk_world (disk_wrapper echo_request) = Some res"
proof -
  have "frontend_inv length (disk_wrapper echo_request)"
    by (simp add: inv_defs echo_request_def disk_wrapper_def example_wrapper_def wrapper_members_def helper_init_def)
  moreover have "in_step disk_work (disk_wrapper echo_request)"
    by (rule initial_in_step) (simp_all add: disk_wrapper_def example_wrapper_def wrapper_members_def)
  ultimately show ?thesis using handle_frontend_request_returns [OF disk_finite] by fastforce
qed

end
