(* ===== verification/Plugin_Runs.thy ===== *)
theory Plugin_Runs
  imports Vfs_Plugin Wrapper_Progress
begin

text \<open>
  Every sequence of operations on the plugin.

  \<^item> \<open>plugin_reach\<close> are the states of the wrapper that any interleaving of operations of clients,
    through any number of handles, and of signals from the device can lead to.
  \<^item> The locale \<open>plugin_contract\<close> states what an invariant of the wrapper has to satisfy so that
    all operations of the file systems keep it; \<open>plugin_total\<close> adds that the handlers return,
    and then all operations do. Both are interpreted: for the invariant of the requests, and for
    it together with the one that ties the device and the crypto unit to the library.
\<close>

section \<open>The operations\<close>

text \<open>
  Between the operations client memory may change in any way. An operation that ends with an
  exception or does not return has no successor.
\<close>

inductive plugin_reach ::
  "('l, 'f) world \<Rightarrow> parsers \<Rightarrow> vfs_config \<Rightarrow> ('l, 'f) wrapper \<Rightarrow> ('l, 'f) wrapper \<Rightarrow> bool"
  for E :: "('l, 'f) world" and P :: parsers and config :: vfs_config and members :: "('l, 'f) wrapper"
  where
  created: "new_wrapper E config members = Inr w \<Longrightarrow> plugin_reach E P config members w"
| read_data: "plugin_reach E P config members w \<Longrightarrow>
    data_read E h dst count w = Some (Inr (w', res, out)) \<Longrightarrow> plugin_reach E P config members w'"
| write_data: "plugin_reach E P config members w \<Longrightarrow>
    data_write E h src count w = Some (Inr (w', outcome, out)) \<Longrightarrow> plugin_reach E P config members w'"
| sync_data: "plugin_reach E P config members w \<Longrightarrow>
    data_sync E h w = Some (Inr (w', synced)) \<Longrightarrow> plugin_reach E P config members w'"
| write_extend: "plugin_reach E P config members w \<Longrightarrow>
    extend_write E P text count w = Some (Inr (w', result, out)) \<Longrightarrow> plugin_reach E P config members w'"
| write_rekey: "plugin_reach E P config members w \<Longrightarrow>
    rekey_write E P text count w = Some (Inr (w', result, out)) \<Longrightarrow> plugin_reach E P config members w'"
| write_create: "plugin_reach E P config members w \<Longrightarrow>
    create_snapshot_write E P text count w = Some (Inr (w', result, out)) \<Longrightarrow> plugin_reach E P config members w'"
| write_discard: "plugin_reach E P config members w \<Longrightarrow>
    discard_snapshot_write E P text count w = Some (Inr (w', result, out)) \<Longrightarrow> plugin_reach E P config members w'"
| list_snapshots: "plugin_reach E P config members w \<Longrightarrow>
    wrapper_active_snapshot_ids E w = Some (Inr (w', ids)) \<Longrightarrow> plugin_reach E P config members w'"
| device: "plugin_reach E P config members w \<Longrightarrow>
    notify_backend_io_progress E w = Some (Inr w') \<Longrightarrow> plugin_reach E P config members w'"
| memory: "plugin_reach E P config members w \<Longrightarrow> plugin_reach E P config members (w\<lparr>w_memory := m\<rparr>)"

lemma data_sync_path:
  assumes "data_sync E h w = Some (Inr (w', res))"
  obtains (later) "w' = w"
  | (handled) w1 w2 where
      "if fr_state (w_frontend w) = F_NONE
       then submit_frontend_request w (dh_seek h) 0 0 SYNC 0 = (w1, True) else w1 = w"
      "handle_frontend_request E w1 = Some (Inr w2)"
      "w' = (case fr_state (w_frontend w2) of
           F_PENDING \<Rightarrow> enqueue_handle (dh_id h) w2 | F_IN_PROGRESS \<Rightarrow> enqueue_handle (dh_id h) w2
         | F_COMPLETE \<Rightarrow> ack_frontend_request w2 | F_ERROR \<Rightarrow> ack_frontend_request w2
         | F_ERROR_EOF \<Rightarrow> w2 | F_NONE \<Rightarrow> w2)"
proof (cases "fr_state (w_frontend w) = F_NONE")
  case True
  obtain w1 acc where sub: "submit_frontend_request w (dh_seek h) 0 0 SYNC 0 = (w1, acc)" by fastforce
  note acc = submit_accepted [OF True sub]
  show ?thesis
  proof (cases "wrapper_client_request_acceptable E w = Inr True")
    case acceptable: True
    obtain w2 where w2: "handle_frontend_request E w1 = Some (Inr w2)"
      using assms True acceptable sub acc by (auto simp: data_sync_def elim!: bind_run_InrE)
    show ?thesis
      by (rule handled [OF _ w2])
        (use assms True acceptable sub acc w2 in \<open>simp_all add: data_sync_def split: frontend_state.splits\<close>)
  next
    case False
    with assms True have "w' = w"
      by (cases "wrapper_client_request_acceptable E w") (auto simp: data_sync_def)
    then show ?thesis by (rule later)
  qed
next
  case False
  with assms obtain w2 where w2: "handle_frontend_request E w = Some (Inr w2)"
    by (auto simp: data_sync_def elim!: bind_run_InrE)
  show ?thesis
    by (rule handled [OF _ w2])
      (use assms False w2 in \<open>simp_all add: data_sync_def split: frontend_state.splits\<close>)
qed

section \<open>Invariants of the plugin\<close>

text \<open>All that the front end, the back end and the crypto unit keep outside the library.\<close>

definition same_engine :: "('l, 'f) wrapper \<Rightarrow> ('l, 'f) wrapper \<Rightarrow> bool" where
  "same_engine w w' \<longleftrightarrow>
     w_frontend w' = w_frontend w \<and> w_helper_read w' = w_helper_read w \<and> w_helper_write w' = w_helper_write w
     \<and> w_cbe_constructed w' = w_cbe_constructed w \<and> w_backend w' = w_backend w
     \<and> w_backend_job w' = w_backend_job w \<and> w_crypto w' = w_crypto w
     \<and> w_io_data w' = w_io_data w \<and> w_cipher_data w' = w_cipher_data w \<and> w_plain_data w' = w_plain_data w"

locale plugin_contract =
  fixes E :: "('l, 'f) world"
    and inv :: "('l, 'f) wrapper \<Rightarrow> bool"
    and ok :: bool
  assumes constructed: "inv w \<Longrightarrow> w_cbe_constructed w"
    and handled: "ok \<Longrightarrow> inv w \<Longrightarrow> handle_frontend_request E w = Some (Inr w') \<Longrightarrow> inv w'"
    and frame: "inv w \<Longrightarrow> same_engine w w' \<Longrightarrow> w_cbe w' = w_cbe w \<Longrightarrow> inv w'"
    and background: "ok \<Longrightarrow> inv w \<Longrightarrow> w_cbe w' = submit_client_request (world_lib E) (w_cbe w) r i \<Longrightarrow>
      same_engine w w' \<Longrightarrow> \<not> client_op (req_operation r) \<Longrightarrow> inv w'"
    and submitted: "inv w \<Longrightarrow> fr_state (w_frontend w) = F_NONE \<Longrightarrow> op = READ \<or> op = WRITE \<or> op = SYNC \<Longrightarrow>
      submit_frontend_request w seek data count op snap_id = (w', accepted) \<Longrightarrow> inv w'"
    and acknowledged: "inv w \<Longrightarrow> fr_state (w_frontend w) \<noteq> F_IN_PROGRESS \<Longrightarrow> inv (ack_frontend_request w)"
begin

lemma started:
  assumes "inv w" "op = READ \<or> op = WRITE \<or> op = SYNC"
    and "if fr_state (w_frontend w) = F_NONE
         then submit_frontend_request w seek data count op snap_id = (w1, accepted) else w1 = w"
  shows "inv w1"
  using assms submitted [of w op seek data count snap_id w1 accepted] by (auto split: if_splits)

lemma queued: "inv w \<Longrightarrow> inv (enqueue_handle h w)"
  by (erule frame) (auto simp: same_engine_def enqueue_handle_def io_progress_response_def Let_def)

lemma finished:
  assumes "ok" "inv w" "op = READ \<or> op = WRITE \<or> op = SYNC"
    and "if fr_state (w_frontend w) = F_NONE
         then submit_frontend_request w seek data count op snap_id = (w1, True) else w1 = w"
    and "handle_frontend_request E w1 = Some (Inr w2)"
  shows "inv w2 \<and> inv (enqueue_handle h w2)
     \<and> (fr_state (w_frontend w2) \<noteq> F_IN_PROGRESS \<longrightarrow> inv (ack_frontend_request w2))"
  using handled [OF assms(1) started [OF assms(2-4)] assms(5)] queued acknowledged by simp

lemma data_operations:
  assumes "ok" "inv w"
  shows "data_read E h dst count w = Some (Inr (w', res, out)) \<Longrightarrow> inv w'"
    and "data_write E h dst count w = Some (Inr (w', outcome, out)) \<Longrightarrow> inv w'"
    and "data_sync E h w = Some (Inr (w', synced)) \<Longrightarrow> inv w'"
proof -
  show "inv w'" if "data_read E h dst count w = Some (Inr (w', res, out))"
    using that
  proof (cases rule: data_read_path)
    case (handled w1 w2)
    from handled(3) finished [OF assms _ handled(1,2), of "dh_id h"] show ?thesis
      by (cases "fr_state (w_frontend w2)") auto
  qed (use assms in simp)
  show "inv w'" if "data_write E h dst count w = Some (Inr (w', outcome, out))"
    using that
  proof (cases rule: data_write_path)
    case (handled w1 w2)
    from handled(3) finished [OF assms _ handled(1,2), of "dh_id h"] show ?thesis
      by (cases "fr_state (w_frontend w2)") auto
  qed (use assms in simp)
  show "inv w'" if "data_sync E h w = Some (Inr (w', synced))"
    using that
  proof (cases rule: data_sync_path)
    case (handled w1 w2)
    from handled(3) finished [OF assms _ handled(1,2), of "dh_id h"] show ?thesis
      by (cases "fr_state (w_frontend w2)") auto
  qed (use assms in simp)
qed

lemma already_constructed: "inv w \<Longrightarrow> ensure_cbe E w = Inr w"
  using constructed by (simp add: ensure_cbe_def)

lemma started_in_background:
  assumes "ok" "inv w" "handle_frontend_request E w1 = Some (Inr w')"
    and "w_cbe w1 = submit_client_request (world_lib E) (w_cbe w) r i" "same_engine w w1"
    and "\<not> client_op (req_operation r)"
  shows "inv w'"
  by (rule handled [OF assms(1) background [OF assms(1,2,4-6)] assms(3)])

lemma background_operations:
  assumes "ok" "inv w"
  shows "start_rekeying E w = Some (Inr (w', okay)) \<Longrightarrow> inv w'"
    and "start_extending E type blocks w = Some (Inr (w', okay)) \<Longrightarrow> inv w'"
    and "create_snapshot E w = Some (Inr (w', okay)) \<Longrightarrow> inv w'"
    and "discard_snapshot E ident w = Some (Inr (w', okay)) \<Longrightarrow> inv w'"
    and "wrapper_active_snapshot_ids E w = Some (Inr (w', ids)) \<Longrightarrow> inv w'"
    and "notify_backend_io_progress E w = Some (Inr w') \<Longrightarrow> inv w'"
proof -
  note bg = started_in_background [OF assms]
  show "inv w'" if "start_rekeying E w = Some (Inr (w', okay))"
    using that assms(2)
    by (auto simp: start_rekeying_def already_constructed Let_def elim!: bind_run_InrE split: if_splits)
      (erule bg, simp, simp add: same_engine_def, simp add: client_op_def)+
  show "inv w'" if "start_extending E type blocks w = Some (Inr (w', okay))"
    using that assms(2)
    by (auto simp: start_extending_def already_constructed Let_def elim!: bind_run_InrE split: if_splits)
      (erule bg, simp, simp add: same_engine_def, simp add: client_op_def)+
  show "inv w'" if "create_snapshot E w = Some (Inr (w', okay))"
    using that assms(2)
    by (auto simp: create_snapshot_def already_constructed Let_def elim!: bind_run_InrE split: if_splits)
      (erule bg, simp, simp add: same_engine_def, simp add: client_op_def)+
  show "inv w'" if "discard_snapshot E ident w = Some (Inr (w', okay))"
    using that assms(2)
    by (auto simp: discard_snapshot_def already_constructed Let_def elim!: bind_run_InrE split: if_splits)
      (erule bg, simp, simp add: same_engine_def, simp add: client_op_def)+
  show "inv w'" if "wrapper_active_snapshot_ids E w = Some (Inr (w', ids))"
    using that handled [OF assms] assms(2)
    by (auto simp: wrapper_active_snapshot_ids_def already_constructed elim!: bind_run_InrE)
  show "inv w'" if "notify_backend_io_progress E w = Some (Inr w')"
  proof (cases "w_enqueued w")
    case None
    with that obtain w1 where w1: "handle_frontend_request E w = Some (Inr w1)"
      and w': "w' = w1\<lparr>w_io_progress_pending := True\<rparr>"
      by (auto simp: notify_backend_io_progress_def elim!: bind_run_InrE)
    show ?thesis unfolding w' by (rule frame [OF handled [OF assms w1]]) (simp_all add: same_engine_def)
  next
    case (Some h)
    with that have w': "w' = w\<lparr>w_responses := w_responses w @ [h]\<rparr>"
      by (simp add: notify_backend_io_progress_def io_progress_response_def)
    show ?thesis unfolding w' by (rule frame [OF assms(2)]) (simp_all add: same_engine_def)
  qed
qed

lemma control_operations:
  assumes "ok" "inv w"
  shows "extend_write E P text count w = Some (Inr (w', result, out)) \<Longrightarrow> inv w'"
    and "rekey_write E P text count w = Some (Inr (w', result, out)) \<Longrightarrow> inv w'"
    and "create_snapshot_write E P text count w = Some (Inr (w', result, out)) \<Longrightarrow> inv w'"
    and "discard_snapshot_write E P text count w = Some (Inr (w', result, out)) \<Longrightarrow> inv w'"
proof -
  note start = background_operations [OF assms]
  show "inv w'" if "extend_write E P text count w = Some (Inr (w', result, out))"
    using that assms(2)
    by (auto simp: extend_write_def Let_def elim!: bind_run_InrE dest: start(2) split: if_splits)
  show "inv w'" if "rekey_write E P text count w = Some (Inr (w', result, out))"
    using that assms(2) by (auto simp: rekey_write_def elim!: bind_run_InrE dest: start(1) split: if_splits)
  show "inv w'" if "create_snapshot_write E P text count w = Some (Inr (w', result, out))"
    using that assms(2)
    by (auto simp: create_snapshot_write_def elim!: bind_run_InrE dest: start(3) split: if_splits)
  show "inv w'" if "discard_snapshot_write E P text count w = Some (Inr (w', result, out))"
    using that assms(2)
    by (auto simp: discard_snapshot_write_def Let_def elim!: bind_run_InrE dest: start(4) split: if_splits)
qed

lemma reachable:
  assumes "plugin_reach E P config members w" "ok"
    and "\<And>w. new_wrapper E config members = Inr w \<Longrightarrow> inv w"
  shows "inv w"
  using assms(1)
proof induction
  case (memory w m)
  show ?case by (rule frame [OF memory.IH]) (simp_all add: same_engine_def)
qed (rule assms(3) data_operations [OF assms(2)] control_operations [OF assms(2)]
      background_operations(5,6) [OF assms(2)], assumption, assumption?)+

end

section \<open>Operations that return\<close>

lemma bind_run_returns:
  "(\<exists>r. bind_run m f = Some r) \<longleftrightarrow>
     (\<exists>r. m = Some r) \<and> (\<forall>x. m = Some (Inr x) \<longrightarrow> (\<exists>r. f x = Some r))"
  by (auto simp: bind_run_def split: option.splits sum.splits)

locale plugin_total = plugin_contract +
  assumes returns: "ok \<Longrightarrow> inv w \<Longrightarrow> \<exists>r. handle_frontend_request E w = Some r"
begin

lemma data_return:
  assumes "ok" "inv w"
  shows "\<exists>r. data_read E h dst count w = Some r" "\<exists>r. data_write E h dst count w = Some r" "\<exists>r. data_sync E h w = Some r"
proof -
  have start: "\<exists>r. handle_frontend_request E w1 = Some r"
    if "submit_frontend_request w seek data k op snap_id = (w1, acc)" "fr_state (w_frontend w) = F_NONE"
      "op = READ \<or> op = WRITE \<or> op = SYNC" for seek data k op snap_id w1 acc
    using returns [OF assms(1) submitted [OF assms(2) that(2,3,1)]] .
  note total = bind_run_returns bind_exn_def wrapper_client_request_acceptable_def constructed [OF assms(2)]
  show "\<exists>r. data_read E h dst count w = Some r"
    using returns [OF assms] by (auto simp: data_read_def total Let_def dest: start split: prod.splits if_splits)
  show "\<exists>r. data_write E h dst count w = Some r"
    using returns [OF assms] by (auto simp: data_write_def total Let_def dest: start split: prod.splits if_splits)
  show "\<exists>r. data_sync E h w = Some r"
    using returns [OF assms] by (auto simp: data_sync_def total Let_def dest: start split: prod.splits if_splits)
qed

lemma started_returns:
  assumes "ok" "inv w"
    and "w_cbe w1 = submit_client_request (world_lib E) (w_cbe w) r i" "same_engine w w1"
    and "\<not> client_op (req_operation r)"
  shows "\<exists>r. handle_frontend_request E w1 = Some r"
  by (rule returns [OF assms(1) background [OF assms]])

lemma background_return:
  assumes "ok" "inv w"
  shows "\<exists>r. start_rekeying E w = Some r" "\<exists>r. start_extending E type blocks w = Some r"
    and "\<exists>r. create_snapshot E w = Some r" "\<exists>r. discard_snapshot E ident w = Some r"
    and "\<exists>r. wrapper_active_snapshot_ids E w = Some r" "\<exists>r. notify_backend_io_progress E w = Some r"
proof -
  note total = bind_run_returns wrapper_client_request_acceptable_def already_constructed [OF assms(2)]
    constructed [OF assms(2)]
  note go = started_returns [OF assms]
  show "\<exists>r. start_rekeying E w = Some r"
    by (auto simp: start_rekeying_def total Let_def split: if_splits)
      (rule go, simp, simp add: same_engine_def, simp add: client_op_def)
  show "\<exists>r. start_extending E type blocks w = Some r"
    by (auto simp: start_extending_def total Let_def split: if_splits)
      (rule go, simp, simp add: same_engine_def, simp add: client_op_def)+
  show "\<exists>r. create_snapshot E w = Some r"
    by (auto simp: create_snapshot_def total Let_def split: if_splits)
      (rule go, simp, simp add: same_engine_def, simp add: client_op_def)
  show "\<exists>r. discard_snapshot E ident w = Some r"
    by (auto simp: discard_snapshot_def total Let_def split: if_splits)
      (rule go, simp, simp add: same_engine_def, simp add: client_op_def)
  show "\<exists>r. wrapper_active_snapshot_ids E w = Some r" "\<exists>r. notify_backend_io_progress E w = Some r"
    using returns [OF assms]
    by (simp_all add: wrapper_active_snapshot_ids_def notify_backend_io_progress_def total split: option.split)
qed

lemma control_return:
  assumes "ok" "inv w"
  shows "\<exists>r. extend_write E P text count w = Some r" "\<exists>r. rekey_write E P text count w = Some r"
    and "\<exists>r. create_snapshot_write E P text count w = Some r" "\<exists>r. discard_snapshot_write E P text count w = Some r"
  using background_return [OF assms]
  by (auto simp: extend_write_def rekey_write_def create_snapshot_write_def discard_snapshot_write_def
      bind_run_returns Let_def split: prod.splits if_splits)

end

section \<open>The invariants of the model\<close>

text \<open>The invariant of the requests, for a plugin that is set up.\<close>

definition plugin_inv :: "('l \<Rightarrow> nat) \<Rightarrow> ('l, 'f) wrapper \<Rightarrow> bool" where
  "plugin_inv n w \<longleftrightarrow> frontend_inv n w \<and> w_cbe_constructed w \<and> phase_of w \<noteq> Broken"

lemma plugin_inv_handled:
  assumes "library_contract (world_lib E) n" "plugin_inv n w" "handle_frontend_request E w = Some (Inr w')"
  shows "plugin_inv n w'"
proof -
  have inv: "frontend_inv n w" using assms(2) by (simp add: plugin_inv_def)
  from drives_ends(3) [OF handle_frontend_request_drives [OF assms(1) inv assms(3)]]
    handle_frontend_request_inv [OF assms(1) inv assms(3)] constructed_handle_frontend_request [OF assms(3)] assms(2)
  show ?thesis by (simp add: plugin_inv_def)
qed

lemma plugin_inv_created:
  assumes "new_wrapper E config members = Inr w" "n (world_new_lib E) = 0"
    and "members = wrapper_members f l read_addr write_addr mem"
  shows "plugin_inv n w \<and> phase_of w = Idle"
  using assms
  by (auto simp: new_wrapper_def initialize_cbe_def read_config_def wrapper_members_def plugin_inv_def
      phase_defs inv_defs helper_init_def frontend_init_def split: option.splits)

lemma plugin_inv_engine:
  assumes "plugin_inv n w" "same_engine w w'" "n (w_cbe w') = n (w_cbe w)"
  shows "plugin_inv n w'"
proof -
  have "phase_of w' = phase_of w" using assms(2) by (intro phase_of_cong) (simp_all add: same_engine_def)
  with assms frontend_inv_frame [of n w w'] show ?thesis by (simp add: plugin_inv_def same_engine_def)
qed

lemma submit_frontend_request_engine:
  assumes "submit_frontend_request w seek data count op snap_id = (w', accepted)"
  shows "w_cbe w' = w_cbe w \<and> w_crypto w' = w_crypto w \<and> w_backend_job w' = w_backend_job w
     \<and> w_cbe_constructed w' = w_cbe_constructed w"
  using assms by (auto simp: submit_frontend_request_def Let_def split: if_splits)

lemma plugin_inv_submitted:
  assumes "plugin_inv n w" "fr_state (w_frontend w) = F_NONE" "op = READ \<or> op = WRITE \<or> op = SYNC"
    and "submit_frontend_request w seek data count op snap_id = (w', accepted)"
  shows "plugin_inv n w'"
proof -
  have inv: "frontend_inv n w" using assms(1) by (simp add: plugin_inv_def)
  from submit_frontend_request_phase [OF inv assms(2-4)] submit_frontend_request_inv [OF inv assms(3,4)]
    submit_frontend_request_engine [OF assms(4)] assms(1)
  show ?thesis by (auto simp: plugin_inv_def elim: client.cases)
qed

lemma plugin_inv_acknowledged:
  assumes "plugin_inv n w" "fr_state (w_frontend w) \<noteq> F_IN_PROGRESS"
  shows "plugin_inv n (ack_frontend_request w)"
  using assms by (auto simp: plugin_inv_def ack_frontend_request_def phase_defs inv_defs)

interpretation safe: plugin_contract E "plugin_inv n" "library_contract (world_lib E) n"
  for E :: "('l, 'f) world" and n
proof unfold_locales
  show "plugin_inv n w \<Longrightarrow> w_cbe_constructed w" for w :: "('l, 'f) wrapper"
    by (simp add: plugin_inv_def)
  show "library_contract (world_lib E) n \<Longrightarrow> plugin_inv n w \<Longrightarrow>
      w_cbe w' = submit_client_request (world_lib E) (w_cbe w) r i \<Longrightarrow> same_engine w w' \<Longrightarrow>
      \<not> client_op (req_operation r) \<Longrightarrow> plugin_inv n w'" for w w' :: "('l, 'f) wrapper" and r i
    using contract_submit [of "world_lib E" n] by (auto intro: plugin_inv_engine)
qed (auto intro: plugin_inv_handled plugin_inv_submitted plugin_inv_acknowledged plugin_inv_engine)

text \<open>The invariant under which the loop over the handlers ends.\<close>

definition live_inv :: "('l \<Rightarrow> nat) \<Rightarrow> 'l library_work \<Rightarrow> ('l, 'f) wrapper \<Rightarrow> bool" where
  "live_inv n G w \<longleftrightarrow> plugin_inv n w \<and> in_step G w"

lemma live_inv_handled:
  assumes "finite_world n G E" "live_inv n G w"
  shows "\<exists>r. handle_frontend_request E w = Some r"
    and "handle_frontend_request E w = Some (Inr w') \<Longrightarrow> live_inv n G w'"
proof -
  have inv: "frontend_inv n w" "in_step G w" "plugin_inv n w"
    using assms(2) by (simp_all add: live_inv_def plugin_inv_def)
  note run = handle_frontend_request_moves [OF assms(1) inv(1,2)]
  from run show "\<exists>r. handle_frontend_request E w = Some r" by blast
  show "live_inv n G w'" if "handle_frontend_request E w = Some (Inr w')"
    using that run plugin_inv_handled [OF finite_worldD(1) [OF assms(1)] inv(3) that]
    by (auto simp: live_inv_def)
qed

lemma new_wrapper_engine:
  assumes "new_wrapper E config members = Inr w" "members = wrapper_members f l read_addr write_addr mem"
  shows "w_crypto w = Initialized_Object \<and> w_backend_job w = None"
  using assms
  by (auto simp: new_wrapper_def initialize_cbe_def read_config_def wrapper_members_def split: option.splits)

interpretation total: plugin_total E "live_inv n G" "finite_world n G E"
  for E :: "('l, 'f) world" and n G
proof unfold_locales
  fix w w' :: "('l, 'f) wrapper" and r i
  show "live_inv n G w \<Longrightarrow> w_cbe_constructed w"
    by (simp add: live_inv_def plugin_inv_def)
  show "live_inv n G w \<Longrightarrow> same_engine w w' \<Longrightarrow> w_cbe w' = w_cbe w \<Longrightarrow> live_inv n G w'"
    using plugin_inv_engine [of n w w'] in_step_open [of G w w'] by (simp add: live_inv_def same_engine_def)
  show "live_inv n G w'" if "finite_world n G E" "live_inv n G w"
    "w_cbe w' = submit_client_request (world_lib E) (w_cbe w) r i" "same_engine w w'"
    "\<not> client_op (req_operation r)"
    using safe.background [OF finite_worldD(1) [OF that(1)] _ that(3-5)] that(2-4)
      in_step_open [of G w w'] finite_submit [OF finite_worldD(2) [OF that(1)]]
    by (auto simp: live_inv_def same_engine_def)
  show "live_inv n G w \<Longrightarrow> fr_state (w_frontend w) \<noteq> F_IN_PROGRESS \<Longrightarrow> live_inv n G (ack_frontend_request w)"
    using plugin_inv_acknowledged [of n w] in_step_open [of G w "ack_frontend_request w"]
    by (simp add: live_inv_def ack_frontend_request_def)
  show "live_inv n G w'"
    if "live_inv n G w" "fr_state (w_frontend w) = F_NONE" "op = READ \<or> op = WRITE \<or> op = SYNC"
      "submit_frontend_request w seek data count op snap_id = (w', accepted)"
    for op seek data count snap_id accepted
    using that(1) plugin_inv_submitted [OF _ that(2-4)] in_step_open [of G w w']
      submit_frontend_request_engine [OF that(4)]
    by (simp add: live_inv_def)
qed (fact live_inv_handled)+

section \<open>Properties\<close>

text \<open>
  C5. In every state that the plugin can reach from its creation, by any sequence of reads,
  writes and syncs through any handles, operations on the control files, listings of the
  snapshots, signals from the device and changes of client memory, the invariant of the
  front-end and helper requests holds, the library is constructed, no combination of request
  states outside the abstract machine occurs, and while no front-end request is in progress no
  helper request and no client request is left behind. The library keeps its contract (C3).
\<close>

theorem reachable_plugin_safe:
  assumes "plugin_reach E P config members w" "library_contract (world_lib E) n" "n (world_new_lib E) = 0"
    and "members = wrapper_members f l read_addr write_addr mem"
  shows "frontend_inv n w \<and> w_cbe_constructed w \<and> phase_of w \<noteq> Broken
     \<and> (fr_state (w_frontend w) \<noteq> F_IN_PROGRESS \<longrightarrow> \<not> helper_active w \<and> n (w_cbe w) = 0)"
proof -
  have "plugin_inv n w"
    using plugin_inv_created [where n = n and E = E, OF _ assms(3,4)] by (intro safe.reachable [OF assms(1,2)]) simp
  then show ?thesis using idle_front [of n w] by (auto simp: plugin_inv_def)
qed

text \<open>
  C6. From every state that the plugin can reach, every operation returns: reads, writes and
  syncs of the data file, writes to the four control files, the listing of the snapshots and the
  signal of the device, if the library uses up a bound on its work with each step it asks for
  and the device moves at least one byte with each transfer that succeeds.
\<close>

theorem reachable_plugin_returns:
  assumes "plugin_reach E P config members w" "finite_world n G E" "n (world_new_lib E) = 0"
    and "members = wrapper_members f l read_addr write_addr mem"
  shows "(\<exists>r. data_read E h addr count w = Some r) \<and> (\<exists>r. data_write E h addr count w = Some r)
     \<and> (\<exists>r. data_sync E h w = Some r) \<and> (\<exists>r. extend_write E P str count w = Some r)
     \<and> (\<exists>r. rekey_write E P str count w = Some r) \<and> (\<exists>r. create_snapshot_write E P str count w = Some r)
     \<and> (\<exists>r. discard_snapshot_write E P str count w = Some r)
     \<and> (\<exists>r. wrapper_active_snapshot_ids E w = Some r) \<and> (\<exists>r. notify_backend_io_progress E w = Some r)"
proof -
  have "live_inv n G v" if "new_wrapper E config members = Inr v" for v
    using plugin_inv_created [where n = n and E = E, OF that assms(3,4)] new_wrapper_engine [OF that assms(4)] initial_in_step [of v G]
    by (simp add: live_inv_def)
  then have "live_inv n G w" by (rule total.reachable [OF assms(1,2)])
  from total.data_return [OF assms(2) this] total.control_return [OF assms(2) this]
    total.background_return(5,6) [OF assms(2) this]
  show ?thesis by blast
qed

section \<open>Examples\<close>

definition example_parsers :: parsers where
  "example_parsers =
     \<lparr> parse_bool = (\<lambda>s. s = ''true''), parse_u64 = (\<lambda>s. 7), parse_u32 = (\<lambda>s. 7), arg_string = (\<lambda>s name. s),
       arg_ulong = (\<lambda>s name. 0) \<rparr>"

theorem reachable_plugin_safe_witness:
  "\<exists>w. plugin_reach echo_world example_parsers \<lparr> cfg_verbose = None, cfg_debug = None, cfg_block = None \<rparr>
       (wrapper_members () 0 65536 131072 (\<lambda>a. ucast a)) w
     \<and> data_read echo_world example_handle 8192 4096 (echo_wrapper frontend_init) = Some (Inr (w, READ_OK, Some 4096))
     \<and> phase_of w \<noteq> Broken"
proof -
  let ?c = "\<lparr> cfg_verbose = None, cfg_debug = None, cfg_block = None \<rparr>"
  let ?m = "wrapper_members () 0 65536 131072 (\<lambda>a. ucast a)"
  obtain w where read: "data_read echo_world example_handle 8192 4096 (echo_wrapper frontend_init)
      = Some (Inr (w, READ_OK, Some 4096))" by (rule example_read)
  have "new_wrapper echo_world ?c ?m = Inr (echo_wrapper frontend_init)"
    by (simp add: new_wrapper_def initialize_cbe_def read_config_def echo_wrapper_def example_wrapper_def
        example_world_def wrapper_members_def frontend_init_def attribute_value_def)
  from plugin_reach.read_data [OF plugin_reach.created [OF this] read]
  have reach: "plugin_reach echo_world example_parsers ?c ?m w" .
  have "library_contract (world_lib echo_world) id" by (simp add: echo_contract)
  from reachable_plugin_safe [OF reach this _ refl] read reach show ?thesis
    by (auto simp: example_world_def)
qed

lemma disk_created:
  "new_wrapper disk_world \<lparr> cfg_verbose = None, cfg_debug = None, cfg_block = None \<rparr>
     (wrapper_members () [] 65536 131072 (\<lambda>a. ucast a)) = Inr (disk_wrapper frontend_init)"
  by (simp add: new_wrapper_def initialize_cbe_def read_config_def disk_wrapper_def example_wrapper_def
      example_world_def wrapper_members_def frontend_init_def attribute_value_def)

theorem reachable_plugin_returns_witness:
  "\<exists>r. data_read disk_world example_handle 8192 4096 (disk_wrapper frontend_init) = Some r"
  using reachable_plugin_returns [where P = example_parsers, OF plugin_reach.created [OF disk_created]
      disk_finite _ refl]
  by (simp add: example_world_def)

end
