(* ===== verification/Plugin_Buffers.thy ===== *)
theory Plugin_Buffers
  imports Plugin_Runs
begin

text \<open>
  The buffers of \<open>Vfs_Wrapper\<close> keep their type: each of the three buffers holds one block of 4096
  bytes, so do the helper requests and the jobs of the crypto unit, and the part of the buffer that
  the back-end job still has to move lies inside the block.

  \<^item> \<open>blocks_world\<close> is what this needs of the library, the device and the block cipher.
  \<^item> The lemmas follow the three handlers; the copy of a helper request into its block is inside
    the block because of the invariant of the requests.
  \<^item> The last part lifts this to all sequences of operations, by the locale \<open>plugin_contract\<close>.
\<close>

section \<open>The typing of the state\<close>

definition job_window :: "io_job \<Rightarrow> bool" where
  "job_window j \<longleftrightarrow> unat (job_current_offset j) + unat (job_current_count j) \<le> 4096"

definition wf_slot :: "crypto_job \<Rightarrow> bool" where
  "wf_slot j \<longleftrightarrow> wf_block (job_cipher_data j) \<and> wf_block (job_plain_data j)"

definition wf_unit :: "crypto \<Rightarrow> bool" where
  "wf_unit c \<longleftrightarrow> list_all wf_slot (cr_jobs c)"

definition typed :: "('l, 'f) wrapper \<Rightarrow> bool" where
  "typed w \<longleftrightarrow>
     wf_buffer (w_io_data w) \<and> wf_buffer (w_cipher_data w) \<and> wf_buffer (w_plain_data w)
     \<and> wf_block (h_block_data (w_helper_read w)) \<and> wf_block (h_block_data (w_helper_write w))
     \<and> wf_unit (w_crypto w) \<and> (case w_backend_job w of None \<Rightarrow> True | Some j \<Rightarrow> job_window j)"

definition wf_aes :: "aes \<Rightarrow> bool" where
  "wf_aes A \<longleftrightarrow> (\<forall>k b d. wf_block d \<longrightarrow> wf_block (aes_encrypt A k b d) \<and> wf_block (aes_decrypt A k b d))"

text \<open>The library hands out requests of one block, and works on the buffers in place.\<close>

definition blocks_library :: "'l cbe_library \<Rightarrow> bool" where
  "blocks_library L \<longleftrightarrow>
     (\<forall>l i r j. has_io_request L l i = (r, j) \<longrightarrow> valid r \<longrightarrow> req_count r = 1)
     \<and> (\<forall>l io pl ci l' io' pl' ci'. wf_buffer io \<longrightarrow> wf_buffer pl \<longrightarrow> wf_buffer ci \<longrightarrow>
          lib_execute L l io pl ci = (l', io', pl', ci') \<longrightarrow> wf_buffer io' \<and> wf_buffer pl' \<and> wf_buffer ci')"

definition blocks_world :: "('l \<Rightarrow> nat) \<Rightarrow> ('l, 'f) world \<Rightarrow> bool" where
  "blocks_world n E \<longleftrightarrow>
     library_contract (world_lib E) n \<and> blocks_library (world_lib E) \<and> file_bounded (world_file E)
     \<and> wf_aes (world_aes E)"

lemma blocks_worldD:
  assumes "blocks_world n E"
  shows "library_contract (world_lib E) n" "file_bounded (world_file E)" "wf_aes (world_aes E)"
    and "has_io_request (world_lib E) l i = (r, j) \<Longrightarrow> valid r \<Longrightarrow> req_count r = 1"
    and "wf_buffer io \<Longrightarrow> wf_buffer pl \<Longrightarrow> wf_buffer ci \<Longrightarrow> lib_execute (world_lib E) l io pl ci = (l', io', pl', ci')
      \<Longrightarrow> wf_buffer io' \<and> wf_buffer pl' \<and> wf_buffer ci'"
  using assms unfolding blocks_world_def blocks_library_def by blast+

lemma typed_frame:
  assumes "typed w" "w_io_data w' = w_io_data w" "w_cipher_data w' = w_cipher_data w"
    "w_plain_data w' = w_plain_data w" "h_block_data (w_helper_read w') = h_block_data (w_helper_read w)"
    "h_block_data (w_helper_write w') = h_block_data (w_helper_write w)" "w_crypto w' = w_crypto w"
    "w_backend_job w' = w_backend_job w"
  shows "typed w'"
  using assms by (simp add: typed_def)

lemma wf_set_item: "wf_buffer b \<Longrightarrow> wf_block d \<Longrightarrow> set_item b i d = Inr b' \<Longrightarrow> wf_buffer b'"
  using set_item_wf_buffer by blast

lemma wf_item: "wf_buffer b \<Longrightarrow> item b i = Inr d \<Longrightarrow> wf_block d"
  by (auto simp: item_wf_buffer wf_buffer_def length_Suc_conv split: if_splits)

section \<open>The back end\<close>

lemma apply_answer_typed:
  assumes "wf_buffer (env_io_data e)" "job_window (env_job e)" "apply_answer L progress a e = (e', p)"
    and "\<And>out. a = Moved out \<Longrightarrow> out \<le> job_current_count (env_job e)"
  shows "wf_buffer (env_io_data e') \<and> job_window (env_job e')"
proof (cases a)
  case (Moved out)
  let ?j = "env_job e"
  have le: "unat out \<le> unat (job_current_count ?j)" "unat (job_current_count ?j - out) = unat (job_current_count ?j) - unat out"
    using assms(4) [OF Moved] by (simp_all add: word_le_nat_alt unat_sub)
  moreover have "unat (job_current_offset ?j + out) = unat (job_current_offset ?j) + unat out"
    using assms(2) le(1) unat_add_lem [of "job_current_offset ?j" out] by (simp add: job_window_def)
  ultimately have "job_window (?j\<lparr>job_current_offset := job_current_offset ?j + out,
      job_current_count := job_current_count ?j - out, job_success := True, job_io_state := s\<rparr>)" for s
    using assms(2) by (simp add: job_window_def)
  with assms(1,3) Moved show ?thesis
    by (auto simp: apply_answer_def job_done_def job_window_def Let_def split: if_splits)
qed (use assms(1-3) in \<open>auto simp: apply_answer_def job_done_def job_window_def\<close>)

lemma read_in_progress_typed:
  assumes "file_bounded F" "wf_buffer (env_io_data e)" "job_window (env_job e)"
    and "read_in_progress F L progress e = Inr (e', p)"
  shows "wf_buffer (env_io_data e') \<and> job_window (env_job e')"
  using assms(4)
proof (rule read_in_progressE)
  fix data result out bs f' io'
  assume data: "item (env_io_data e) (job_index (env_job e)) = Inr data"
    and answer: "vfs_complete_read F (env_file e) (job_current_count (env_job e)) = ((result, out, bs), f')"
    and io': "set_item (env_io_data e) (job_index (env_job e))
      (overwrite data (unat (job_current_offset (env_job e))) bs) = Inr io'"
    and e': "apply_answer L progress (read_answer result out) (e\<lparr>env_file := f', env_io_data := io'\<rparr>) = (e', p)"
  have bounds: "out \<le> job_current_count (env_job e)" "length bs \<le> unat (job_current_count (env_job e))"
    using assms(1) answer unfolding file_bounded_def by blast+
  have "wf_block data" by (rule wf_item [OF assms(2) data])
  with assms(3) bounds(2) have "wf_block (overwrite data (unat (job_current_offset (env_job e))) bs)"
    by (simp add: wf_block_def job_window_def)
  from wf_set_item [OF assms(2) this io'] have "wf_buffer io'" .
  moreover have "x = out" if "read_answer result out = Moved x" for x using that by (cases result) simp_all
  ultimately show ?thesis
    using bounds(1) assms(3) by (intro apply_answer_typed [OF _ _ e']) auto
qed

lemma write_in_progress_typed:
  assumes "file_bounded F" "wf_buffer (env_io_data e)" "job_window (env_job e)"
    and "write_in_progress F L progress e = Inr (e', p)"
  shows "wf_buffer (env_io_data e') \<and> job_window (env_job e')"
  using assms(4)
proof (rule write_in_progressE)
  fix data outcome out f'
  assume answer: "vfs_write F (env_file e)
       (take (unat (job_current_count (env_job e))) (drop (unat (job_current_offset (env_job e))) data))
       (job_current_count (env_job e)) = ((outcome, out), f')"
    and e': "apply_answer L progress (write_answer outcome out) (e\<lparr>env_file := f'\<rparr>) = (e', p)"
  have bounds: "out \<le> job_current_count (env_job e)" using assms(1) answer unfolding file_bounded_def by blast
  moreover have "x = out" if "write_answer outcome out = Moved x" for x
    using that by (cases "(outcome, out)" rule: write_answer.cases) simp_all
  ultimately show ?thesis
    using assms(2,3) by (intro apply_answer_typed [OF _ _ e']) auto
qed

lemma job_execute_typed:
  assumes "file_bounded F" "wf_buffer (env_io_data e)" "job_window (env_job e)" "job_execute F L e = Inr (e', p)"
  shows "wf_buffer (env_io_data e') \<and> job_window (env_job e')"
proof -
  have marked: "wf_buffer (env_io_data (e\<lparr>env_file := f, env_lib := l, env_job := (env_job e)\<lparr>job_io_state := s\<rparr>\<rparr>))"
    "job_window (env_job (e\<lparr>env_file := f, env_lib := l, env_job := (env_job e)\<lparr>job_io_state := s\<rparr>\<rparr>))" for f l s
    using assms(2,3) by (simp_all add: job_window_def)
  have "wf_buffer (env_io_data e') \<and> job_window (env_job e')" if "io_read F L e = Inr (e', p)"
    using that assms(2,3) read_in_progress_typed [OF assms(1-3)] read_in_progress_typed [OF assms(1) marked]
    by (auto simp: io_read_def job_done_def job_window_def Let_def split: io_state.splits prod.splits if_splits)
  moreover have "wf_buffer (env_io_data e') \<and> job_window (env_job e')" if "io_write F L e = Inr (e', p)"
    using that assms(2,3) write_in_progress_typed [OF assms(1-3)] write_in_progress_typed [OF assms(1) marked]
    by (auto simp: io_write_def job_done_def job_window_def Let_def split: io_state.splits)
  moreover have "wf_buffer (env_io_data e') \<and> job_window (env_job e')" if "io_sync F L e = Inr (e', p)"
    using that assms(2,3)
    by (auto simp: io_sync_def sync_in_progress_def job_done_def job_window_def Let_def
        split: io_state.splits prod.splits if_splits sync_result.splits)
  ultimately show ?thesis
    using assms by (auto simp: job_execute_def split: if_splits)
qed

lemma execute_backend_job_typed:
  assumes "blocks_world n E" "typed w" "job_window j" "execute_backend_job E j w = Inr (w', p)"
  shows "typed w'"
proof -
  let ?e = "\<lparr> env_job = j, env_file = w_backend w, env_lib = w_cbe w, env_io_data = w_io_data w \<rparr>"
  obtain e where e: "job_execute (world_file E) (world_lib E) ?e = Inr (e, p)"
    and w': "w' = w\<lparr>w_backend := env_file e, w_cbe := env_lib e, w_io_data := env_io_data e,
       w_backend_job := (if job_completed (env_job e) then None else Some (env_job e))\<rparr>"
    using assms(4) by (auto simp: execute_backend_job_def elim!: bind_exn_InrE)
  have "wf_buffer (env_io_data ?e)" "job_window (env_job ?e)" using assms(2,3) by (simp_all add: typed_def)
  from job_execute_typed [OF blocks_worldD(2) [OF assms(1)] this e] assms(2) show ?thesis
    by (simp add: typed_def w')
qed

lemma handle_cbe_backend_typed:
  assumes "blocks_world n E" "typed w" "handle_cbe_backend E w = Inr (w', p)"
  shows "typed w'"
proof -
  obtain r i where r: "has_io_request (world_lib E) (w_cbe w) 0 = (r, i)" by fastforce
  show ?thesis
  proof (cases "w_backend_job w")
    case None
    have "job_window j" if "valid r" "new_io_job (req_operation r) i b (req_count r * BLOCK_SIZE) = Inr j" for b j
      using that(2) blocks_worldD(4) [OF assms(1) r that(1)]
      by (auto simp: new_io_job_def job_window_def elim!: bind_exn_InrE)
    with assms(2,3) r None show ?thesis
      by (auto simp: handle_cbe_backend_def split: if_splits elim!: bind_exn_InrE
          intro: execute_backend_job_typed [OF assms(1,2)])
  next
    case (Some j)
    with assms(2) have "job_window j" by (simp add: typed_def)
    from execute_backend_job_typed [OF assms(1,2) this] assms(3) r Some show ?thesis
      by (simp add: handle_cbe_backend_def)
  qed
qed

section \<open>The crypto unit\<close>

lemma crypto_execute_wf:
  assumes "wf_aes A" "wf_unit c" "crypto_execute A c = Inr (c', p)"
  shows "wf_unit c'"
proof -
  have "list_all wf_slot js'" if "list_all wf_slot js" "execute_jobs A js ks p = Inr (js', p')" for js ks p js' p'
    using that
  proof (induction js arbitrary: p js' p')
    case (Cons j js)
    have "Execute_Encrypt A j ks p = Inr (j', q) \<Longrightarrow> wf_slot j'"
      "Execute_Decrypt A j ks p = Inr (j', q) \<Longrightarrow> wf_slot j'" for j' q
      using Cons.prems(1) assms(1)
      by (auto simp: Execute_Encrypt_def Execute_Decrypt_def wf_slot_def wf_aes_def
          split: job_state_type.splits elim!: bind_exn_InrE)
    with Cons show ?case
      by (auto split: job_operation_type.splits elim!: bind_exn_InrE)
  qed simp
  with assms(2,3) show ?thesis
    by (auto simp: crypto_execute_def Crypto_Execute_def wf_unit_def elim!: bind_exn_InrE)
qed

lemma update_invalid_job_wf:
  "list_all wf_slot js \<Longrightarrow> (\<And>j. wf_slot j \<Longrightarrow> wf_slot (f j)) \<Longrightarrow> update_invalid_job f js = Inr js' \<Longrightarrow>
   list_all wf_slot js'"
  by (induction js arbitrary: js') (auto split: if_splits elim!: bind_exn_InrE)

lemma submit_request_wf:
  assumes "wf_unit c" "wf_block d"
  shows "submit_encryption_request c r d k = Inr (c', ok) \<Longrightarrow> wf_unit c'"
    and "submit_decryption_request c r d k = Inr (c', ok) \<Longrightarrow> wf_unit c'"
proof -
  have slots: "list_all wf_slot (cr_jobs c)" using assms(1) by (simp add: wf_unit_def)
  show "wf_unit c'" if "submit_encryption_request c r d k = Inr (c', ok)"
    using that assms(2)
    by (auto simp: submit_encryption_request_def Submit_Encryption_Request_def wf_unit_def
        elim!: bind_exn_InrE update_invalid_job_wf [OF slots, rotated]) (simp add: wf_slot_def)
  show "wf_unit c'" if "submit_decryption_request c r d k = Inr (c', ok)"
    using that assms(2)
    by (auto simp: submit_decryption_request_def Submit_Decryption_Request_def wf_unit_def
        elim!: bind_exn_InrE update_invalid_job_wf [OF slots, rotated]) (simp add: wf_slot_def)
qed

lemma supply_job_wf:
  assumes "list_all wf_slot js" "\<And>j. wf_slot j \<Longrightarrow> wf_block (data j)" "supply_job data r js = (js', out)"
  shows "list_all wf_slot js' \<and> (\<forall>d. out = Some d \<longrightarrow> wf_block d)"
  using assms
  by (induction js arbitrary: js') (auto simp: wf_slot_def split: if_splits prod.splits)

lemma supply_data_wf:
  assumes "wf_unit c"
  shows "supply_cipher_data c r = Inr (c', out) \<Longrightarrow> wf_unit c' \<and> (\<forall>d. out = Some d \<longrightarrow> wf_block d)"
    and "supply_plain_data c r = Inr (c', out) \<Longrightarrow> wf_unit c' \<and> (\<forall>d. out = Some d \<longrightarrow> wf_block d)"
proof -
  have slots: "list_all wf_slot (cr_jobs c)" using assms by (simp add: wf_unit_def)
  show "wf_unit c' \<and> (\<forall>d. out = Some d \<longrightarrow> wf_block d)" if "supply_cipher_data c r = Inr (c', out)"
    using that supply_job_wf [OF slots, of job_cipher_data "to_spark r"]
    by (cases "supply_job job_cipher_data (to_spark r) (cr_jobs c)")
      (auto simp: supply_cipher_data_def Supply_Cipher_Data_def wf_unit_def wf_slot_def
        elim!: bind_exn_InrE dest!: spark_of_request_InrD)
  show "wf_unit c' \<and> (\<forall>d. out = Some d \<longrightarrow> wf_block d)" if "supply_plain_data c r = Inr (c', out)"
    using that supply_job_wf [OF slots, of job_plain_data "to_spark r"]
    by (cases "supply_job job_plain_data (to_spark r) (cr_jobs c)")
      (auto simp: supply_plain_data_def Supply_Plain_Data_def wf_unit_def wf_slot_def
        elim!: bind_exn_InrE dest!: spark_of_request_InrD)
qed

lemma key_operations_wf:
  "wf_unit c \<Longrightarrow> crypto_add_key c kid d = Inr c' \<Longrightarrow> wf_unit c'"
  "wf_unit c \<Longrightarrow> crypto_remove_key c kid = Inr c' \<Longrightarrow> wf_unit c'"
  by (metis wf_unit_def key_operations_jobs)+

text \<open>A pass of a loop that keeps the types.\<close>

definition typed_pass :: "(('l, 'f) wrapper \<times> bool \<Rightarrow> (('l, 'f) wrapper \<times> bool, exn) loop_step) \<Rightarrow> bool" where
  "typed_pass body \<longleftrightarrow>
     (\<forall>s s'. typed (fst s) \<longrightarrow> body s = Continue s' \<or> body s = Break s' \<longrightarrow> typed (fst s'))"

lemma typed_passI:
  assumes "\<And>w p w' p'. typed w \<Longrightarrow> body (w, p) = Continue (w', p') \<or> body (w, p) = Break (w', p') \<Longrightarrow> typed w'"
  shows "typed_pass body"
  using assms by (auto simp: typed_pass_def)

lemma typed_loop:
  assumes "typed_pass body" "typed (fst s)" "run_loop body s = Some (Inr s')"
  shows "typed (fst s')"
proof -
  let ?Q = "\<lambda>r. case r of Inl (e :: exn) \<Rightarrow> True | Inr s \<Rightarrow> typed (fst s)"
  have step: "body s = Continue s' \<Longrightarrow> typed (fst s')" "body s = Break s' \<Longrightarrow> typed (fst s')"
    if "typed (fst s)" for s s'
    using assms(1) that unfolding typed_pass_def by blast+
  have "?Q (Inr s')"
    by (rule run_loop_rule [where I = "\<lambda>s. typed (fst s)" and Q = ?Q, OF assms(3)])
      (rule assms(2), rule step(1), assumption+, simp only: sum.case, rule step(2), assumption+, simp)
  then show ?thesis by simp
qed

lemma key_passes_typed: "typed_pass (add_key_pass E)" "typed_pass (remove_key_pass E)"
proof -
  show "typed_pass (add_key_pass E)"
    by (rule typed_passI)
      (auto simp: add_key_pass_def Let_def typed_def split: prod.splits if_splits sum.splits
        dest: key_operations_wf)
  show "typed_pass (remove_key_pass E)"
    by (rule typed_passI)
      (auto simp: remove_key_pass_def Let_def typed_def split: prod.splits if_splits sum.splits
        dest: key_operations_wf)
qed

lemma submit_passes_typed: "typed_pass (encrypt_pass E)" "typed_pass (decrypt_pass E)"
proof -
  show "typed_pass (encrypt_pass E)"
    by (rule typed_passI)
      (auto simp: encrypt_pass_def Let_def typed_def bind_exn_def split: prod.splits if_splits sum.splits
        dest: wf_item intro: submit_request_wf(1))
  show "typed_pass (decrypt_pass E)"
    by (rule typed_passI)
      (auto simp: decrypt_pass_def Let_def typed_def bind_exn_def split: prod.splits if_splits sum.splits
        dest: wf_item intro: submit_request_wf(2))
qed

lemma supply_passes_typed: "typed_pass (encrypted_pass E)" "typed_pass (decrypted_pass E)"
proof -
  show "typed_pass (encrypted_pass E)"
    by (rule typed_passI)
      (auto simp: encrypted_pass_def Let_def typed_def split: prod.splits if_splits sum.splits option.splits
        dest: supply_data_wf(1) intro: wf_set_item [OF _ supply_data_wf(1) [THEN conjunct2, rule_format]])
  show "typed_pass (decrypted_pass E)"
    by (rule typed_passI)
      (auto simp: decrypted_pass_def Let_def typed_def split: prod.splits if_splits sum.splits option.splits
        dest: supply_data_wf(2) intro: wf_set_item [OF _ supply_data_wf(2) [THEN conjunct2, rule_format]])
qed

lemma handle_crypto_typed:
  assumes "blocks_world n E" "typed w" "handle_crypto E w = Some (Inr (w', p))"
  shows "typed w'"
proof -
  obtain c q s1 s2 s3 s4 s5 where c: "crypto_execute (world_aes E) (w_crypto w) = Inr (c, q)"
    and s: "run_loop (add_key_pass E) (w\<lparr>w_crypto := c\<rparr>, q) = Some (Inr s1)"
      "run_loop (remove_key_pass E) s1 = Some (Inr s2)" "run_loop (encrypt_pass E) s2 = Some (Inr s3)"
      "run_loop (encrypted_pass E) s3 = Some (Inr s4)" "run_loop (decrypt_pass E) s4 = Some (Inr s5)"
      "run_loop (decrypted_pass E) s5 = Some (Inr (w', p))"
    using assms(3) by (auto simp: handle_crypto_def elim!: bind_run_InrE)
  have "wf_unit c" using crypto_execute_wf [OF blocks_worldD(3) [OF assms(1)] _ c] assms(2) by (simp add: typed_def)
  then have "typed (fst (w\<lparr>w_crypto := c\<rparr>, q))" using assms(2) by (simp add: typed_def)
  from typed_loop [OF supply_passes_typed(2) typed_loop [OF submit_passes_typed(2)
      typed_loop [OF supply_passes_typed(1) typed_loop [OF submit_passes_typed(1)
      typed_loop [OF key_passes_typed(2) typed_loop [OF key_passes_typed(1) this s(1)] s(2)] s(3)] s(4)] s(5)] s(6)]
  show ?thesis by simp
qed

section \<open>The front end\<close>

lemma submit_requests_typed:
  assumes "typed w" "submit_pending_request E (submit_helper_requests E w) = (w', rejected)"
  shows "typed w'"
proof -
  have "typed (submit_helper_requests E w)"
    by (rule typed_frame [OF assms(1)]) (simp_all add: submit_helper_requests_def Let_def)
  then show ?thesis
    by (rule typed_frame) (use assms(2) in \<open>auto simp: submit_pending_request_def Let_def split: if_splits\<close>)
qed

lemma execute_library_typed: "blocks_world n E \<Longrightarrow> typed w \<Longrightarrow> typed (execute_library E w)"
  by (auto simp: execute_library_def typed_def split: prod.split dest: blocks_worldD(5))

lemma complete_requests_typed:
  assumes "typed w" "complete_requests E w p = Some (Inr (w', p'))"
  shows "typed w'"
proof -
  have "typed_pass (complete_request E)"
    by (rule typed_passI, erule typed_frame) (auto simp: complete_request_def Let_def split: if_splits)
  from typed_loop [OF this, of "(w, p)"] assms show ?thesis by (simp add: complete_requests_def)
qed

text \<open>The bytes of the client go into the block, as the invariant of the requests has it.\<close>

lemma finish_helper_read_typed:
  assumes "frontend_inv n w" "typed w" "finish_helper_read w p = (w', p')"
  shows "typed w'"
proof -
  have "wf_block (splice (h_block_data (w_helper_read w)) (fr_helper_offset (w_frontend w))
      (mem_read m a (unat (fr_count (w_frontend w)))))" if "h_state (w_helper_read w) = H_COMPLETE" for m a
    using that assms(1,2)
    by (simp add: inv_defs typed_def splice_def wf_block_def)
  with assms(2,3) show ?thesis
    by (auto simp: finish_helper_read_def typed_def Let_def split: if_splits)
qed

lemma finish_helper_write_typed: "typed w \<Longrightarrow> finish_helper_write w p = (w', p') \<Longrightarrow> typed w'"
  by (erule typed_frame) (auto simp: finish_helper_write_def split: if_splits)

lemma client_data_typed:
  assumes "typed w"
  shows "deliver_read_data E w p = Inr (w', p', q) \<Longrightarrow> typed w'"
    and "take_write_data E w p = Inr (w', p') \<Longrightarrow> typed w'"
  using assms
  by (auto simp: deliver_read_data_def take_write_data_def typed_def Let_def bind_exn_def
      split: if_splits prod.splits sum.splits dest: wf_item)

lemma handle_cbe_frontend_typed:
  assumes "blocks_world n E" "frontend_inv n w" "typed w" "handle_cbe_frontend E w = Some (Inr (w', p))"
  shows "typed w'"
  using assms(4)
proof (cases rule: handle_cbe_frontendE)
  case rejected
  from submit_requests_typed [OF assms(3) this] show ?thesis .
next
  case (driven w1 w3 p3 w4 p4 w5 p5 w6 p6 q)
  note lib = blocks_worldD(1) [OF assms(1)]
  have i1: "frontend_inv n w1"
    by (rule submit_pending_request_inv [OF lib submit_helper_requests_inv [OF lib assms(2)] driven(1)])
  have i3: "frontend_inv n w3"
    using complete_requests_inv [OF lib execute_library_inv [OF lib i1]] driven(2) by fastforce
  have "typed w3"
    by (rule complete_requests_typed [OF execute_library_typed [OF assms(1) submit_requests_typed [OF assms(3) driven(1)]]
          driven(2)])
  from client_data_typed(1) [OF finish_helper_write_typed [OF finish_helper_read_typed [OF i3 this driven(3)] driven(4)]
      driven(5)]
  show ?thesis using driven(6) client_data_typed(2) [of w6 E p6 w' p] by auto
qed

section \<open>All operations\<close>

definition buffers_inv :: "('l \<Rightarrow> nat) \<Rightarrow> ('l, 'f) wrapper \<Rightarrow> bool" where
  "buffers_inv n w \<longleftrightarrow> plugin_inv n w \<and> typed w"

lemma handle_frontend_request_typed:
  fixes E :: "('l, 'f) world"
  assumes "blocks_world n E" "frontend_inv n w" "typed w" "handle_frontend_request E w = Some (Inr w')"
  shows "typed w'"
proof -
  let ?I = "\<lambda>w. frontend_inv n w \<and> typed w"
  note lib = blocks_worldD(1) [OF assms(1)]
  obtain w1 where run: "run_while (handle_frontend_pass E) w = Some (Inr w1)"
    and w': "w' = update_background_state (library_info (world_lib E) (w_cbe w1)) w1"
    using assms(4) by (auto simp: handle_frontend_request_def split: if_splits elim!: bind_run_InrE)
  have pass: "?I t'" if "?I t" "handle_frontend_pass E t = Some (Inr (t', q))" for t t' :: "('l, 'f) wrapper" and q
    using that(2)
  proof (rule handle_frontend_passE)
    fix t1 p1 t2 p2 p3
    assume t: "handle_cbe_frontend E t = Some (Inr (t1, p1))" "handle_cbe_backend E t1 = Inr (t2, p2)"
      "handle_crypto E t2 = Some (Inr (t', p3))"
    have "typed t'"
      by (rule handle_crypto_typed [OF assms(1) handle_cbe_backend_typed [OF assms(1)
            handle_cbe_frontend_typed [OF assms(1) _ _ t(1)] t(2)] t(3)]) (use that(1) in simp_all)
    moreover have "frontend_inv n t'"
      using handle_frontend_pass_safe [OF lib, of t] that by (simp add: safe_result_def)
    ultimately show ?thesis by simp
  qed
  let ?Q = "\<lambda>r. case r of Inl (e :: exn) \<Rightarrow> True | Inr t \<Rightarrow> ?I t"
  have "?Q (Inr w1)"
  proof (rule run_while_rule [where I = ?I and Q = ?Q, OF run])
    show "?I w" using assms(2,3) by simp
    show "?I t'" if "?I t" "handle_frontend_pass E t = Some (Inr (t', True))" for t t'
      by (rule pass [OF that])
    show "?Q (Inr t')" if "?I t" "handle_frontend_pass E t = Some (Inr (t', False))" for t t'
      using pass [OF that] by simp
  qed simp
  then have "typed w1" by simp
  then show ?thesis by (rule typed_frame) (simp_all add: w' update_background_state_def Let_def)
qed

interpretation buffers: plugin_contract E "buffers_inv n" "blocks_world n E"
  for E :: "('l, 'f) world" and n
proof unfold_locales
  fix w w' :: "('l, 'f) wrapper" and r i
  have frame: "typed w \<Longrightarrow> same_engine w w' \<Longrightarrow> typed w'"
    by (erule typed_frame) (simp_all add: same_engine_def)
  show "buffers_inv n w \<Longrightarrow> w_cbe_constructed w" by (simp add: buffers_inv_def plugin_inv_def)
  show "buffers_inv n w'"
    if "blocks_world n E" "buffers_inv n w" "handle_frontend_request E w = Some (Inr w')"
    using that handle_frontend_request_typed [OF that(1) _ _ that(3)]
      plugin_inv_handled [OF blocks_worldD(1) [OF that(1)] _ that(3)]
    by (simp add: buffers_inv_def plugin_inv_def)
  show "buffers_inv n w \<Longrightarrow> same_engine w w' \<Longrightarrow> w_cbe w' = w_cbe w \<Longrightarrow> buffers_inv n w'"
    using frame plugin_inv_engine [of n w w'] by (simp add: buffers_inv_def)
  show "buffers_inv n w'" if "blocks_world n E" "buffers_inv n w"
    "w_cbe w' = submit_client_request (world_lib E) (w_cbe w) r i" "same_engine w w'"
    "\<not> client_op (req_operation r)"
    using that frame safe.background [OF blocks_worldD(1) [OF that(1)] _ that(3-5)]
    by (simp add: buffers_inv_def)
  show "buffers_inv n w \<Longrightarrow> fr_state (w_frontend w) \<noteq> F_IN_PROGRESS \<Longrightarrow> buffers_inv n (ack_frontend_request w)"
    using plugin_inv_acknowledged [of n w] typed_frame [of w "ack_frontend_request w"]
    by (simp add: buffers_inv_def ack_frontend_request_def)
  show "buffers_inv n w'"
    if "buffers_inv n w" "fr_state (w_frontend w) = F_NONE" "op = READ \<or> op = WRITE \<or> op = SYNC"
      "submit_frontend_request w seek data count op snap_id = (w', accepted)"
    for op seek data count snap_id accepted
  proof -
    have "typed w'" if "typed w"
      by (rule typed_frame [OF that])
        (use \<open>submit_frontend_request w seek data count op snap_id = (w', accepted)\<close> in
          \<open>auto simp: submit_frontend_request_def Let_def split: if_splits\<close>)
    with that(1) plugin_inv_submitted [OF _ that(2-4), of n] show ?thesis by (simp add: buffers_inv_def)
  qed
qed

lemma created_typed:
  assumes "new_wrapper E config members = Inr w" "members = wrapper_members f l read_addr write_addr mem"
  shows "typed w"
  using assms
  by (auto simp: new_wrapper_def initialize_cbe_def read_config_def wrapper_members_def typed_def helper_init_def
      wf_unit_def wf_slot_def Initialized_Object_def Invalid_Job_def split: option.splits)

text \<open>
  C7. In every state that the plugin can reach each of its three buffers holds one block of 4096
  bytes, and so do the helper requests and the job slots of the crypto unit; the part of the
  buffer that a back-end job still has to move and the bytes that a helper request copies lie
  inside their block.
\<close>

theorem reachable_buffers_typed:
  assumes "plugin_reach E P config members w" "blocks_world n E" "n (world_new_lib E) = 0"
    and "members = wrapper_members f l read_addr write_addr mem"
  shows "wf_buffer (w_io_data w) \<and> wf_buffer (w_plain_data w) \<and> wf_buffer (w_cipher_data w)
     \<and> length (h_block_data (w_helper_read w)) = 4096 \<and> length (h_block_data (w_helper_write w)) = 4096
     \<and> (h_state (w_helper_read w) \<noteq> H_NONE \<longrightarrow>
          unat (fr_helper_offset (w_frontend w)) + unat (fr_count (w_frontend w)) \<le> 4096)
     \<and> (\<forall>j. w_backend_job w = Some j \<longrightarrow> unat (job_current_offset j) + unat (job_current_count j) \<le> 4096)
     \<and> list_all (\<lambda>j. length (job_cipher_data j) = 4096 \<and> length (job_plain_data j) = 4096)
         (cr_jobs (w_crypto w))"
proof -
  have "buffers_inv n w"
    using plugin_inv_created [where n = n and E = E, OF _ assms(3,4)] created_typed [OF _ assms(4), of E config]
    by (intro buffers.reachable [OF assms(1,2)]) (simp add: buffers_inv_def)
  then have inv: "frontend_inv n w" "typed w" by (simp_all add: buffers_inv_def plugin_inv_def)
  have "h_state (w_helper_read w) \<noteq> H_NONE \<longrightarrow>
      unat (fr_helper_offset (w_frontend w)) + unat (fr_count (w_frontend w)) \<le> 4096"
    using inv(1) by (simp add: inv_defs)
  moreover have "list_all (\<lambda>j. length (job_cipher_data j) = 4096 \<and> length (job_plain_data j) = 4096)
      (cr_jobs (w_crypto w))"
    using inv(2) by (auto simp: typed_def wf_unit_def wf_slot_def wf_block_def list_all_iff)
  moreover have "\<forall>j. w_backend_job w = Some j \<longrightarrow>
      unat (job_current_offset j) + unat (job_current_count j) \<le> 4096"
    using inv(2) by (auto simp: typed_def job_window_def)
  ultimately show ?thesis
    using inv(2) by (simp add: typed_def wf_block_def)
qed

theorem reachable_buffers_typed_witness:
  "list_all (\<lambda>j. length (job_cipher_data j) = 4096 \<and> length (job_plain_data j) = 4096)
     (cr_jobs (w_crypto (disk_wrapper frontend_init)))"
proof -
  have "blocks_library disk_library"
    by (auto simp: blocks_library_def disk_defs has_io_request_def valid_def invalid_request_def split: if_splits)
  moreover have "file_bounded zero_device" by (auto simp: file_bounded_def zero_device_def)
  moreover have "wf_aes sample_aes" by (simp add: wf_aes_def sample_aes_def wf_block_def)
  ultimately have "blocks_world length disk_world" by (simp add: blocks_world_def disk_contract)
  from reachable_buffers_typed [where P = example_parsers, OF plugin_reach.created [OF disk_created] this _ refl]
  show ?thesis by (simp add: example_world_def)
qed

end
