(* ===== verification/Block_File.thy ===== *)
theory Block_File
  imports Cbe_Types
begin

text \<open>
  A device of 4096-byte blocks as an array of bytes.

  \<^item> \<open>file_read\<close> and \<open>file_write\<close> are the two accesses to such an array; they are the specification
    that \<open>Plugin_Device\<close> refines.
  \<^item> \<open>loaded\<close> and \<open>stored\<close> are client memory and the device while an access of several whole
    blocks is under way: the blocks of a set have been moved, the others have not.
\<close>

type_synonym blocks = "u64 \<Rightarrow> block_data"

section \<open>The array\<close>

definition file_read :: "blocks \<Rightarrow> nat \<Rightarrow> nat \<Rightarrow> bytes" where
  "file_read V seek n = map (\<lambda>i. V (of_nat ((seek + i) div 4096)) ! ((seek + i) mod 4096)) [0..<n]"

definition file_write :: "blocks \<Rightarrow> nat \<Rightarrow> bytes \<Rightarrow> blocks" where
  "file_write V seek bs = (\<lambda>x.
     map (\<lambda>k. let i = unat x * 4096 + k in
              if seek \<le> i \<and> i < seek + length bs then bs ! (i - seek) else V x ! k) [0..<4096])"

definition wf_blocks :: "blocks \<Rightarrow> bool" where
  "wf_blocks V \<longleftrightarrow> (\<forall>x. wf_block (V x))"

lemma length_file_read [simp]: "length (file_read V seek n) = n"
  by (simp add: file_read_def)

lemma wf_file_write: "wf_blocks (file_write V seek bs)"
  by (simp add: wf_blocks_def file_write_def wf_block_def)

lemma length_block: "wf_blocks V \<Longrightarrow> length (V x) = 4096"
  by (simp add: wf_blocks_def wf_block_def)

lemma file_write_nil: "wf_blocks V \<Longrightarrow> file_write V seek [] = V"
  by (rule ext, rule nth_equalityI) (auto simp: file_write_def length_block Let_def)

text \<open>What was written can be read; bytes outside are as before.\<close>

lemma file_read_write:
  assumes "k \<le> length bs" "seek + length bs \<le> 2 ^ 64"
  shows "file_read (file_write V seek bs) seek k = take k bs"
proof (rule nth_equalityI)
  fix i assume "i < length (file_read (file_write V seek bs) seek k)"
  then have i: "i < k" by simp
  with assms have "(seek + i) div 4096 < 2 ^ 64" by (simp add: div_less_iff_less_mult)
  then have u: "unat (of_nat ((seek + i) div 4096) :: u64) = (seek + i) div 4096"
    by (simp only: unat_of_nat) simp
  have "(seek + i) div 4096 * 4096 + (seek + i) mod 4096 = seek + i" by simp
  with i assms(1) u show "file_read (file_write V seek bs) seek k ! i = take k bs ! i"
    by (simp add: file_read_def file_write_def Let_def)
qed (use assms(1) in simp)

lemma file_read_write_other:
  assumes "other + n \<le> seek \<or> seek + length bs \<le> other" "other + n \<le> 2 ^ 64"
  shows "file_read (file_write V seek bs) other n = file_read V other n"
proof (rule nth_equalityI)
  fix i assume "i < length (file_read (file_write V seek bs) other n)"
  then have i: "i < n" by simp
  with assms(2) have "(other + i) div 4096 < 2 ^ 64" by (simp add: div_less_iff_less_mult)
  then have u: "unat (of_nat ((other + i) div 4096) :: u64) = (other + i) div 4096"
    by (simp only: unat_of_nat) simp
  have "(other + i) div 4096 * 4096 + (other + i) mod 4096 = other + i" by simp
  with i assms(1) u show "file_read (file_write V seek bs) other n ! i = file_read V other n ! i"
    by (auto simp: file_read_def file_write_def Let_def)
qed simp

section \<open>An access within one block\<close>

lemma file_read_block:
  assumes "wf_blocks V" "k + n \<le> 4096"
  shows "take n (drop k (V x)) = file_read V (unat x * 4096 + k) n"
proof (rule nth_equalityI)
  show "length (take n (drop k (V x))) = length (file_read V (unat x * 4096 + k) n)"
    using assms by (simp add: length_block min_absorb2)
  fix i assume "i < length (take n (drop k (V x)))"
  then have i: "k + i < 4096" "i < n" using assms by (simp_all add: length_block)
  then have "(unat x * 4096 + k + i) div 4096 = unat x" "(unat x * 4096 + k + i) mod 4096 = k + i"
    by (simp_all add: add.assoc)
  with i assms show "take n (drop k (V x)) ! i = file_read V (unat x * 4096 + k) n ! i"
    by (simp add: file_read_def length_block)
qed

lemma file_write_block:
  assumes "wf_blocks V" "k + length bs \<le> 4096"
  shows "V(x := overwrite (V x) k bs) = file_write V (unat x * 4096 + k) bs"
proof (rule ext, rule nth_equalityI)
  fix y
  show "length ((V(x := overwrite (V x) k bs)) y) = length (file_write V (unat x * 4096 + k) bs y)"
    using assms by (simp add: length_block file_write_def)
  fix i assume "i < length ((V(x := overwrite (V x) k bs)) y)"
  then have i: "i < 4096" using assms by (simp add: length_block split: if_splits)
  have other: "\<not> (unat x * 4096 + k \<le> unat y * 4096 + i \<and> unat y * 4096 + i < unat x * 4096 + k + length bs)"
    if "x \<noteq> y"
  proof -
    from that have "unat x < unat y \<or> unat y < unat x" by (simp add: word_unat_eq_iff) linarith
    with i assms(2) show ?thesis by (elim disjE) linarith+
  qed
  show "(V(x := overwrite (V x) k bs)) y ! i = file_write V (unat x * 4096 + k) bs y ! i"
  proof (cases "x = y")
    case True
    with i assms show ?thesis
      by (auto simp: file_write_def nth_overwrite length_block Let_def intro: arg_cong)
  next
    case False
    with i other show ?thesis by (auto simp: file_write_def Let_def)
  qed
qed

section \<open>An access of whole blocks\<close>

definition loaded :: "memory \<Rightarrow> u64 \<Rightarrow> (nat \<Rightarrow> block_data) \<Rightarrow> nat set \<Rightarrow> memory" where
  "loaded m a B D = (\<lambda>x. let i = unat (x - a) in if i div 4096 \<in> D then B (i div 4096) ! (i mod 4096) else m x)"

definition stored :: "blocks \<Rightarrow> u64 \<Rightarrow> (nat \<Rightarrow> block_data) \<Rightarrow> nat set \<Rightarrow> blocks" where
  "stored V b B D = (\<lambda>x. let j = unat (x - b) in if j \<in> D then B j else V x)"

lemma loaded_stored_empty [simp]: "loaded m a B {} = m" "stored V b B {} = V"
  by (simp_all add: loaded_def stored_def)

lemma unat_diff_of_nat:
  assumes "k < 2 ^ 64"
  shows "unat (x - of_nat k :: u64) = (if k \<le> unat x then unat x - k else unat x + 2 ^ 64 - k)"
proof -
  have "unat (of_nat k :: u64) = k" using assms by (simp only: unat_of_nat) simp
  then show ?thesis using unat_sub_if_size [of x "of_nat k"] by (simp add: word_size)
qed

text \<open>One more block.\<close>

lemma loaded_insert:
  assumes "k * 4096 + 4096 \<le> 2 ^ 64" "length (B k) = 4096"
  shows "mem_write (loaded m a B D) (a + of_nat k * BLOCK_SIZE) (B k) = loaded m a B (insert k D)"
proof
  fix x
  let ?i = "unat (x - a)"
  let ?d = "unat (x - (a + of_nat k * BLOCK_SIZE))"
  have shift: "x - (a + of_nat k * BLOCK_SIZE) = (x - a) - of_nat (k * 4096)" by (simp add: BLOCK_SIZE_def)
  have d: "?d = (if k * 4096 \<le> ?i then ?i - k * 4096 else ?i + 2 ^ 64 - k * 4096)"
    unfolding shift by (rule unat_diff_of_nat) (use assms(1) in simp)
  show "mem_write (loaded m a B D) (a + of_nat k * BLOCK_SIZE) (B k) x = loaded m a B (insert k D) x"
  proof (cases "?i div 4096 = k")
    case True
    then have "k * 4096 \<le> ?i" "?i - k * 4096 = ?i mod 4096"
      by (auto simp: minus_mult_div_eq_mod [symmetric] mult.commute)
    with True d assms(2) show ?thesis by (simp add: mem_write_def loaded_def Let_def)
  next
    case False
    have "4096 \<le> ?d"
    proof (cases "k * 4096 \<le> ?i")
      case le: True
      then have "k \<le> ?i div 4096" by (simp add: less_eq_div_iff_mult_less_eq)
      with False have "Suc k \<le> ?i div 4096" by simp
      then have "Suc k * 4096 \<le> ?i" by (simp only: less_eq_div_iff_mult_less_eq zero_less_numeral)
      with d le show ?thesis by simp
    next
      case gt: False
      with d assms(1) show ?thesis by simp
    qed
    with False assms(2) show ?thesis by (simp add: mem_write_def loaded_def Let_def)
  qed
qed

lemma stored_insert:
  assumes "k < 2 ^ 64"
  shows "(stored V b B D)(b + of_nat k := B k) = stored V b B (insert k D)"
proof
  fix x
  have "x = b + of_nat k \<longleftrightarrow> unat (x - b) = k"
  proof
    assume "x = b + of_nat k"
    then show "unat (x - b) = k" using assms by (simp add: unat_of_nat)
  next
    assume "unat (x - b) = k"
    then have "x - b = of_nat k" by auto
    then show "x = b + of_nat k" by (simp add: algebra_simps)
  qed
  then show "((stored V b B D)(b + of_nat k := B k)) x = stored V b B (insert k D) x"
    by (simp add: stored_def Let_def)
qed

text \<open>All of them.\<close>

lemma loaded_all:
  assumes "wf_blocks V" "n * 4096 \<le> 2 ^ 64" "B = (\<lambda>j. V (b + of_nat j))"
  shows "loaded m a B {..<n} = mem_write m a (file_read V (unat b * 4096) (n * 4096))"
proof
  fix x
  let ?i = "unat (x - a)"
  have b: "of_nat ((unat b * 4096 + ?i) div 4096) = b + of_nat (?i div 4096)"
    "(unat b * 4096 + ?i) mod 4096 = ?i mod 4096" by simp_all
  have "?i div 4096 < n \<longleftrightarrow> ?i < n * 4096" by (simp add: div_less_iff_less_mult)
  with b show "loaded m a B {..<n} x = mem_write m a (file_read V (unat b * 4096) (n * 4096)) x"
    by (simp add: loaded_def mem_write_def file_read_def assms(3) Let_def)
qed

lemma stored_all:
  assumes "wf_blocks V" "unat b + n \<le> 2 ^ 64" "length bs = n * 4096"
    and "\<And>j. j < n \<Longrightarrow> B j = take 4096 (drop (j * 4096) bs)"
  shows "stored V b B {..<n} = file_write V (unat b * 4096) bs"
proof
  fix x
  let ?j = "unat (x - b)"
  have j: "?j = (if unat b \<le> unat x then unat x - unat b else unat x + 2 ^ 64 - unat b)"
    using unat_diff_of_nat [of "unat b" x] unat_u64_less [of b] by simp
  have less: "?j < n \<longleftrightarrow> unat b \<le> unat x \<and> unat x < unat b + n"
    using assms(2) j by auto
  show "stored V b B {..<n} x = file_write V (unat b * 4096) bs x"
  proof (rule nth_equalityI)
    have len: "length (stored V b B {..<n} x) = 4096"
    proof (cases "?j < n")
      case True
      then have "?j * 4096 + 4096 \<le> n * 4096" by simp
      with True assms(3,4) show ?thesis by (simp add: stored_def Let_def)
    qed (use assms(1) in \<open>simp add: stored_def Let_def length_block\<close>)
    then show "length (stored V b B {..<n} x) = length (file_write V (unat b * 4096) bs x)"
      by (simp add: file_write_def)
    fix i assume "i < length (stored V b B {..<n} x)"
    with len have i: "i < 4096" by simp
    show "stored V b B {..<n} x ! i = file_write V (unat b * 4096) bs x ! i"
    proof (cases "?j < n")
      case True
      then have jx: "?j = unat x - unat b" "unat b \<le> unat x" "unat x < unat b + n" using less j by auto
      have "?j * 4096 + 4096 \<le> n * 4096" using True by simp
      then have "stored V b B {..<n} x ! i = bs ! (?j * 4096 + i)"
        using True i assms(3,4) by (simp add: stored_def Let_def)
      moreover have "unat b * 4096 \<le> unat x * 4096 + i" "unat x * 4096 + i < unat b * 4096 + n * 4096"
        using jx(2,3) i by linarith+
      moreover have "unat x * 4096 + i - unat b * 4096 = ?j * 4096 + i"
        using jx(2) unfolding jx(1) by (simp add: diff_mult_distrib)
      ultimately show ?thesis using i assms(3) by (simp add: file_write_def Let_def)
    next
      case False
      then have "unat x < unat b \<or> unat b + n \<le> unat x" using less by auto
      then have "\<not> (unat b * 4096 \<le> unat x * 4096 + i \<and> unat x * 4096 + i < unat b * 4096 + n * 4096)"
        using i by (elim disjE) linarith+
      with False i assms(3) show ?thesis by (auto simp: stored_def file_write_def Let_def)
    qed
  qed
qed

lemma mem_read_block:
  assumes "j < n"
  shows "mem_read m (a + of_nat j * BLOCK_SIZE) 4096 = take 4096 (drop (j * 4096) (mem_read m a (n * 4096)))"
proof (rule nth_equalityI)
  from assms have le: "j * 4096 + 4096 \<le> n * 4096" by simp
  then show "length (mem_read m (a + of_nat j * BLOCK_SIZE) 4096)
      = length (take 4096 (drop (j * 4096) (mem_read m a (n * 4096))))" by simp
  fix i assume "i < length (mem_read m (a + of_nat j * BLOCK_SIZE) 4096)"
  then have "i < 4096" by simp
  with le show "mem_read m (a + of_nat j * BLOCK_SIZE) 4096 ! i
      = take 4096 (drop (j * 4096) (mem_read m a (n * 4096))) ! i"
    by (simp add: mem_read_def BLOCK_SIZE_def add.assoc)
qed

end
