(* ===== verification/Device_View.thy ===== *)
theory Device_View
  imports Plugin_Runs Block_File
begin

text \<open>
  What passes between the front end of the wrapper and the CBE library, and the block device that
  the library is to the front end.

  \<^item> \<open>exchange\<close> are the calls that move the blocks of a client request. \<open>recorded\<close> is a library that
    answers as another one does and keeps a log of these calls; \<open>recording\<close> is the world with it.
  \<^item> \<open>served\<close> says of a log that the calls are those of a block device, \<open>device_blocks\<close> is what the
    device then holds. Nothing is assumed of the library itself: the properties are about runs
    whose log is such a log.
  \<^item> The lemmas show that the back end and the crypto handler leave the log alone.
\<close>

section \<open>The exchange of blocks\<close>

text \<open>
  A request of the client is sent for a snapshot and completed; in between, the library hands out
  blocks that the client reads and is handed in blocks that the client writes. A block is given by
  its index in the request. A log has the newest call first.
\<close>

datatype exchange =
    Sent request u32
  | Handed_out request u64 block_data
  | Handed_in request u64 block_data
  | Client_completed request

fun last_sent :: "exchange list \<Rightarrow> request \<times> u32" where
  "last_sent [] = (invalid_request, 0)"
| "last_sent (Sent r s # xs) = (r, s)"
| "last_sent (_ # xs) = last_sent xs"

text \<open>The blocks of the last request that have been moved, and those it has.\<close>

fun moved_blocks :: "exchange list \<Rightarrow> nat list" where
  "moved_blocks [] = []"
| "moved_blocks (Sent r s # xs) = []"
| "moved_blocks (Handed_out r k d # xs) = unat k # moved_blocks xs"
| "moved_blocks (Handed_in r k d # xs) = unat k # moved_blocks xs"
| "moved_blocks (Client_completed r # xs) = moved_blocks xs"

definition blocks_of :: "request \<Rightarrow> nat list" where
  "blocks_of q = (if req_operation q = READ \<or> req_operation q = WRITE then [0..<unat (req_count q)] else [])"

text \<open>The content of each snapshot: a block that is handed in replaces the block it is written to.\<close>

fun device_blocks :: "(u32 \<Rightarrow> blocks) \<Rightarrow> exchange list \<Rightarrow> u32 \<Rightarrow> blocks" where
  "device_blocks B [] = B"
| "device_blocks B (Handed_in r k d # xs) =
     (case last_sent xs of (q, s) \<Rightarrow>
        (device_blocks B xs)(s := (device_blocks B xs s)(req_block_number q + k := d)))"
| "device_blocks B (_ # xs) = device_blocks B xs"

text \<open>
  The calls of a block device: it asks for blocks of the request it was sent, as often as it likes,
  hands out the content of the block, and reports the request as completed with success when each
  of its blocks has been moved.
\<close>

definition asks_for :: "operation \<Rightarrow> request \<Rightarrow> u64 \<Rightarrow> request \<Rightarrow> bool" where
  "asks_for op r k q \<longleftrightarrow>
     req_operation q = op \<and> req_offset r = req_offset q \<and> unat k < unat (req_count q)"

fun served :: "(u32 \<Rightarrow> blocks) \<Rightarrow> exchange list \<Rightarrow> bool" where
  "served B [] \<longleftrightarrow> True"
| "served B (Sent r s # xs) \<longleftrightarrow> served B xs"
| "served B (Handed_out r k d # xs) \<longleftrightarrow>
     served B xs
     \<and> (case last_sent xs of (q, s) \<Rightarrow>
          asks_for READ r k q \<and> d = device_blocks B xs s (req_block_number q + k))"
| "served B (Handed_in r k d # xs) \<longleftrightarrow> served B xs \<and> asks_for WRITE r k (fst (last_sent xs))"
| "served B (Client_completed r # xs) \<longleftrightarrow>
     served B xs \<and> req_success r \<and> set (blocks_of (fst (last_sent xs))) \<subseteq> set (moved_blocks xs)"

lemma moved_of_request:
  "served B xs \<Longrightarrow> set (moved_blocks xs) \<subseteq> {..<unat (req_count (fst (last_sent xs)))}"
  by (induction B xs rule: served.induct) (auto simp: asks_for_def)

section \<open>A library that keeps the log\<close>

text \<open>
  \<open>rec_plain\<close> is the plain-data buffer as the last \<open>execute\<close> has left it; the front end takes the
  blocks that are handed out from there.
\<close>

record 'l recorder =
  rec_lib :: 'l
  rec_plain :: block_buffer
  rec_log :: "exchange list"

definition on_lib :: "('l \<Rightarrow> 'l) \<Rightarrow> 'l recorder \<Rightarrow> 'l recorder" where
  "on_lib f l = l\<lparr>rec_lib := f (rec_lib l)\<rparr>"

definition with_log :: "exchange list \<Rightarrow> 'l recorder \<Rightarrow> 'l recorder" where
  "with_log es l = l\<lparr>rec_log := es @ rec_log l\<rparr>"

definition recorded :: "'l cbe_library \<Rightarrow> 'l recorder cbe_library" where
  "recorded L =
     \<lparr> max_vba = (\<lambda>l. max_vba L (rec_lib l)),
       lib_info = (\<lambda>l. lib_info L (rec_lib l)),
       lib_execute = (\<lambda>l io plain cipher.
         case lib_execute L (rec_lib l) io plain cipher of (l2, io2, plain2, cipher2) \<Rightarrow>
           (l\<lparr>rec_lib := l2, rec_plain := plain2\<rparr>, io2, plain2, cipher2)),
       execute_progress = (\<lambda>l. execute_progress L (rec_lib l)),
       client_request_acceptable = (\<lambda>l. client_request_acceptable L (rec_lib l)),
       submit_client_request = (\<lambda>l r s.
         with_log (if client_op (req_operation r) then [Sent r s] else [])
           (on_lib (\<lambda>x. submit_client_request L x r s) l)),
       peek_completed_client_request = (\<lambda>l. peek_completed_client_request L (rec_lib l)),
       drop_completed_client_request = (\<lambda>l r.
         with_log (if client_op (req_operation r) then [Client_completed r] else [])
           (on_lib (\<lambda>x. drop_completed_client_request L x r) l)),
       io_request_completed = (\<lambda>l i okay. on_lib (\<lambda>x. io_request_completed L x i okay) l),
       lib_has_io_request = (\<lambda>l. lib_has_io_request L (rec_lib l)),
       io_request_in_progress = (\<lambda>l i. on_lib (\<lambda>x. io_request_in_progress L x i) l),
       lib_client_data_ready = (\<lambda>l r.
         case lib_client_data_ready L (rec_lib l) r of (r2, l2) \<Rightarrow> (r2, l\<lparr>rec_lib := l2\<rparr>)),
       client_data_index = (\<lambda>l. client_data_index L (rec_lib l)),
       lib_obtain_client_data = (\<lambda>l r i b.
         case lib_obtain_client_data L (rec_lib l) r i b of ((okay, j), l2) \<Rightarrow>
           ((okay, j),
            with_log
              (case item (rec_plain l) j of
                 Inl e \<Rightarrow> []
               | Inr d \<Rightarrow> if okay then [Handed_out r (client_data_index L (rec_lib l) r) d] else [])
              (l\<lparr>rec_lib := l2\<rparr>))),
       lib_client_data_required = (\<lambda>l r.
         case lib_client_data_required L (rec_lib l) r of (r2, l2) \<Rightarrow> (r2, l\<lparr>rec_lib := l2\<rparr>)),
       lib_supply_client_data = (\<lambda>l r d b.
         case lib_supply_client_data L (rec_lib l) r d b of (okay, l2) \<Rightarrow>
           (okay,
            with_log (if okay then [Handed_in r (client_data_index L (rec_lib l) r) d] else [])
              (l\<lparr>rec_lib := l2\<rparr>))),
       active_snapshot_ids = (\<lambda>l. active_snapshot_ids L (rec_lib l)),
       lib_crypto_add_key_required = (\<lambda>l. lib_crypto_add_key_required L (rec_lib l)),
       crypto_add_key_requested = (\<lambda>l r. on_lib (\<lambda>x. crypto_add_key_requested L x r) l),
       crypto_add_key_completed = (\<lambda>l r. on_lib (\<lambda>x. crypto_add_key_completed L x r) l),
       lib_crypto_remove_key_required = (\<lambda>l. lib_crypto_remove_key_required L (rec_lib l)),
       crypto_remove_key_requested = (\<lambda>l r. on_lib (\<lambda>x. crypto_remove_key_requested L x r) l),
       crypto_remove_key_completed = (\<lambda>l r. on_lib (\<lambda>x. crypto_remove_key_completed L x r) l),
       lib_crypto_cipher_data_required = (\<lambda>l. lib_crypto_cipher_data_required L (rec_lib l)),
       crypto_cipher_data_requested = (\<lambda>l i. on_lib (\<lambda>x. crypto_cipher_data_requested L x i) l),
       supply_crypto_cipher_data = (\<lambda>l i okay. on_lib (\<lambda>x. supply_crypto_cipher_data L x i okay) l),
       lib_crypto_plain_data_required = (\<lambda>l. lib_crypto_plain_data_required L (rec_lib l)),
       crypto_plain_data_requested = (\<lambda>l i. on_lib (\<lambda>x. crypto_plain_data_requested L x i) l),
       supply_crypto_plain_data = (\<lambda>l i okay. on_lib (\<lambda>x. supply_crypto_plain_data L x i okay) l) \<rparr>"

definition recording :: "('l, 'f) world \<Rightarrow> ('l recorder, 'f) world" where
  "recording E =
     \<lparr> world_lib = recorded (world_lib E),
       world_new_lib = \<lparr> rec_lib = world_new_lib E, rec_plain = [], rec_log = [] \<rparr>,
       world_file = world_file E, world_open = world_open E, world_aes = world_aes E,
       world_indeterminate = world_indeterminate E \<rparr>"

lemma recording_sel [simp]:
  "world_lib (recording E) = recorded (world_lib E)" "world_file (recording E) = world_file E"
  "world_open (recording E) = world_open E" "world_aes (recording E) = world_aes E"
  "world_indeterminate (recording E) = world_indeterminate E"
  "rec_lib (world_new_lib (recording E)) = world_new_lib E"
  by (simp_all add: recording_def)

lemma rec_sel [simp]:
  "rec_lib (on_lib f l) = f (rec_lib l)" "rec_log (on_lib f l) = rec_log l" "rec_plain (on_lib f l) = rec_plain l"
  "rec_lib (with_log es l) = rec_lib l" "rec_log (with_log es l) = es @ rec_log l"
  "rec_plain (with_log es l) = rec_plain l"
  by (simp_all add: on_lib_def with_log_def)

text \<open>The recorded library answers and changes its state as the library does.\<close>

lemma recorded_answers [simp]:
  "max_vba (recorded L) l = max_vba L (rec_lib l)"
  "lib_info (recorded L) l i = lib_info L (rec_lib l) i"
  "execute_progress (recorded L) l = execute_progress L (rec_lib l)"
  "client_request_acceptable (recorded L) l = client_request_acceptable L (rec_lib l)"
  "peek_completed_client_request (recorded L) l = peek_completed_client_request L (rec_lib l)"
  "lib_has_io_request (recorded L) l r n = lib_has_io_request L (rec_lib l) r n"
  "client_data_index (recorded L) l r = client_data_index L (rec_lib l) r"
  "active_snapshot_ids (recorded L) l = active_snapshot_ids L (rec_lib l)"
  "lib_crypto_add_key_required (recorded L) l r k = lib_crypto_add_key_required L (rec_lib l) r k"
  "lib_crypto_remove_key_required (recorded L) l r kid = lib_crypto_remove_key_required L (rec_lib l) r kid"
  "lib_crypto_cipher_data_required (recorded L) l r n = lib_crypto_cipher_data_required L (rec_lib l) r n"
  "lib_crypto_plain_data_required (recorded L) l r n = lib_crypto_plain_data_required L (rec_lib l) r n"
  by (simp_all add: recorded_def)

lemma recorded_steps [simp]:
  "io_request_completed (recorded L) l i okay = on_lib (\<lambda>x. io_request_completed L x i okay) l"
  "io_request_in_progress (recorded L) l i = on_lib (\<lambda>x. io_request_in_progress L x i) l"
  "crypto_add_key_requested (recorded L) l r = on_lib (\<lambda>x. crypto_add_key_requested L x r) l"
  "crypto_add_key_completed (recorded L) l r = on_lib (\<lambda>x. crypto_add_key_completed L x r) l"
  "crypto_remove_key_requested (recorded L) l r = on_lib (\<lambda>x. crypto_remove_key_requested L x r) l"
  "crypto_remove_key_completed (recorded L) l r = on_lib (\<lambda>x. crypto_remove_key_completed L x r) l"
  "crypto_cipher_data_requested (recorded L) l i = on_lib (\<lambda>x. crypto_cipher_data_requested L x i) l"
  "supply_crypto_cipher_data (recorded L) l i okay = on_lib (\<lambda>x. supply_crypto_cipher_data L x i okay) l"
  "crypto_plain_data_requested (recorded L) l i = on_lib (\<lambda>x. crypto_plain_data_requested L x i) l"
  "supply_crypto_plain_data (recorded L) l i okay = on_lib (\<lambda>x. supply_crypto_plain_data L x i okay) l"
  by (simp_all add: recorded_def)

lemma recorded_submit:
  "submit_client_request (recorded L) l r s =
     with_log (if client_op (req_operation r) then [Sent r s] else [])
       (on_lib (\<lambda>x. submit_client_request L x r s) l)"
  by (simp add: recorded_def)

lemma recorded_drop:
  "drop_completed_client_request (recorded L) l r =
     with_log (if client_op (req_operation r) then [Client_completed r] else [])
       (on_lib (\<lambda>x. drop_completed_client_request L x r) l)"
  by (simp add: recorded_def)

lemma recorded_execute:
  "lib_execute (recorded L) l io plain cipher =
     (case lib_execute L (rec_lib l) io plain cipher of (l2, io2, plain2, cipher2) \<Rightarrow>
        (l\<lparr>rec_lib := l2, rec_plain := plain2\<rparr>, io2, plain2, cipher2))"
  by (simp add: recorded_def)

lemma recorded_ready:
  "client_data_ready (recorded L) l =
     (case client_data_ready L (rec_lib l) of (r, l2) \<Rightarrow> (r, l\<lparr>rec_lib := l2\<rparr>))"
  "client_data_required (recorded L) l =
     (case client_data_required L (rec_lib l) of (r, l2) \<Rightarrow> (r, l\<lparr>rec_lib := l2\<rparr>))"
  by (simp_all add: recorded_def client_data_ready_def client_data_required_def)

lemma recorded_obtain:
  "obtain_client_data (recorded L) l r i =
     (case obtain_client_data L (rec_lib l) r i of ((okay, j), l2) \<Rightarrow>
        ((okay, j),
         with_log
           (case item (rec_plain l) j of
              Inl e \<Rightarrow> []
            | Inr d \<Rightarrow> if okay then [Handed_out r (client_data_index L (rec_lib l) r) d] else [])
           (l\<lparr>rec_lib := l2\<rparr>)))"
  by (simp add: recorded_def obtain_client_data_def)

lemma recorded_supply:
  "supply_client_data (recorded L) l r d =
     (case supply_client_data L (rec_lib l) r d of (okay, l2) \<Rightarrow>
        (okay,
         with_log (if okay then [Handed_in r (client_data_index L (rec_lib l) r) d] else [])
           (l\<lparr>rec_lib := l2\<rparr>)))"
  by (simp add: recorded_def supply_client_data_def)

lemmas recorded_calls =
  recorded_submit recorded_drop recorded_execute recorded_ready recorded_obtain recorded_supply

lemma recorded_contract:
  assumes "library_contract L n"
  shows "library_contract (recorded L) (\<lambda>l. n (rec_lib l))"
  using assms unfolding library_contract_def
  by (elim conjE, intro conjI allI impI)
    (auto simp: recorded_calls split: prod.splits, (metis fst_conv snd_conv)+)

text \<open>The calls since the log had \<open>N\<close> entries.\<close>

definition log_since :: "nat \<Rightarrow> 'l recorder \<Rightarrow> exchange list" where
  "log_since N l = take (length (rec_log l) - N) (rec_log l)"

lemma log_since_start [simp]: "log_since (length (rec_log l)) l = []"
  by (simp add: log_since_def)

lemma log_since_same: "rec_log l' = rec_log l \<Longrightarrow> log_since N l' = log_since N l"
  by (simp add: log_since_def)

lemma log_since_more:
  "N \<le> length (rec_log l) \<Longrightarrow> rec_log l' = e # rec_log l \<Longrightarrow> log_since N l' = e # log_since N l"
  by (simp add: log_since_def Suc_diff_le)

section \<open>The handlers below the front end\<close>

lemma job_execute_log:
  assumes "job_execute F (recorded L) e = Inr (e', q)"
  shows "rec_log (env_lib e') = rec_log (env_lib e)"
  using assms
  by (auto simp: job_execute_def io_read_def io_write_def io_sync_def Let_def job_done_def
      sync_in_progress_def apply_answer_def split: if_splits io_state.splits prod.splits
      sync_result.splits answer.splits elim!: read_in_progressE write_in_progressE)

lemma handle_cbe_backend_log:
  assumes "handle_cbe_backend (recording E) w = Inr (w', p)"
  shows "rec_log (w_cbe w') = rec_log (w_cbe w)"
  using assms job_execute_log
  by (fastforce simp: handle_cbe_backend_def execute_backend_job_def elim!: bind_exn_InrE
      split: prod.splits option.splits if_splits)

definition log_pass ::
  "(('l recorder, 'f) wrapper \<times> bool \<Rightarrow> (('l recorder, 'f) wrapper \<times> bool, exn) loop_step) \<Rightarrow> bool" where
  "log_pass body \<longleftrightarrow>
     (\<forall>t t'. body t = Continue t' \<or> body t = Break t' \<longrightarrow> rec_log (w_cbe (fst t')) = rec_log (w_cbe (fst t)))"

lemma log_loop:
  assumes "log_pass body" "run_loop body t = Some (Inr t')"
  shows "rec_log (w_cbe (fst t')) = rec_log (w_cbe (fst t))"
proof -
  let ?I = "\<lambda>u. rec_log (w_cbe (fst u)) = rec_log (w_cbe (fst t))"
  let ?Q = "\<lambda>r. case r of Inl (e :: exn) \<Rightarrow> True | Inr u \<Rightarrow> ?I u"
  have step: "?I u'" if "?I u" "body u = Continue u' \<or> body u = Break u'" for u u'
    using that(1) assms(1) [unfolded log_pass_def, rule_format, OF that(2)] by simp
  have "?Q (Inr t')"
  proof (rule run_loop_rule [where I = ?I and Q = ?Q, OF assms(2)])
    show "?I u'" if "?I u" "body u = Continue u'" for u u'
      by (rule step [OF that(1) disjI1 [OF that(2)]])
    show "?Q (Inr u')" if "?I u" "body u = Break u'" for u u'
      using step [OF that(1) disjI2 [OF that(2)]] by simp
  qed simp_all
  then show ?thesis by simp
qed

lemma crypto_passes_log:
  "log_pass (add_key_pass (recording E))" "log_pass (remove_key_pass (recording E))"
  "log_pass (encrypt_pass (recording E))" "log_pass (encrypted_pass (recording E))"
  "log_pass (decrypt_pass (recording E))" "log_pass (decrypted_pass (recording E))"
proof -
  show "log_pass (add_key_pass (recording E))" "log_pass (remove_key_pass (recording E))"
    by (auto simp: log_pass_def add_key_pass_def remove_key_pass_def Let_def
        split: prod.splits sum.splits if_splits)
  show "log_pass (encrypt_pass (recording E))" "log_pass (decrypt_pass (recording E))"
    by (auto simp: log_pass_def encrypt_pass_def decrypt_pass_def Let_def
        split: prod.splits sum.splits if_splits)
  show "log_pass (encrypted_pass (recording E))" "log_pass (decrypted_pass (recording E))"
    by (auto simp: log_pass_def encrypted_pass_def decrypted_pass_def Let_def
        split: prod.splits sum.splits option.splits if_splits)
qed

lemma handle_crypto_log:
  assumes "handle_crypto (recording E) w = Some (Inr (w', p))"
  shows "rec_log (w_cbe w') = rec_log (w_cbe w)"
proof -
  obtain c q s1 s2 s3 s4 s5 where
    s: "run_loop (add_key_pass (recording E)) (w\<lparr>w_crypto := c\<rparr>, q) = Some (Inr s1)"
      "run_loop (remove_key_pass (recording E)) s1 = Some (Inr s2)"
      "run_loop (encrypt_pass (recording E)) s2 = Some (Inr s3)"
      "run_loop (encrypted_pass (recording E)) s3 = Some (Inr s4)"
      "run_loop (decrypt_pass (recording E)) s4 = Some (Inr s5)"
      "run_loop (decrypted_pass (recording E)) s5 = Some (Inr (w', p))"
    using assms by (auto simp: handle_crypto_def elim!: bind_run_InrE)
  note passes = crypto_passes_log [of E]
  from log_loop [OF passes(1) s(1)] log_loop [OF passes(2) s(2)] log_loop [OF passes(3) s(3)]
    log_loop [OF passes(4) s(4)] log_loop [OF passes(5) s(5)] log_loop [OF passes(6) s(6)]
  show ?thesis by simp
qed

end
