(* ===== verification/Device_Access.thy ===== *)
theory Device_Access
  imports Device_View
begin

text \<open>
  An access to the data file, block by block.

  \<^item> \<open>access\<close> are the parameters of an access together with the device, client memory and the log at its
    start; \<open>moved\<close> is the invariant of an access, by the phases of \<open>Wrapper_Phases\<close>: which blocks
    have been moved, and what client memory and the device hold in between.
  \<^item> The lemmas follow the steps of the front-end handler, each of which keeps the invariant.
\<close>

section \<open>An access\<close>

record access =
  acc_op :: operation
  acc_seek :: u64
  acc_buf :: u64
  acc_count :: u64
  acc_snap :: u32
  acc_blocks :: blocks
  acc_memory :: memory
  acc_log :: "exchange list"

definition acc_unaligned :: "access \<Rightarrow> bool" where
  "acc_unaligned A \<longleftrightarrow> unaligned_request (acc_seek A) (acc_count A)"

definition acc_first :: "access \<Rightarrow> u64" where
  "acc_first A = acc_seek A div BLOCK_SIZE"

definition wf_access :: "access \<Rightarrow> bool" where
  "wf_access A \<longleftrightarrow>
     wf_blocks (acc_blocks A) \<and> (acc_op A = READ \<or> acc_op A = WRITE) \<and> unat (acc_count A) < 2 ^ 44"

text \<open>The number of blocks of an aligned access, and the bytes an access covers.\<close>

definition acc_n :: "access \<Rightarrow> nat" where
  "acc_n A = unat (acc_count A) div 4096"

definition access_length :: "u64 \<Rightarrow> u64 \<Rightarrow> u64" where
  "access_length seek count =
     (if unaligned_request seek count then min count (BLOCK_SIZE - seek mod BLOCK_SIZE)
      else count - count mod BLOCK_SIZE)"

definition acc_len :: "access \<Rightarrow> u64" where
  "acc_len A = access_length (acc_seek A) (acc_count A)"

text \<open>What block \<open>j\<close> of the access carries, and the block of an unaligned write.\<close>

definition acc_data :: "access \<Rightarrow> nat \<Rightarrow> block_data" where
  "acc_data A j =
     (if acc_op A = READ then acc_blocks A (acc_first A + of_nat j)
      else mem_read (acc_memory A) (acc_buf A + of_nat j * BLOCK_SIZE) 4096)"

definition acc_merged :: "access \<Rightarrow> block_data" where
  "acc_merged A =
     splice (acc_blocks A (acc_first A)) (acc_seek A mod BLOCK_SIZE)
       (mem_read (acc_memory A) (acc_buf A) (unat (acc_len A)))"

text \<open>Client memory and the device when some blocks have been moved, and at the end.\<close>

definition memory_after :: "access \<Rightarrow> nat set \<Rightarrow> memory" where
  "memory_after A M =
     (if acc_op A = READ then loaded (acc_memory A) (acc_buf A) (acc_data A) M else acc_memory A)"

definition blocks_after :: "access \<Rightarrow> nat set \<Rightarrow> blocks" where
  "blocks_after A M =
     (if acc_op A = WRITE then stored (acc_blocks A) (acc_first A) (acc_data A) M else acc_blocks A)"

definition memory_end :: "access \<Rightarrow> memory" where
  "memory_end A =
     (if acc_op A = READ
      then mem_write (acc_memory A) (acc_buf A) (file_read (acc_blocks A) (unat (acc_seek A)) (unat (acc_len A)))
      else acc_memory A)"

definition blocks_end :: "access \<Rightarrow> blocks" where
  "blocks_end A =
     (if acc_op A = WRITE
      then file_write (acc_blocks A) (unat (acc_seek A)) (mem_read (acc_memory A) (acc_buf A) (unat (acc_len A)))
      else acc_blocks A)"

section \<open>The invariant\<close>

text \<open>
  \<open>B\<close> is what the device held when the log had \<open>N\<close> entries; \<open>dev_view\<close> is what the snapshot of the
  access holds now, by the calls since then.
\<close>

definition dev_view :: "(u32 \<Rightarrow> blocks) \<Rightarrow> nat \<Rightarrow> access \<Rightarrow> ('l recorder, 'f) wrapper \<Rightarrow> blocks" where
  "dev_view B N A w = device_blocks B (log_since N (w_cbe w)) (acc_snap A)"

definition dev_sent :: "nat \<Rightarrow> ('l recorder, 'f) wrapper \<Rightarrow> request" where
  "dev_sent N w = fst (last_sent (log_since N (w_cbe w)))"

definition dev_moved :: "nat \<Rightarrow> ('l recorder, 'f) wrapper \<Rightarrow> nat set" where
  "dev_moved N w = set (moved_blocks (log_since N (w_cbe w)))"

definition untouched :: "(u32 \<Rightarrow> blocks) \<Rightarrow> nat \<Rightarrow> access \<Rightarrow> ('l recorder, 'f) wrapper \<Rightarrow> bool" where
  "untouched B N A w \<longleftrightarrow> w_memory w = acc_memory A \<and> dev_view B N A w = acc_blocks A"

definition acc_taken :: "access \<Rightarrow> ('l, 'f) wrapper \<Rightarrow> bool" where
  "acc_taken A w \<longleftrightarrow>
     (let fr = w_frontend w; r = fr_cbe_request fr in
      req_operation r = acc_op A \<and> req_offset r = acc_buf A \<and> fr_snap_id fr = acc_snap A
      \<and> fr_count fr = acc_len A
      \<and> (if acc_unaligned A then fr_helper_offset fr = acc_seek A mod BLOCK_SIZE
         else req_block_number r = acc_first A \<and> unat (req_count r) = acc_n A))"

definition helper_block :: "access \<Rightarrow> request \<Rightarrow> bool" where
  "helper_block A r \<longleftrightarrow> req_block_number r = acc_first A \<and> req_count r = 1"

definition outstanding_at :: "nat \<Rightarrow> access \<Rightarrow> operation \<Rightarrow> nat \<Rightarrow> ('l recorder, 'f) wrapper \<Rightarrow> bool" where
  "outstanding_at N A op k w \<longleftrightarrow>
     req_operation (dev_sent N w) = op \<and> req_block_number (dev_sent N w) = acc_first A
     \<and> unat (req_count (dev_sent N w)) = k \<and> snd (last_sent (log_since N (w_cbe w))) = acc_snap A"

definition moved :: "(u32 \<Rightarrow> blocks) \<Rightarrow> nat \<Rightarrow> access \<Rightarrow> ('l recorder, 'f) wrapper \<Rightarrow> bool" where
  "moved B N A w \<longleftrightarrow>
     N \<le> length (rec_log (w_cbe w))
     \<and> (let M = dev_moved N w; hr = w_helper_read w; hw = w_helper_write w in
      case phase_of w of
        Idle \<Rightarrow> untouched B N A w
      | Rejected \<Rightarrow> untouched B N A w
      | Waiting \<Rightarrow> untouched B N A w \<and> acc_taken A w \<and> \<not> acc_unaligned A
      | Running \<Rightarrow>
          acc_taken A w \<and> \<not> acc_unaligned A \<and> outstanding_at N A (acc_op A) (acc_n A) w
          \<and> req_offset (dev_sent N w) = acc_buf A
          \<and> w_memory w = memory_after A M \<and> dev_view B N A w = blocks_after A M
      | Block_wanted op \<Rightarrow>
          untouched B N A w \<and> acc_taken A w \<and> acc_unaligned A \<and> helper_block A (h_cbe_request hr)
      | Block_reading op \<Rightarrow>
          untouched B N A w \<and> acc_taken A w \<and> acc_unaligned A \<and> helper_block A (h_cbe_request hr)
          \<and> outstanding_at N A READ 1 w \<and> (0 \<in> M \<longrightarrow> h_block_data hr = acc_blocks A (acc_first A))
      | Block_read op \<Rightarrow>
          untouched B N A w \<and> acc_taken A w \<and> acc_unaligned A \<and> helper_block A (h_cbe_request hr)
          \<and> h_block_data hr = acc_blocks A (acc_first A)
      | Block_merged \<Rightarrow>
          untouched B N A w \<and> acc_taken A w \<and> acc_unaligned A \<and> helper_block A (h_cbe_request hw)
          \<and> acc_op A = WRITE \<and> h_block_data hw = acc_merged A
      | Block_writing \<Rightarrow>
          w_memory w = acc_memory A \<and> acc_taken A w \<and> acc_unaligned A \<and> acc_op A = WRITE
          \<and> h_block_data hw = acc_merged A \<and> outstanding_at N A WRITE 1 w
          \<and> dev_view B N A w =
              (if 0 \<in> M then (acc_blocks A)(acc_first A := acc_merged A) else acc_blocks A)
      | Block_written \<Rightarrow>
          w_memory w = acc_memory A \<and> acc_taken A w \<and> acc_unaligned A \<and> acc_op A = WRITE
          \<and> dev_view B N A w = (acc_blocks A)(acc_first A := acc_merged A)
      | phase.Finished \<Rightarrow>
          fr_count (w_frontend w) = acc_len A \<and> w_memory w = memory_end A
          \<and> dev_view B N A w = blocks_end A
      | Broken \<Rightarrow> False)"

text \<open>What a call adds to the log.\<close>

lemma log_kept:
  assumes "rec_log (w_cbe w') = rec_log (w_cbe w)"
  shows "dev_view B N A w' = dev_view B N A w" "dev_sent N w' = dev_sent N w" "dev_moved N w' = dev_moved N w"
    "untouched B N A w' \<longleftrightarrow> w_memory w' = acc_memory A \<and> dev_view B N A w = acc_blocks A"
    "outstanding_at N A op k w' = outstanding_at N A op k w"
  by (simp_all add: dev_view_def dev_sent_def dev_moved_def untouched_def outstanding_at_def
      log_since_same [OF assms])

lemma log_sent:
  assumes "N \<le> length (rec_log (w_cbe w))" "rec_log (w_cbe w') = Sent r s # rec_log (w_cbe w)"
  shows "dev_view B N A w' = dev_view B N A w" "dev_sent N w' = r" "dev_moved N w' = {}"
    "outstanding_at N A op k w' \<longleftrightarrow>
       req_operation r = op \<and> req_block_number r = acc_first A \<and> unat (req_count r) = k \<and> s = acc_snap A"
  by (simp_all add: dev_view_def dev_sent_def dev_moved_def outstanding_at_def log_since_more [OF assms])

lemma log_completed:
  assumes "N \<le> length (rec_log (w_cbe w))" "rec_log (w_cbe w') = Client_completed r # rec_log (w_cbe w)"
  shows "dev_view B N A w' = dev_view B N A w"
    "served B (log_since N (w_cbe w')) \<longleftrightarrow>
       served B (log_since N (w_cbe w)) \<and> req_success r \<and> set (blocks_of (dev_sent N w)) \<subseteq> dev_moved N w"
  by (simp_all add: dev_view_def dev_sent_def dev_moved_def log_since_more [OF assms])

lemma log_handed_out:
  assumes "N \<le> length (rec_log (w_cbe w))" "rec_log (w_cbe w') = Handed_out r k d # rec_log (w_cbe w)"
    and "snd (last_sent (log_since N (w_cbe w))) = acc_snap A"
  shows "dev_view B N A w' = dev_view B N A w" "dev_sent N w' = dev_sent N w"
    "dev_moved N w' = insert (unat k) (dev_moved N w)"
    "snd (last_sent (log_since N (w_cbe w'))) = acc_snap A"
    "served B (log_since N (w_cbe w')) \<longleftrightarrow> served B (log_since N (w_cbe w))
       \<and> asks_for READ r k (dev_sent N w) \<and> d = dev_view B N A w (req_block_number (dev_sent N w) + k)"
  using assms(3)
  by (auto simp: dev_view_def dev_sent_def dev_moved_def outstanding_at_def log_since_more [OF assms(1,2)]
      split: prod.splits)

lemma log_handed_in:
  assumes "N \<le> length (rec_log (w_cbe w))" "rec_log (w_cbe w') = Handed_in r k d # rec_log (w_cbe w)"
    and "snd (last_sent (log_since N (w_cbe w))) = acc_snap A"
  shows "dev_view B N A w' = (dev_view B N A w)(req_block_number (dev_sent N w) + k := d)"
    "dev_sent N w' = dev_sent N w" "dev_moved N w' = insert (unat k) (dev_moved N w)"
    "snd (last_sent (log_since N (w_cbe w'))) = acc_snap A"
    "served B (log_since N (w_cbe w')) \<longleftrightarrow>
       served B (log_since N (w_cbe w)) \<and> asks_for WRITE r k (dev_sent N w)"
  using assms(3)
  by (auto simp: dev_view_def dev_sent_def dev_moved_def outstanding_at_def log_since_more [OF assms(1,2)]
      split: prod.splits)

lemma served_asks:
  assumes "served B (log_since N (w_cbe w'))" "N \<le> length (rec_log (w_cbe w))"
  shows "rec_log (w_cbe w') = Handed_out r k d # rec_log (w_cbe w) \<Longrightarrow> asks_for READ r k (dev_sent N w)"
    and "rec_log (w_cbe w') = Handed_in r k d # rec_log (w_cbe w) \<Longrightarrow> asks_for WRITE r k (dev_sent N w)"
  using assms(1) by (auto simp: dev_sent_def log_since_more [OF assms(2)] split: prod.splits)

lemma dev_moved_bound:
  "served B (log_since N (w_cbe w)) \<Longrightarrow> dev_moved N w \<subseteq> {..<unat (req_count (dev_sent N w))}"
  unfolding dev_moved_def dev_sent_def by (rule moved_of_request)

lemma moved_frame:
  assumes "moved B N A w" "w_frontend w' = w_frontend w" "w_helper_read w' = w_helper_read w"
    "w_helper_write w' = w_helper_write w" "w_memory w' = w_memory w" "rec_log (w_cbe w') = rec_log (w_cbe w)"
  shows "moved B N A w'"
proof -
  have "phase_of w' = phase_of w" by (rule phase_of_cong) (simp_all add: assms(2-4))
  with assms show ?thesis
    by (simp add: moved_def log_kept [OF assms(6)] acc_taken_def untouched_def Let_def cong: phase.case_cong)
qed

text \<open>The states behind a phase.\<close>

lemma phase_states:
  "phase_of w = Idle \<longleftrightarrow>
     fr_state (w_frontend w) = F_NONE \<and> h_state (w_helper_read w) = H_NONE \<and> h_state (w_helper_write w) = H_NONE"
  "phase_of w = Waiting \<longleftrightarrow>
     fr_state (w_frontend w) = F_PENDING \<and> h_state (w_helper_read w) = H_NONE \<and> h_state (w_helper_write w) = H_NONE"
  "phase_of w = Running \<longleftrightarrow>
     fr_state (w_frontend w) = F_IN_PROGRESS \<and> h_state (w_helper_read w) = H_NONE \<and> h_state (w_helper_write w) = H_NONE"
  "phase_of w = Block_wanted op \<longleftrightarrow>
     fr_state (w_frontend w) = F_IN_PROGRESS \<and> h_state (w_helper_read w) = H_PENDING
     \<and> h_state (w_helper_write w) = H_NONE \<and> op = req_operation (fr_cbe_request (w_frontend w))"
  "phase_of w = Block_reading op \<longleftrightarrow>
     fr_state (w_frontend w) = F_IN_PROGRESS \<and> h_state (w_helper_read w) = H_IN_PROGRESS
     \<and> h_state (w_helper_write w) = H_NONE \<and> op = req_operation (fr_cbe_request (w_frontend w))"
  "phase_of w = Block_read op \<longleftrightarrow>
     fr_state (w_frontend w) = F_IN_PROGRESS \<and> h_state (w_helper_read w) = H_COMPLETE
     \<and> h_state (w_helper_write w) = H_NONE \<and> op = req_operation (fr_cbe_request (w_frontend w))"
  "phase_of w = Block_merged \<longleftrightarrow>
     fr_state (w_frontend w) = F_IN_PROGRESS \<and> h_state (w_helper_read w) = H_NONE \<and> h_state (w_helper_write w) = H_PENDING"
  "phase_of w = Block_writing \<longleftrightarrow>
     fr_state (w_frontend w) = F_IN_PROGRESS \<and> h_state (w_helper_read w) = H_NONE \<and> h_state (w_helper_write w) = H_IN_PROGRESS"
  "phase_of w = Block_written \<longleftrightarrow>
     fr_state (w_frontend w) = F_IN_PROGRESS \<and> h_state (w_helper_read w) = H_NONE \<and> h_state (w_helper_write w) = H_COMPLETE"
  "phase_of w = phase.Finished \<longleftrightarrow>
     fr_state (w_frontend w) = F_COMPLETE \<and> h_state (w_helper_read w) = H_NONE \<and> h_state (w_helper_write w) = H_NONE"
  "phase_of w = Rejected \<longleftrightarrow>
     fr_state (w_frontend w) = F_ERROR_EOF \<and> h_state (w_helper_read w) = H_NONE \<and> h_state (w_helper_write w) = H_NONE"
  by (auto simp: phase_defs split: frontend_state.splits helper_state.splits)

section \<open>The end of an access\<close>

lemma aligned_access:
  assumes "\<not> acc_unaligned A"
  shows "unat (acc_first A) * 4096 = unat (acc_seek A)" "unat (acc_len A) = acc_n A * 4096"
    "acc_n A * 4096 \<le> 2 ^ 64" "unat (acc_first A) + acc_n A \<le> 2 ^ 64"
proof -
  have "acc_seek A mod BLOCK_SIZE = 0" using assms by (simp add: acc_unaligned_def unaligned_request_def)
  then have "unat (acc_seek A) mod 4096 = 0" by (metis unat_0 unat_mod_BLOCK_SIZE)
  then show "unat (acc_first A) * 4096 = unat (acc_seek A)"
    using div_mult_mod_eq [of "unat (acc_seek A)" 4096] by (simp add: acc_first_def unat_div)
  have le: "acc_count A mod BLOCK_SIZE \<le> acc_count A" by (simp add: word_le_nat_alt unat_mod)
  have len: "acc_len A = acc_count A - acc_count A mod BLOCK_SIZE"
    using assms by (simp add: acc_len_def access_length_def acc_unaligned_def)
  have "unat (acc_len A) = unat (acc_count A) - unat (acc_count A) mod 4096"
    by (simp only: len unat_sub [OF le] unat_mod_BLOCK_SIZE)
  then show len: "unat (acc_len A) = acc_n A * 4096"
    by (simp add: acc_n_def minus_mod_eq_div_mult)
  show "acc_n A * 4096 \<le> 2 ^ 64"
    using unat_u64_less [of "acc_len A"] unfolding len by simp
  have "unat (acc_first A) < 2 ^ 63" "acc_n A < 2 ^ 63"
    using unat_u64_less [of "acc_seek A"] unat_u64_less [of "acc_count A"]
    by (simp_all add: acc_first_def acc_n_def unat_div)
  then show "unat (acc_first A) + acc_n A \<le> 2 ^ 64" by simp
qed

lemma aligned_end:
  assumes "wf_access A" "\<not> acc_unaligned A"
  shows "memory_after A {..<acc_n A} = memory_end A" "blocks_after A {..<acc_n A} = blocks_end A"
proof -
  note al = aligned_access [OF assms(2)]
  have wf: "wf_blocks (acc_blocks A)" using assms(1) by (simp add: wf_access_def)
  show "memory_after A {..<acc_n A} = memory_end A"
  proof (cases "acc_op A = READ")
    case True
    then have "acc_data A = (\<lambda>j. acc_blocks A (acc_first A + of_nat j))"
      by (intro ext) (simp add: acc_data_def)
    from loaded_all [OF wf al(3) this] True al(1,2) show ?thesis
      by (simp add: memory_after_def memory_end_def)
  qed (simp add: memory_after_def memory_end_def)
  show "blocks_after A {..<acc_n A} = blocks_end A"
  proof (cases "acc_op A = WRITE")
    case True
    let ?bs = "mem_read (acc_memory A) (acc_buf A) (acc_n A * 4096)"
    have "acc_data A j = take 4096 (drop (j * 4096) ?bs)" if "j < acc_n A" for j
      using True mem_read_block [OF that] by (simp add: acc_data_def)
    from stored_all [OF wf al(4) _ this] True al(1,2) show ?thesis
      by (simp add: blocks_after_def blocks_end_def)
  qed (simp add: blocks_after_def blocks_end_def)
qed

lemma unaligned_access:
  assumes "acc_unaligned A"
  shows "unat (acc_first A) * 4096 + unat (acc_seek A mod BLOCK_SIZE) = unat (acc_seek A)"
    "unat (acc_seek A mod BLOCK_SIZE) + unat (acc_len A) \<le> 4096"
proof -
  show "unat (acc_first A) * 4096 + unat (acc_seek A mod BLOCK_SIZE) = unat (acc_seek A)"
    by (simp add: acc_first_def unat_div unat_mod)
  show "unat (acc_seek A mod BLOCK_SIZE) + unat (acc_len A) \<le> 4096"
    using assms min_fits [of "acc_seek A" "acc_count A"]
    by (simp add: acc_len_def access_length_def acc_unaligned_def)
qed

lemma unaligned_end:
  assumes "wf_access A" "acc_unaligned A"
  shows "acc_op A = READ \<Longrightarrow> mem_write (acc_memory A) (acc_buf A)
      (take (unat (acc_len A)) (drop (unat (acc_seek A mod BLOCK_SIZE)) (acc_blocks A (acc_first A)))) = memory_end A"
    and "acc_op A = WRITE \<Longrightarrow> (acc_blocks A)(acc_first A := acc_merged A) = blocks_end A"
proof -
  note un = unaligned_access [OF assms(2)]
  have wf: "wf_blocks (acc_blocks A)" using assms(1) by (simp add: wf_access_def)
  show "mem_write (acc_memory A) (acc_buf A)
      (take (unat (acc_len A)) (drop (unat (acc_seek A mod BLOCK_SIZE)) (acc_blocks A (acc_first A)))) = memory_end A"
    if "acc_op A = READ"
    using file_read_block [OF wf un(2), of "acc_first A"] un(1) that by (simp add: memory_end_def)
  show "(acc_blocks A)(acc_first A := acc_merged A) = blocks_end A" if "acc_op A = WRITE"
    using file_write_block [OF wf, of "unat (acc_seek A mod BLOCK_SIZE)"
        "mem_read (acc_memory A) (acc_buf A) (unat (acc_len A))" "acc_first A"] un that
    by (simp add: acc_merged_def splice_def blocks_end_def)
qed

section \<open>The steps of the front-end handler\<close>

lemma moved_log: "moved B N A w \<Longrightarrow> N \<le> length (rec_log (w_cbe w))"
  by (simp add: moved_def)

lemma submit_helper_requests_moved:
  assumes "frontend_inv n w" "moved B N A w"
  shows "moved B N A (submit_helper_requests (recording E) w)"
proof -
  let ?L = "recorded (world_lib E)" and ?w = "submit_helper_requests (recording E) w"
  consider (get) op where "phase_of w = Block_wanted op" "client_request_acceptable ?L (w_cbe w)"
    | (put) "phase_of w = Block_merged" "client_request_acceptable ?L (w_cbe w)"
    | (none) "?w = w"
  proof -
    have "?w = w"
      if "\<not> client_request_acceptable ?L (w_cbe w)
        \<or> h_state (w_helper_read w) \<noteq> H_PENDING \<and> h_state (w_helper_write w) \<noteq> H_PENDING"
      using that by (auto simp: submit_helper_requests_def Let_def)
    with that assms(2) show ?thesis by (cases "phase_of w") (auto simp: phase_states moved_def)
  qed
  then show ?thesis
  proof cases
    case get
    note st = get(1) [unfolded phase_states]
    let ?r = "h_cbe_request (w_helper_read w)"
    have w': "?w = w\<lparr>w_cbe := submit_client_request ?L (w_cbe w) ?r (acc_snap A),
          w_helper_read := (w_helper_read w)\<lparr>h_state := H_IN_PROGRESS\<rparr>\<rparr>"
      using st get(2) assms(2) get(1)
      by (simp add: submit_helper_requests_def Let_def moved_def acc_taken_def)
    have phase: "phase_of ?w = Block_reading op"
      using st by (simp add: w' phase_states)
    have op: "req_operation ?r = READ" using assms(1) st by (simp add: inv_defs)
    then have log: "rec_log (w_cbe ?w) = Sent ?r (acc_snap A) # rec_log (w_cbe w)"
      by (simp add: w' recorded_submit client_op_def)
    show ?thesis
      using assms(2) get(1) op log log_sent [OF moved_log [OF assms(2)] log]
      unfolding moved_def phase
      by (simp add: untouched_def acc_taken_def helper_block_def Let_def) (simp add: w')
  next
    case put
    note st = put(1) [unfolded phase_states]
    let ?r = "h_cbe_request (w_helper_write w)"
    have w': "?w = w\<lparr>w_cbe := submit_client_request ?L (w_cbe w) ?r (acc_snap A),
          w_helper_write := (w_helper_write w)\<lparr>h_state := H_IN_PROGRESS\<rparr>\<rparr>"
      using st put(2) assms(2) put(1)
      by (simp add: submit_helper_requests_def Let_def moved_def acc_taken_def)
    have phase: "phase_of ?w = Block_writing"
      using st by (simp add: w' phase_states)
    have op: "req_operation ?r = WRITE" using assms(1) st by (simp add: inv_defs)
    then have log: "rec_log (w_cbe ?w) = Sent ?r (acc_snap A) # rec_log (w_cbe w)"
      by (simp add: w' recorded_submit client_op_def)
    show ?thesis
      using assms(2) put(1) op log log_sent [OF moved_log [OF assms(2)] log]
      unfolding moved_def phase
      by (simp add: untouched_def acc_taken_def helper_block_def Let_def) (simp add: w')
  next
    case none
    with assms(2) show ?thesis by simp
  qed
qed

lemma submit_pending_request_moved:
  assumes "moved B N A w" "wf_access A" "submit_pending_request (recording E) w = (w', rejected)"
  shows "moved B N A w'"
proof (cases "phase_of w = Waiting")
  case False
  then have "fr_state (w_frontend w) \<noteq> F_PENDING"
    using assms(1) by (cases "phase_of w") (auto simp: phase_states moved_def)
  with assms(1,3) show ?thesis by (simp add: submit_pending_request_def Let_def)
next
  case True
  let ?L = "recorded (world_lib E)" and ?r = "fr_cbe_request (w_frontend w)"
  note st = True [unfolded phase_states]
  have m: "untouched B N A w" "acc_taken A w" "\<not> acc_unaligned A"
    using assms(1) True by (simp_all add: moved_def Let_def)
  consider (out) "request_out_of_range (max_vba ?L (w_cbe w)) ?r"
    | (sent) "\<not> request_out_of_range (max_vba ?L (w_cbe w)) ?r" "client_request_acceptable ?L (w_cbe w)"
    | (wait) "\<not> request_out_of_range (max_vba ?L (w_cbe w)) ?r" "\<not> client_request_acceptable ?L (w_cbe w)"
    by blast
  then show ?thesis
  proof cases
    case out
    then have w': "w' = w\<lparr>w_frontend := (w_frontend w)\<lparr>fr_state := F_ERROR_EOF\<rparr>\<rparr>"
      using assms(3) st by (simp add: submit_pending_request_def Let_def)
    have "phase_of w' = Rejected" using st by (simp add: w' phase_states)
    with m(1) moved_log [OF assms(1)] show ?thesis by (simp add: moved_def w' untouched_def dev_view_def)
  next
    case sent
    then have w': "w' = w\<lparr>w_cbe := submit_client_request ?L (w_cbe w) ?r (acc_snap A),
        w_frontend := (w_frontend w)\<lparr>fr_state := F_IN_PROGRESS\<rparr>\<rparr>"
      using assms(3) st m(2) by (simp add: submit_pending_request_def Let_def acc_taken_def)
    have phase: "phase_of w' = Running" using st by (simp add: w' phase_states)
    have "client_op (req_operation ?r)"
      using m(2) assms(2) by (auto simp: acc_taken_def wf_access_def client_op_def Let_def)
    then have log: "rec_log (w_cbe w') = Sent ?r (acc_snap A) # rec_log (w_cbe w)"
      by (simp add: w' recorded_submit)
    show ?thesis
      using m assms(2) [unfolded wf_access_def] moved_log [OF assms(1)] log log_sent [OF moved_log [OF assms(1)] log]
      by (simp add: moved_def phase untouched_def acc_taken_def Let_def memory_after_def blocks_after_def)
        (simp add: w')
  next
    case wait
    with assms(1,3) show ?thesis by (simp add: submit_pending_request_def Let_def split: if_splits)
  qed
qed

text \<open>
  The library fills the plain-data buffer in its \<open>execute\<close>; the front end sees the same buffer
  until it takes the block that is handed out.
\<close>

definition plain_seen :: "('l recorder, 'f) wrapper \<Rightarrow> bool" where
  "plain_seen w \<longleftrightarrow> rec_plain (w_cbe w) = w_plain_data w"

lemma execute_library_moved:
  "moved B N A w \<Longrightarrow> moved B N A (execute_library (recording E) w)"
  by (erule moved_frame) (auto simp: execute_library_def recorded_execute split: prod.splits)

lemma execute_library_seen: "plain_seen (execute_library (recording E) w)"
  by (auto simp: plain_seen_def execute_library_def recorded_execute split: prod.splits)

lemma plain_seen_kept:
  assumes "plain_seen w"
  shows "complete_request (recording E) (w, p) = Continue (w', p') \<or>
      complete_request (recording E) (w, p) = Break (w', p') \<Longrightarrow> plain_seen w'"
    and "finish_helper_read w p = (w', p') \<Longrightarrow> plain_seen w'"
    and "finish_helper_write w p = (w', p') \<Longrightarrow> plain_seen w'"
  using assms
  by (auto simp: plain_seen_def complete_request_def recorded_drop finish_helper_read_def
      finish_helper_write_def Let_def split: if_splits)

text \<open>The end of an access is the end of its last request.\<close>

lemma client_completion:
  assumes "library_contract (recorded (world_lib E)) n" "frontend_inv n w" "moved B N A w"
    and "r = peek_completed_client_request (recorded (world_lib E)) (w_cbe w)" "client_op (req_operation r)"
    and "w' = w\<lparr>w_cbe := drop_completed_client_request (recorded (world_lib E)) (w_cbe w) r\<rparr>"
    and "wf_access A" "served B (log_since N (w_cbe w'))"
  shows "(if h_state (w_helper_read w') = H_IN_PROGRESS
      then moved B N A (w'\<lparr>w_helper_read := (w_helper_read w')
         \<lparr>h_state := H_COMPLETE, h_cbe_request := set_success (h_cbe_request (w_helper_read w')) b\<rparr>\<rparr>)
      else if h_state (w_helper_write w') = H_IN_PROGRESS
      then moved B N A (w'\<lparr>w_helper_write := (w_helper_write w')
         \<lparr>h_state := H_COMPLETE, h_cbe_request := set_success (h_cbe_request (w_helper_write w')) b\<rparr>\<rparr>)
      else moved B N A (w'\<lparr>w_frontend := (w_frontend w')
         \<lparr>fr_state := F_COMPLETE, fr_cbe_request := set_success (fr_cbe_request (w_frontend w')) b\<rparr>\<rparr>))
    \<and> req_success r"
proof -
  have busy: "0 < n (w_cbe w)" using contract_peek [OF assms(1)] assms(4,5) by simp
  have log: "rec_log (w_cbe w') = Client_completed r # rec_log (w_cbe w)"
    using assms(5) by (simp add: assms(6) recorded_drop)
  note len = moved_log [OF assms(3)]
  note compl = log_completed [OF len log]
  have s: "served B (log_since N (w_cbe w))" "req_success r" "set (blocks_of (dev_sent N w)) \<subseteq> dev_moved N w"
    using assms(8) compl(2) by simp_all
  have all: "dev_moved N w = {..<unat (req_count (dev_sent N w))}"
    if "req_operation (dev_sent N w) = READ \<or> req_operation (dev_sent N w) = WRITE"
    using s(3) dev_moved_bound [OF s(1)] that by (auto simp: blocks_of_def)
  have view: "dev_view B N A v = dev_view B N A w" if "rec_log (w_cbe v) = rec_log (w_cbe w')" for v
    using log_kept(1) [OF that] compl(1) by simp
  note st = frontend_inv_busy(1,3) [OF assms(2) busy]
  consider "phase_of w = Block_reading (req_operation (fr_cbe_request (w_frontend w)))"
    | "phase_of w = Block_writing" | "phase_of w = Running"
    using st by (auto simp: phase_states)
  then show ?thesis
  proof cases
    case 1
    let ?w = "w'\<lparr>w_helper_read := (w_helper_read w')
         \<lparr>h_state := H_COMPLETE, h_cbe_request := set_success (h_cbe_request (w_helper_read w')) b\<rparr>\<rparr>"
    have st: "h_state (w_helper_read w') = H_IN_PROGRESS"
      "phase_of ?w = Block_read (req_operation (fr_cbe_request (w_frontend w)))"
      using 1 by (simp_all add: phase_states assms(6))
    note m = assms(3) [unfolded moved_def 1 phase.case Let_def]
    have "0 \<in> dev_moved N w" using m all by (simp add: outstanding_at_def)
    with m len log view [of ?w] have "moved B N A ?w"
      unfolding moved_def st(2)
      by (simp add: untouched_def acc_taken_def helper_block_def set_success_def Let_def) (simp add: assms(6))
    with st(1) s(2) show ?thesis by simp
  next
    case 2
    let ?w = "w'\<lparr>w_helper_write := (w_helper_write w')
         \<lparr>h_state := H_COMPLETE, h_cbe_request := set_success (h_cbe_request (w_helper_write w')) b\<rparr>\<rparr>"
    have st: "h_state (w_helper_read w') = H_NONE" "h_state (w_helper_write w') = H_IN_PROGRESS"
      "phase_of ?w = Block_written"
      using 2 by (simp_all add: phase_states assms(6))
    note m = assms(3) [unfolded moved_def 2 phase.case Let_def]
    have "0 \<in> dev_moved N w" using m all by (simp add: outstanding_at_def)
    with m len log view [of ?w] have "moved B N A ?w"
      unfolding moved_def st(3) by (simp add: acc_taken_def Let_def) (simp add: assms(6))
    with st(1,2) s(2) show ?thesis by simp
  next
    case 3
    let ?w = "w'\<lparr>w_frontend := (w_frontend w')
         \<lparr>fr_state := F_COMPLETE, fr_cbe_request := set_success (fr_cbe_request (w_frontend w')) b\<rparr>\<rparr>"
    have st: "h_state (w_helper_read w') = H_NONE" "h_state (w_helper_write w') = H_NONE"
      "phase_of ?w = phase.Finished"
      using 3 by (simp_all add: phase_states assms(6))
    note m = assms(3) [unfolded moved_def 3 phase.case Let_def]
    have "dev_moved N w = {..<acc_n A}"
      using m all assms(7) by (simp add: outstanding_at_def wf_access_def)
    with m len log view [of ?w] aligned_end [OF assms(7)] have "moved B N A ?w"
      unfolding moved_def st(3) by (simp add: acc_taken_def Let_def) (simp add: assms(6))
    with st(1,2) s(2) show ?thesis by simp
  qed
qed

lemma complete_request_moved:
  assumes "library_contract (recorded (world_lib E)) n" "frontend_inv n w" "moved B N A w" "wf_access A"
    and "complete_request (recording E) (w, p) = Continue (w', p') \<or>
      complete_request (recording E) (w, p) = Break (w', p')"
    and "served B (log_since N (w_cbe w'))"
  shows "moved B N A w'"
proof -
  define r where "r = peek_completed_client_request (recorded (world_lib E)) (w_cbe w)"
  define w1 where "w1 = w\<lparr>w_cbe := drop_completed_client_request (recorded (world_lib E)) (w_cbe w) r\<rparr>"
  have peek: "peek_completed_client_request (world_lib E) (rec_lib (w_cbe w)) = r" by (simp add: r_def)
  show ?thesis
  proof (cases "client_op (req_operation r)")
    case True
    have "w_cbe w' = w_cbe w1"
      using assms(5) True
      by (auto simp: complete_request_def Let_def peek w1_def client_op_def valid_def split: if_splits)
    then have "served B (log_since N (w_cbe w1))" using assms(6) by simp
    from client_completion [OF assms(1-3) r_def True w1_def assms(4) this, of True] assms(5) True show ?thesis
      by (auto simp: complete_request_def Let_def peek w1_def [symmetric] client_op_def valid_def
          split: if_splits)
  next
    case False
    have log: "rec_log (w_cbe w1) = rec_log (w_cbe w)" using False by (simp add: w1_def recorded_drop)
    show ?thesis
      using assms(5) False log [unfolded w1_def]
      by (intro moved_frame [OF assms(3)])
        (auto simp: complete_request_def Let_def peek client_op_def valid_def split: if_splits)
  qed
qed

lemma finish_helpers_moved:
  assumes "moved B N A w" "wf_access A"
  shows "finish_helper_read w p = (w', p') \<Longrightarrow> moved B N A w'"
    and "finish_helper_write w p = (w', p') \<Longrightarrow> moved B N A w'"
proof -
  show "moved B N A w'" if "finish_helper_write w p = (w', p')"
  proof (cases "phase_of w = Block_written")
    case True
    have phase: "phase_of w' = phase.Finished" using True that by (auto simp: finish_helper_write_def phase_states)
    have log: "rec_log (w_cbe w') = rec_log (w_cbe w)" using that by (auto simp: finish_helper_write_def split: if_splits)
    with assms(1) True that unaligned_end [OF assms(2)] log_kept(1) [OF log] phase show ?thesis
      by (auto simp: moved_def phase_states(9) finish_helper_write_def acc_taken_def memory_end_def Let_def
          simp del: fun_upd_apply)
  next
    case False
    then have "h_state (w_helper_write w) \<noteq> H_COMPLETE"
      using assms(1) by (cases "phase_of w") (auto simp: phase_states moved_def)
    with assms(1) that show ?thesis by (simp add: finish_helper_write_def)
  qed
  show "moved B N A w'" if "finish_helper_read w p = (w', p')"
  proof (cases "h_state (w_helper_read w) = H_COMPLETE")
    case False
    with assms(1) that show ?thesis by (simp add: finish_helper_read_def Let_def)
  next
    case True
    then have ph: "phase_of w = Block_read (acc_op A)"
      using assms(1) by (cases "phase_of w") (auto simp: phase_states moved_def acc_taken_def Let_def)
    note m = assms(1) [unfolded moved_def ph phase.case Let_def]
    have log: "rec_log (w_cbe w') = rec_log (w_cbe w)"
      using that by (auto simp: finish_helper_read_def Let_def split: if_splits)
    consider "acc_op A = READ" | "acc_op A = WRITE" using assms(2) by (auto simp: wf_access_def)
    then show ?thesis
    proof cases
      case 1
      have "phase_of w' = phase.Finished"
        using 1 ph that by (auto simp: finish_helper_read_def phase_states Let_def)
      with m that unaligned_end(1) [OF assms(2)] 1 True log_kept(1) [OF log, of B N A] show ?thesis
        by (auto simp: moved_def finish_helper_read_def acc_taken_def untouched_def blocks_end_def Let_def)
    next
      case 2
      have "phase_of w' = Block_merged"
        using 2 ph that by (auto simp: finish_helper_read_def phase_states Let_def)
      with m that 2 True log_kept(1) [OF log, of B N A] show ?thesis
        by (auto simp: moved_def finish_helper_read_def acc_taken_def untouched_def helper_block_def
            acc_merged_def Let_def)
    qed
  qed
qed

text \<open>One block of an aligned access; it does not matter whether it has been moved before.\<close>

lemma aligned_block:
  assumes "wf_access A" "\<not> acc_unaligned A" "k < acc_n A"
  shows "acc_op A = READ \<Longrightarrow> mem_write (memory_after A M) (acc_buf A + of_nat k * BLOCK_SIZE)
      (acc_blocks A (acc_first A + of_nat k)) = memory_after A (insert k M)"
    and "acc_op A = WRITE \<Longrightarrow> (blocks_after A M)(acc_first A + of_nat k :=
      mem_read (acc_memory A) (acc_buf A + of_nat k * BLOCK_SIZE) 4096) = blocks_after A (insert k M)"
proof -
  have "Suc k * 4096 \<le> acc_n A * 4096" using assms(3) by (intro mult_le_mono1) simp
  with aligned_access(3) [OF assms(2)] have fit: "k * 4096 + 4096 \<le> 2 ^ 64" by simp
  show "mem_write (memory_after A M) (acc_buf A + of_nat k * BLOCK_SIZE)
      (acc_blocks A (acc_first A + of_nat k)) = memory_after A (insert k M)" if "acc_op A = READ"
    using loaded_insert [OF fit, of "acc_data A"] assms(1) that
    by (simp add: memory_after_def acc_data_def wf_access_def length_block)
  show "(blocks_after A M)(acc_first A + of_nat k :=
      mem_read (acc_memory A) (acc_buf A + of_nat k * BLOCK_SIZE) 4096) = blocks_after A (insert k M)"
    if "acc_op A = WRITE"
    using stored_insert [of k "acc_blocks A" "acc_first A" "acc_data A"] fit that
    by (simp add: blocks_after_def acc_data_def)
qed

text \<open>Who the data is for.\<close>

lemma data_phase:
  assumes "frontend_inv n w" "moved B N A w" "0 < n (w_cbe w)" "req_operation (dev_sent N w) = op"
  shows "op = READ \<Longrightarrow> phase_of w = Block_reading (acc_op A) \<or> phase_of w = Running \<and> acc_op A = READ"
    and "op = WRITE \<Longrightarrow> phase_of w = Block_writing \<or> phase_of w = Running \<and> acc_op A = WRITE"
    and "snd (last_sent (log_since N (w_cbe w))) = acc_snap A"
proof -
  note st = frontend_inv_busy(1,3) [OF assms(1,3)]
  consider "phase_of w = Block_reading (req_operation (fr_cbe_request (w_frontend w)))"
    | "phase_of w = Block_writing" | "phase_of w = Running"
    using st by (auto simp: phase_states)
  then have "(phase_of w = Block_reading (acc_op A) \<and> op = READ \<or> phase_of w = Block_writing \<and> op = WRITE
      \<or> phase_of w = Running \<and> op = acc_op A) \<and> snd (last_sent (log_since N (w_cbe w))) = acc_snap A"
    using assms(2,4) by cases (auto simp: moved_def outstanding_at_def acc_taken_def Let_def)
  then show "op = READ \<Longrightarrow> phase_of w = Block_reading (acc_op A) \<or> phase_of w = Running \<and> acc_op A = READ"
    "op = WRITE \<Longrightarrow> phase_of w = Block_writing \<or> phase_of w = Running \<and> acc_op A = WRITE"
    "snd (last_sent (log_since N (w_cbe w))) = acc_snap A" by auto
qed


lemma deliver_read_data_moved:
  assumes "library_contract (recorded (world_lib E)) n" "frontend_inv n w" "plain_seen w" "moved B N A w"
    and "wf_access A" "deliver_read_data (recording E) w p = Inr (w', p', q)"
    and "served B (log_since N (w_cbe w'))"
  shows "moved B N A w'"
proof -
  let ?L = "recorded (world_lib E)"
  obtain r l where ready: "client_data_ready ?L (w_cbe w) = (r, l)" by fastforce
  then have l: "rec_log l = rec_log (w_cbe w)" "rec_plain l = rec_plain (w_cbe w)"
    by (auto simp: recorded_ready split: prod.splits)
  show ?thesis
  proof (cases "req_operation r = READ")
    case False
    then have w': "w' = w\<lparr>w_cbe := l\<rparr>" using assms(6) ready by (auto simp: deliver_read_data_def Let_def)
    show ?thesis by (rule moved_frame [OF assms(4)]) (simp_all add: w' l)
  next
    case True
    note c = contract_ready [OF assms(1) ready, THEN conjunct2, THEN mp, OF True]
    define k where "k = unat (client_data_index ?L l r)"
    have idx: "client_data_index ?L l r = of_nat k" by (simp add: k_def)
    obtain okay i l2 where ob: "obtain_client_data ?L l r (- 1) = ((okay, i), l2)" by (metis surj_pair)
    show ?thesis
    proof (cases okay)
      case False
      then have "rec_log l2 = rec_log (w_cbe w)" using ob l by (auto simp: recorded_obtain split: prod.splits sum.splits)
      moreover have "w' = w\<lparr>w_cbe := l2\<rparr>"
        using assms(6) ready True c ob False by (auto simp: deliver_read_data_def Let_def valid_def split: if_splits)
      ultimately show ?thesis by (intro moved_frame [OF assms(4)]) simp_all
    next
      case okay: True
      obtain d where item: "item (w_plain_data w) i = Inr d"
        using assms(6) ready True c ob okay
        by (cases "item (w_plain_data w) i")
          (auto simp: deliver_read_data_def Let_def valid_def split: if_splits)
      then have "item (rec_plain l) i = Inr d" using assms(3) l by (simp add: plain_seen_def)
      then have log2: "rec_log l2 = Handed_out r (of_nat k) d # rec_log (w_cbe w)"
        using ob l okay idx by (auto simp: recorded_obtain split: prod.splits)
      have w': "w' = (if h_state (w_helper_read w) = H_IN_PROGRESS
          then w\<lparr>w_cbe := l2, w_helper_read := (w_helper_read w)\<lparr>h_block_data := d\<rparr>\<rparr>
          else w\<lparr>w_cbe := l2, w_memory := mem_write (w_memory w) (req_offset r + of_nat k * BLOCK_SIZE) d\<rparr>)"
        using assms(6) ready True c ob okay item idx
        by (auto simp: deliver_read_data_def Let_def valid_def split: if_splits)
      then have log: "rec_log (w_cbe w') = Handed_out r (of_nat k) d # rec_log (w_cbe w)" using log2 by simp
      note len = moved_log [OF assms(4)]
      note asks = served_asks(1) [OF assms(7) len log, unfolded asks_for_def]
      note out = log_handed_out [OF len log]
      consider "phase_of w = Block_reading (acc_op A)" | "phase_of w = Running" "acc_op A = READ"
        using data_phase(1) [OF assms(2,4) _ refl] c asks by auto
      moreover have snap: "snd (last_sent (log_since N (w_cbe w))) = acc_snap A"
        using data_phase(3) [OF assms(2,4) _ refl] c by simp
      moreover have d: "d = dev_view B N A w (req_block_number (dev_sent N w) + of_nat k)"
        using out(5) [OF snap] assms(7) by simp
      ultimately show ?thesis
      proof cases
        case 1
        note m = assms(4) [unfolded moved_def 1 phase.case Let_def]
        have ph: "phase_of w' = Block_reading (acc_op A)" using 1 by (auto simp: w' phase_states)
        have "h_state (w_helper_read w) = H_IN_PROGRESS" "k = 0"
          using 1 m asks by (auto simp: phase_states k_def outstanding_at_def)
        with m d log out [OF snap] show ?thesis
          unfolding moved_def ph
          by (simp add: untouched_def acc_taken_def outstanding_at_def Let_def) (simp add: w')
      next
        case 2
        note m = assms(4) [unfolded moved_def 2(1) phase.case Let_def]
        have ph: "phase_of w' = Running" using 2 by (auto simp: w' phase_states)
        have k: "k < acc_n A" "\<not> acc_unaligned A" using asks m by (auto simp: k_def outstanding_at_def)
        have mem: "w_memory w' = mem_write (w_memory w) (req_offset r + of_nat k * BLOCK_SIZE) d"
          using 2(1) by (simp add: w' phase_states)
        have "d = acc_blocks A (acc_first A + of_nat k)"
          using d m 2(2) by (simp add: blocks_after_def outstanding_at_def)
        with m 2(2) asks mem aligned_block(1) [OF assms(5) k(2,1) 2(2)]
        have "w_memory w' = memory_after A (insert k (dev_moved N w))" by simp
        with m 2(2) log out [OF snap] show ?thesis
          unfolding moved_def ph
          by (simp add: acc_taken_def blocks_after_def outstanding_at_def k_def Let_def) (simp add: w')
      qed
    qed
  qed
qed

lemma take_write_data_moved:
  assumes "library_contract (recorded (world_lib E)) n" "frontend_inv n w" "moved B N A w" "wf_access A"
    and "take_write_data (recording E) w p = Inr (w', p')" "served B (log_since N (w_cbe w'))"
  shows "moved B N A w'"
proof -
  let ?L = "recorded (world_lib E)"
  obtain r l where ready: "client_data_required ?L (w_cbe w) = (r, l)" by fastforce
  then have l: "rec_log l = rec_log (w_cbe w)" by (auto simp: recorded_ready split: prod.splits)
  show ?thesis
  proof (cases "req_operation r = WRITE")
    case False
    then have w': "w' = w\<lparr>w_cbe := l\<rparr>" using assms(5) ready by (auto simp: take_write_data_def Let_def)
    show ?thesis by (rule moved_frame [OF assms(3)]) (simp_all add: w' l)
  next
    case True
    note c = contract_required [OF assms(1) ready, THEN conjunct2, THEN mp, OF True]
    define k where "k = unat (client_data_index ?L l r)"
    have idx: "client_data_index ?L l r = of_nat k" by (simp add: k_def)
    define b where "b = (if h_state (w_helper_write w) = H_IN_PROGRESS then h_block_data (w_helper_write w)
      else mem_read (w_memory w) (req_offset r + of_nat k * BLOCK_SIZE) 4096)"
    obtain okay l2 where ob: "supply_client_data ?L l r b = (okay, l2)" by fastforce
    have w': "w' = w\<lparr>w_cbe := l2\<rparr>"
      using assms(5) ready True c ob idx
      by (auto simp: take_write_data_def Let_def valid_def b_def split: if_splits)
    show ?thesis
    proof (cases okay)
      case False
      with ob l have "rec_log l2 = rec_log (w_cbe w)" by (auto simp: recorded_supply split: prod.splits)
      then show ?thesis by (intro moved_frame [OF assms(3)]) (simp_all add: w')
    next
      case okay: True
      with ob l idx have log: "rec_log (w_cbe w') = Handed_in r (of_nat k) b # rec_log (w_cbe w)"
        by (auto simp: w' recorded_supply split: prod.splits)
      note len = moved_log [OF assms(3)]
      note asks = served_asks(2) [OF assms(6) len log, unfolded asks_for_def]
      note taken = log_handed_in [OF len log]
      have snap: "snd (last_sent (log_since N (w_cbe w))) = acc_snap A"
        using data_phase(3) [OF assms(2,3) _ refl] c by simp
      consider "phase_of w = Block_writing" | "phase_of w = Running" "acc_op A = WRITE"
        using data_phase(2) [OF assms(2,3) _ refl] c asks by auto
      then show ?thesis
      proof cases
        case 1
        note m = assms(3) [unfolded moved_def 1 phase.case Let_def]
        have ph: "phase_of w' = Block_writing" and "b = acc_merged A" "k = 0"
          using 1 m asks by (auto simp: w' phase_states b_def k_def outstanding_at_def)
        with m log taken [OF snap] show ?thesis
          unfolding moved_def ph
          by (simp add: acc_taken_def outstanding_at_def Let_def) (auto simp: w')
      next
        case 2
        note m = assms(3) [unfolded moved_def 2(1) phase.case Let_def]
        have ph: "phase_of w' = Running" using 2 by (auto simp: w' phase_states)
        have k: "k < acc_n A" "\<not> acc_unaligned A" using asks m by (auto simp: k_def outstanding_at_def)
        have "b = mem_read (acc_memory A) (acc_buf A + of_nat k * BLOCK_SIZE) 4096"
          using m 2 asks by (simp add: b_def phase_states memory_after_def)
        with m 2(2) taken(1) [OF snap] aligned_block(2) [OF assms(4) k(2,1) 2(2), of "dev_moved N w"]
        have "dev_view B N A w' = blocks_after A (insert k (dev_moved N w))"
          by (simp add: outstanding_at_def)
        with m 2(2) log taken [OF snap] show ?thesis
          unfolding moved_def ph
          by (simp add: acc_taken_def memory_after_def outstanding_at_def k_def Let_def) (simp add: w')
      qed
    qed
  qed
qed

end
