(* ===== verification/Recorded_Runs.thy ===== *)
theory Recorded_Runs
  imports Device_View
begin

text \<open>
  Recording the calls of the library changes nothing else: the plugin on the recorded library does
  what it does on the library itself, state for state. \<open>bare\<close> forgets the record; every operation
  commutes with it, so a run of the plugin and its recorded run have the same results, the same
  exceptions, and end together.
\<close>

section \<open>Forgetting the record\<close>

definition bare :: "('l recorder, 'f) wrapper \<Rightarrow> ('l, 'f) wrapper" where
  "bare w =
     \<lparr> w_cbe_constructed = w_cbe_constructed w, w_cbe = rec_lib (w_cbe w), w_backend = w_backend w,
       w_backend_job = w_backend_job w, w_io_data = w_io_data w, w_cipher_data = w_cipher_data w,
       w_plain_data = w_plain_data w, w_crypto = w_crypto w, w_rekey_obj = w_rekey_obj w,
       w_extend_obj = w_extend_obj w, w_verbose = w_verbose w, w_debug = w_debug w,
       w_block_device = w_block_device w, w_helper_read = w_helper_read w, w_helper_write = w_helper_write w,
       w_helper_read_addr = w_helper_read_addr w, w_helper_write_addr = w_helper_write_addr w,
       w_frontend = w_frontend w, w_create_snapshot = w_create_snapshot w,
       w_discard_snapshot = w_discard_snapshot w, w_enqueued = w_enqueued w,
       w_io_progress_pending = w_io_progress_pending w, w_responses = w_responses w, w_memory = w_memory w \<rparr>"

lemma bare_sel [simp]:
  "w_cbe_constructed (bare w) = w_cbe_constructed w" "w_cbe (bare w) = rec_lib (w_cbe w)"
  "w_backend (bare w) = w_backend w" "w_backend_job (bare w) = w_backend_job w"
  "w_io_data (bare w) = w_io_data w" "w_cipher_data (bare w) = w_cipher_data w"
  "w_plain_data (bare w) = w_plain_data w" "w_crypto (bare w) = w_crypto w"
  "w_rekey_obj (bare w) = w_rekey_obj w" "w_extend_obj (bare w) = w_extend_obj w"
  "w_debug (bare w) = w_debug w" "w_block_device (bare w) = w_block_device w"
  "w_helper_read (bare w) = w_helper_read w" "w_helper_write (bare w) = w_helper_write w"
  "w_helper_read_addr (bare w) = w_helper_read_addr w" "w_helper_write_addr (bare w) = w_helper_write_addr w"
  "w_frontend (bare w) = w_frontend w" "w_create_snapshot (bare w) = w_create_snapshot w"
  "w_discard_snapshot (bare w) = w_discard_snapshot w" "w_enqueued (bare w) = w_enqueued w"
  "w_io_progress_pending (bare w) = w_io_progress_pending w" "w_responses (bare w) = w_responses w"
  "w_memory (bare w) = w_memory w"
  by (simp_all add: bare_def)

lemma bare_upd [simp]:
  "bare (w\<lparr>w_cbe := l\<rparr>) = (bare w)\<lparr>w_cbe := rec_lib l\<rparr>"
  "bare (w\<lparr>w_cbe_constructed := b\<rparr>) = (bare w)\<lparr>w_cbe_constructed := b\<rparr>"
  "bare (w\<lparr>w_backend := f\<rparr>) = (bare w)\<lparr>w_backend := f\<rparr>"
  "bare (w\<lparr>w_backend_job := j\<rparr>) = (bare w)\<lparr>w_backend_job := j\<rparr>"
  "bare (w\<lparr>w_io_data := d\<rparr>) = (bare w)\<lparr>w_io_data := d\<rparr>"
  "bare (w\<lparr>w_cipher_data := d\<rparr>) = (bare w)\<lparr>w_cipher_data := d\<rparr>"
  "bare (w\<lparr>w_plain_data := d\<rparr>) = (bare w)\<lparr>w_plain_data := d\<rparr>"
  "bare (w\<lparr>w_crypto := c\<rparr>) = (bare w)\<lparr>w_crypto := c\<rparr>"
  "bare (w\<lparr>w_rekey_obj := rk\<rparr>) = (bare w)\<lparr>w_rekey_obj := rk\<rparr>"
  "bare (w\<lparr>w_extend_obj := ex\<rparr>) = (bare w)\<lparr>w_extend_obj := ex\<rparr>"
  "bare (w\<lparr>w_helper_read := h\<rparr>) = (bare w)\<lparr>w_helper_read := h\<rparr>"
  "bare (w\<lparr>w_helper_write := h\<rparr>) = (bare w)\<lparr>w_helper_write := h\<rparr>"
  "bare (w\<lparr>w_frontend := fr\<rparr>) = (bare w)\<lparr>w_frontend := fr\<rparr>"
  "bare (w\<lparr>w_create_snapshot := fr\<rparr>) = (bare w)\<lparr>w_create_snapshot := fr\<rparr>"
  "bare (w\<lparr>w_discard_snapshot := fr\<rparr>) = (bare w)\<lparr>w_discard_snapshot := fr\<rparr>"
  "bare (w\<lparr>w_enqueued := q\<rparr>) = (bare w)\<lparr>w_enqueued := q\<rparr>"
  "bare (w\<lparr>w_io_progress_pending := b\<rparr>) = (bare w)\<lparr>w_io_progress_pending := b\<rparr>"
  "bare (w\<lparr>w_responses := hs\<rparr>) = (bare w)\<lparr>w_responses := hs\<rparr>"
  "bare (w\<lparr>w_memory := m\<rparr>) = (bare w)\<lparr>w_memory := m\<rparr>"
  by (simp_all add: bare_def)

text \<open>The results of the operations, with the record forgotten.\<close>

abbreviation bare_result :: "exn + ('l recorder, 'f) wrapper \<times> 'a \<Rightarrow> exn + ('l, 'f) wrapper \<times> 'a" where
  "bare_result \<equiv> map_sum id (map_prod bare id)"

abbreviation bare_run :: "(('l recorder, 'f) wrapper \<times> 'a) run \<Rightarrow> (('l, 'f) wrapper \<times> 'a) run" where
  "bare_run \<equiv> map_option bare_result"

section \<open>The front end\<close>

lemma bare_submit:
  "submit_helper_requests E (bare w) = bare (submit_helper_requests (recording E) w)"
  "submit_pending_request E (bare w) = map_prod bare id (submit_pending_request (recording E) w)"
  by (auto simp: submit_helper_requests_def submit_pending_request_def recorded_submit Let_def)

lemma bare_execute: "execute_library E (bare w) = bare (execute_library (recording E) w)"
  by (simp add: execute_library_def recorded_execute split: prod.split)

lemma bare_complete:
  "complete_request E (map_prod bare id t) = map_loop_step (map_prod bare id) id (complete_request (recording E) t)"
  by (cases t) (simp add: complete_request_def recorded_drop Let_def)

lemma bare_completes: "complete_requests E (bare w) p = bare_run (complete_requests (recording E) w p)"
proof -
  have "run_loop (complete_request E) (map_prod bare id (w, p)) = bare_run (run_loop (complete_request (recording E)) (w, p))"
    by (rule run_loop_image) (rule bare_complete)
  then show ?thesis by (simp add: complete_requests_def)
qed

lemma bare_finish:
  "finish_helper_read (bare w) p = map_prod bare id (finish_helper_read w p)"
  "finish_helper_write (bare w) p = map_prod bare id (finish_helper_write w p)"
  by (simp_all add: finish_helper_read_def finish_helper_write_def Let_def)

lemma bare_deliver: "deliver_read_data E (bare w) p = bare_result (deliver_read_data (recording E) w p)"
  by (auto simp: deliver_read_data_def recorded_ready recorded_obtain Let_def bind_exn_def
      split: prod.splits sum.splits)

lemma bare_take: "take_write_data E (bare w) p = bare_result (take_write_data (recording E) w p)"
  by (auto simp: take_write_data_def recorded_ready recorded_supply Let_def split: prod.splits)

lemma bind_run_bare:
  assumes "\<And>u a. g (bare u, a) = bare_run (h (u, a))"
  shows "bind_run (bare_run m) g = bare_run (bind_run m h)"
  using assms by (auto simp: bind_run_def split: option.splits sum.splits)

lemma bare_frontend: "handle_cbe_frontend E (bare w) = bare_run (handle_cbe_frontend (recording E) w)"
proof -
  obtain w1 rejected where sub: "submit_pending_request (recording E) (submit_helper_requests (recording E) w) = (w1, rejected)"
    by fastforce
  show ?thesis
  proof (cases rejected)
    case True
    with sub show ?thesis by (simp add: handle_cbe_frontend_def bare_submit)
  next
    case False
    let ?tail = "\<lambda>E (w3, p3).
       case finish_helper_read w3 p3 of (w4, p4) \<Rightarrow>
       case finish_helper_write w4 p4 of (w5, p5) \<Rightarrow>
       bind_run (Some (deliver_read_data E w5 p5)) (\<lambda>(w6, p6, returns).
         if returns then Some (Inr (w6, p6)) else Some (take_write_data E w6 p6))"
    have tail: "?tail E (bare u, a) = bare_run (?tail (recording E) (u, a))" for u a
      by (auto simp: bare_finish bare_deliver bare_take bind_run_def split: prod.splits sum.splits)
    show ?thesis
      using sub False bind_run_bare [where g = "?tail E" and h = "?tail (recording E)", OF tail]
      by (simp add: handle_cbe_frontend_def bare_submit bare_execute bare_completes Let_def)
  qed
qed

section \<open>The back end\<close>

definition bare_env :: "('f, 'l recorder) io_env \<Rightarrow> ('f, 'l) io_env" where
  "bare_env e =
     \<lparr> env_job = env_job e, env_file = env_file e, env_lib = rec_lib (env_lib e), env_io_data = env_io_data e \<rparr>"

lemma bare_env [simp]:
  "env_job (bare_env e) = env_job e" "env_file (bare_env e) = env_file e"
  "env_lib (bare_env e) = rec_lib (env_lib e)" "env_io_data (bare_env e) = env_io_data e"
  "bare_env (e\<lparr>env_job := j\<rparr>) = (bare_env e)\<lparr>env_job := j\<rparr>"
  "bare_env (e\<lparr>env_file := f\<rparr>) = (bare_env e)\<lparr>env_file := f\<rparr>"
  "bare_env (e\<lparr>env_lib := l\<rparr>) = (bare_env e)\<lparr>env_lib := rec_lib l\<rparr>"
  "bare_env (e\<lparr>env_io_data := d\<rparr>) = (bare_env e)\<lparr>env_io_data := d\<rparr>"
  by (simp_all add: bare_env_def)

abbreviation bare_step :: "exn + ('f, 'l recorder) io_env \<times> 'a \<Rightarrow> exn + ('f, 'l) io_env \<times> 'a" where
  "bare_step \<equiv> map_sum id (map_prod bare_env id)"

lemma bare_answer:
  "job_done L (bare_env e) = map_prod bare_env id (job_done (recorded L) e)"
  "apply_answer L p a (bare_env e) = map_prod bare_env id (apply_answer (recorded L) p a e)"
proof -
  show fin: "job_done L (bare_env e) = map_prod bare_env id (job_done (recorded L) e)" for e :: "('a, 'b recorder) io_env"
    by (simp add: job_done_def)
  show "apply_answer L p a (bare_env e) = map_prod bare_env id (apply_answer (recorded L) p a e)"
    by (cases a) (simp_all add: apply_answer_def Let_def fin [symmetric])
qed

lemma bare_in_progress:
  "read_in_progress F L p (bare_env e) = bare_step (read_in_progress F (recorded L) p e)"
  "write_in_progress F L p (bare_env e) = bare_step (write_in_progress F (recorded L) p e)"
  "sync_in_progress F L p (bare_env e) = bare_step (sync_in_progress F (recorded L) p e)"
  by (auto simp: read_in_progress_def write_in_progress_def sync_in_progress_def Let_def bind_exn_def
      bare_answer [symmetric] split: prod.splits sum.splits sync_result.splits)

lemma bare_job: "job_execute F L (bare_env e) = bare_step (job_execute F (recorded L) e)"
  by (auto simp: job_execute_def io_read_def io_write_def io_sync_def Let_def
      bare_in_progress [symmetric] bare_answer [symmetric] split: io_state.splits prod.splits)

lemma bare_backend: "handle_cbe_backend E (bare w) = bare_result (handle_cbe_backend (recording E) w)"
proof -
  have job: "execute_backend_job E j (bare w) = bare_result (execute_backend_job (recording E) j w)" for j
  proof -
    let ?e = "\<lparr> env_job = j, env_file = w_backend w, env_lib = w_cbe w, env_io_data = w_io_data w \<rparr>"
    have "job_execute (world_file E) (world_lib E) (bare_env ?e)
        = bare_step (job_execute (world_file E) (recorded (world_lib E)) ?e)"
      by (rule bare_job)
    then show ?thesis
      by (auto simp: execute_backend_job_def bare_env_def bind_exn_def split: sum.splits prod.splits)
  qed
  show ?thesis
    by (auto simp: handle_cbe_backend_def has_io_request_def job bind_exn_def
        split: prod.splits option.splits sum.splits)
qed

section \<open>The crypto handler\<close>

lemma bare_passes:
  "add_key_pass E (map_prod bare id t) = map_loop_step (map_prod bare id) id (add_key_pass (recording E) t)"
  "remove_key_pass E (map_prod bare id t) = map_loop_step (map_prod bare id) id (remove_key_pass (recording E) t)"
  "encrypt_pass E (map_prod bare id t) = map_loop_step (map_prod bare id) id (encrypt_pass (recording E) t)"
  "encrypted_pass E (map_prod bare id t) = map_loop_step (map_prod bare id) id (encrypted_pass (recording E) t)"
  "decrypt_pass E (map_prod bare id t) = map_loop_step (map_prod bare id) id (decrypt_pass (recording E) t)"
  "decrypted_pass E (map_prod bare id t) = map_loop_step (map_prod bare id) id (decrypted_pass (recording E) t)"
proof -
  note calls = crypto_add_key_required_def crypto_remove_key_required_def crypto_cipher_data_required_def
    crypto_plain_data_required_def
  show "add_key_pass E (map_prod bare id t) = map_loop_step (map_prod bare id) id (add_key_pass (recording E) t)"
    "remove_key_pass E (map_prod bare id t) = map_loop_step (map_prod bare id) id (remove_key_pass (recording E) t)"
    by (auto simp: add_key_pass_def remove_key_pass_def calls Let_def split: prod.splits sum.splits)
  show "encrypt_pass E (map_prod bare id t) = map_loop_step (map_prod bare id) id (encrypt_pass (recording E) t)"
    "decrypt_pass E (map_prod bare id t) = map_loop_step (map_prod bare id) id (decrypt_pass (recording E) t)"
    by (auto simp: encrypt_pass_def decrypt_pass_def calls Let_def split: prod.splits sum.splits)
  show "encrypted_pass E (map_prod bare id t) = map_loop_step (map_prod bare id) id (encrypted_pass (recording E) t)"
    by (auto simp: encrypted_pass_def Let_def split: prod.splits sum.splits option.splits)
  show "decrypted_pass E (map_prod bare id t) = map_loop_step (map_prod bare id) id (decrypted_pass (recording E) t)"
    by (auto simp: decrypted_pass_def Let_def split: prod.splits sum.splits option.splits)
qed

lemma bare_loops:
  "run_loop (add_key_pass E) (map_prod bare id t) = bare_run (run_loop (add_key_pass (recording E)) t)"
  "run_loop (remove_key_pass E) (map_prod bare id t) = bare_run (run_loop (remove_key_pass (recording E)) t)"
  "run_loop (encrypt_pass E) (map_prod bare id t) = bare_run (run_loop (encrypt_pass (recording E)) t)"
  "run_loop (encrypted_pass E) (map_prod bare id t) = bare_run (run_loop (encrypted_pass (recording E)) t)"
  "run_loop (decrypt_pass E) (map_prod bare id t) = bare_run (run_loop (decrypt_pass (recording E)) t)"
  "run_loop (decrypted_pass E) (map_prod bare id t) = bare_run (run_loop (decrypted_pass (recording E)) t)"
  by (rule run_loop_image; rule bare_passes)+

lemma bare_crypto: "handle_crypto E (bare w) = bare_run (handle_crypto (recording E) w)"
proof (cases "crypto_execute (world_aes E) (w_crypto w)")
  case (Inl e)
  then show ?thesis by (simp add: handle_crypto_def)
next
  case (Inr cp)
  obtain c p where cp: "cp = (c, p)" by (cases cp)
  have start: "((bare w)\<lparr>w_crypto := c\<rparr>, p) = map_prod bare id (w\<lparr>w_crypto := c\<rparr>, p)" by simp
  show ?thesis
    unfolding handle_crypto_def prod.case bare_sel recording_sel Inr cp bind_run_simps start
    by (subst bare_loops, rule bind_run_image)+ (rule bare_loops)
qed

section \<open>The loop and the operations\<close>

lemma bare_pass: "handle_frontend_pass E (bare w) = bare_run (handle_frontend_pass (recording E) w)"
proof -
  have backend: "bind_run (Some (handle_cbe_backend E (bare w1))) g
      = bind_run (bare_run (Some (handle_cbe_backend (recording E) w1))) g" for w1 g
    by (simp add: bare_backend)
  show ?thesis
    unfolding handle_frontend_pass_def bare_frontend
    by (rule bind_run_bare, unfold prod.case backend, rule bind_run_bare, unfold prod.case bare_crypto,
        rule bind_run_bare) (simp add: Let_def dump_state_def split: option.split)
qed

lemma bare_update: "update_background_state i (bare w) = bare (update_background_state i w)"
  by (simp add: update_background_state_def Let_def)

lemma bare_request:
  "handle_frontend_request E (bare w) = map_option (map_sum id bare) (handle_frontend_request (recording E) w)"
proof -
  have "run_while (handle_frontend_pass E) (bare w)
      = map_option (map_sum id bare) (run_while (handle_frontend_pass (recording E)) w)"
    by (rule run_while_image) (rule bare_pass)
  then show ?thesis
    by (auto simp: handle_frontend_request_def bind_run_def bare_update library_info_def
        split: option.splits sum.splits)
qed

lemma bare_requests:
  assumes "v = bare w" "\<And>u. g (bare u) = map_option (map_sum id f) (h u)"
  shows "bind_run (handle_frontend_request E v) g
    = map_option (map_sum id f) (bind_run (handle_frontend_request (recording E) w) h)"
  unfolding assms(1) bare_request by (rule bind_run_image) (rule assms(2))

lemma bare_small:
  "enqueue_handle i (bare w) = bare (enqueue_handle i w)"
  "ack_frontend_request (bare w) = bare (ack_frontend_request w)"
  "io_progress_response i (bare w) = bare (io_progress_response i w)"
  "submit_frontend_request (bare w) seek data count op s = map_prod bare id (submit_frontend_request w seek data count op s)"
  by (simp_all add: enqueue_handle_def ack_frontend_request_def io_progress_response_def
      submit_frontend_request_def Let_def)

lemma bare_acceptable: "wrapper_client_request_acceptable E (bare w) = wrapper_client_request_acceptable (recording E) w"
  by (simp add: wrapper_client_request_acceptable_def)

lemma bare_initialize: "initialize_cbe E (bare w) = map_sum id bare (initialize_cbe (recording E) w)"
  by (simp add: initialize_cbe_def split: option.split)

lemma bare_ensure: "ensure_cbe E (bare w) = map_sum id bare (ensure_cbe (recording E) w)"
  by (simp add: ensure_cbe_def bare_initialize)

lemmas bare_operations = bare_acceptable bare_small bare_ensure recorded_submit bind_exn_def Let_def

lemma bare_data:
  "data_read E h dst count (bare w) = bare_run (data_read (recording E) h dst count w)"
  "data_write E h src count (bare w) = bare_run (data_write (recording E) h src count w)"
  "data_sync E h (bare w) = bare_run (data_sync (recording E) h w)"
proof -
  show "data_read E h dst count (bare w) = bare_run (data_read (recording E) h dst count w)"
    by (auto simp: data_read_def bare_operations intro!: bare_requests
        split: sum.splits prod.splits frontend_state.splits)
  show "data_write E h src count (bare w) = bare_run (data_write (recording E) h src count w)"
    by (auto simp: data_write_def bare_operations intro!: bare_requests
        split: sum.splits prod.splits frontend_state.splits)
  show "data_sync E h (bare w) = bare_run (data_sync (recording E) h w)"
    by (auto simp: data_sync_def bare_operations intro!: bare_requests
        split: sum.splits prod.splits frontend_state.splits)
qed

lemma bare_background:
  "start_rekeying E (bare w) = bare_run (start_rekeying (recording E) w)"
  "start_extending E type blocks (bare w) = bare_run (start_extending (recording E) type blocks w)"
  "create_snapshot E (bare w) = bare_run (create_snapshot (recording E) w)"
  "discard_snapshot E ident (bare w) = bare_run (discard_snapshot (recording E) ident w)"
  "wrapper_active_snapshot_ids E (bare w) = bare_run (wrapper_active_snapshot_ids (recording E) w)"
  "notify_backend_io_progress E (bare w) = map_option (map_sum id bare) (notify_backend_io_progress (recording E) w)"
proof -
  show "start_rekeying E (bare w) = bare_run (start_rekeying (recording E) w)"
    by (cases "wrapper_client_request_acceptable (recording E) w")
      (auto simp: start_rekeying_def bare_operations intro!: bare_requests)
  show "start_extending E type blocks (bare w) = bare_run (start_extending (recording E) type blocks w)"
    by (cases "wrapper_client_request_acceptable (recording E) w")
      (auto simp: start_extending_def bare_operations intro!: bare_requests)
  show "create_snapshot E (bare w) = bare_run (create_snapshot (recording E) w)"
    by (cases "ensure_cbe (recording E) w") (auto simp: create_snapshot_def bare_operations intro!: bare_requests)
  show "discard_snapshot E ident (bare w) = bare_run (discard_snapshot (recording E) ident w)"
    by (cases "ensure_cbe (recording E) w") (auto simp: discard_snapshot_def bare_operations intro!: bare_requests)
  show "wrapper_active_snapshot_ids E (bare w) = bare_run (wrapper_active_snapshot_ids (recording E) w)"
    by (cases "ensure_cbe (recording E) w")
      (auto simp: wrapper_active_snapshot_ids_def bare_operations intro!: bare_requests)
  show "notify_backend_io_progress E (bare w) = map_option (map_sum id bare) (notify_backend_io_progress (recording E) w)"
    by (auto simp: notify_backend_io_progress_def bare_operations intro!: bare_requests split: option.split)
qed

lemma bind_run_result:
  assumes "\<And>u a. g (bare u, a) = bare_run (h (u, a))" "m' = bare_run m"
  shows "bind_run m' g = bare_run (bind_run m h)"
  using bind_run_bare [where g = g and h = h, OF assms(1)] assms(2) by simp

lemma bare_control:
  "extend_write E P text count (bare w) = bare_run (extend_write (recording E) P text count w)"
  "rekey_write E P text count (bare w) = bare_run (rekey_write (recording E) P text count w)"
  "create_snapshot_write E P text count (bare w) = bare_run (create_snapshot_write (recording E) P text count w)"
  "discard_snapshot_write E P text count (bare w) = bare_run (discard_snapshot_write (recording E) P text count w)"
  by (auto simp: extend_write_def rekey_write_def create_snapshot_write_def discard_snapshot_write_def Let_def
      intro!: bind_run_result bare_background)

section \<open>Whole runs\<close>

lemma bare_created: "new_wrapper E config (bare members) = map_sum id bare (new_wrapper (recording E) config members)"
proof -
  have "read_config config (bare members) = bare (read_config config members)"
    by (simp add: read_config_def bare_def)
  then show ?thesis by (simp add: new_wrapper_def bare_initialize)
qed

lemma bare_returned:
  "bare_run m = Some (Inr (w, a)) \<longleftrightarrow> (\<exists>v. m = Some (Inr (v, a)) \<and> w = bare v)"
  "map_option (map_sum id bare) k = Some (Inr w) \<longleftrightarrow> (\<exists>v. k = Some (Inr v) \<and> w = bare v)"
proof -
  show "bare_run m = Some (Inr (w, a)) \<longleftrightarrow> (\<exists>v. m = Some (Inr (v, a)) \<and> w = bare v)"
  proof (cases m)
    case (Some r)
    then show ?thesis by (cases r) auto
  qed simp
  show "map_option (map_sum id bare) k = Some (Inr w) \<longleftrightarrow> (\<exists>v. k = Some (Inr v) \<and> w = bare v)"
  proof (cases k)
    case (Some r)
    then show ?thesis by (cases r) auto
  qed simp
qed

text \<open>Every run of the plugin has been recorded.\<close>

theorem recorded_run:
  assumes "plugin_reach E P config (bare members) w"
  shows "\<exists>v. plugin_reach (recording E) P config members v \<and> w = bare v"
  using assms
proof induction
  case (created w)
  then obtain v where "new_wrapper (recording E) config members = Inr v" "w = bare v"
    using bare_created [of E config members] by (cases "new_wrapper (recording E) config members") auto
  then show ?case by (blast intro: plugin_reach.created)
next
  case (memory w m)
  then obtain v where v: "plugin_reach (recording E) P config members v" "w = bare v" by blast
  from plugin_reach.memory [OF v(1), of m] show ?case by (intro exI conjI) (assumption, simp add: v(2))
qed (elim exE conjE, hypsubst, unfold bare_data bare_control bare_background bare_returned, elim exE conjE,
    rule exI, erule conjI [rotated], erule (1) plugin_reach.intros(2-11))+

end
