(* ===== verification/Plugin_Device.thy ===== *)
theory Plugin_Device
  imports Device_Access Recorded_Runs
begin

text \<open>
  The data file of the plugin is an array of bytes: what an access through \<open>data_read\<close> or
  \<open>data_write\<close> does, from the call that submits it over all the calls that find it under way
  to the one that reports its end, is \<open>file_read\<close> or \<open>file_write\<close> of \<open>Block_File\<close>, on every run on
  which the library has served the blocks of the access.

  \<^item> The invariant of \<open>Device_Access\<close> is lifted through the loop over the handlers.
  \<^item> \<open>while_waiting\<close> are the calls that may come between the first call of an access and the last.
  \<^item> The example is a library that keeps its blocks in memory and asks for each block that is
    written twice.
\<close>

section \<open>The loop over the handlers\<close>

text \<open>The log only grows.\<close>

definition grows :: "('l recorder, 'f) wrapper \<Rightarrow> ('l recorder, 'f) wrapper \<Rightarrow> bool" where
  "grows w w' \<longleftrightarrow> (\<exists>es. rec_log (w_cbe w') = es @ rec_log (w_cbe w))"

lemma growsI: "rec_log (w_cbe w') = es @ rec_log (w_cbe w) \<Longrightarrow> grows w w'"
  by (auto simp: grows_def)

lemma grows_same: "rec_log (w_cbe w') = rec_log (w_cbe w) \<Longrightarrow> grows w w'"
  by (simp add: grows_def)

lemma grows_trans: "grows w w1 \<Longrightarrow> grows w1 w' \<Longrightarrow> grows w w'"
  by (auto simp: grows_def)

lemma served_before: "served B (es @ xs) \<Longrightarrow> served B xs"
proof (induction es)
  case (Cons e es)
  then show ?case by (cases e) simp_all
qed simp

lemma grows_served:
  assumes "grows w w'" "N \<le> length (rec_log (w_cbe w))"
  shows "served B (log_since N (w_cbe w')) \<Longrightarrow> served B (log_since N (w_cbe w))"
proof -
  obtain es where es: "rec_log (w_cbe w') = es @ rec_log (w_cbe w)" using assms(1) by (auto simp: grows_def)
  then have "log_since N (w_cbe w') = es @ log_since N (w_cbe w)" using assms(2) by (simp add: log_since_def)
  then show "served B (log_since N (w_cbe w')) \<Longrightarrow> served B (log_since N (w_cbe w))"
    using served_before by simp
qed

lemma submit_steps_grow:
  "grows w (submit_helper_requests (recording E) w)"
  "submit_pending_request (recording E) w = (w', rejected) \<Longrightarrow> grows w w'"
proof -
  show "grows w (submit_helper_requests (recording E) w)"
    by (auto simp: grows_def submit_helper_requests_def Let_def recorded_submit)
  show "grows w w'" if "submit_pending_request (recording E) w = (w', rejected)"
    using that by (auto simp: grows_def submit_pending_request_def Let_def recorded_submit split: if_splits)
qed

lemma front_steps_grow:
  "grows w (execute_library (recording E) w)"
  "complete_request (recording E) (w, p) = Continue (w', p') \<or>
     complete_request (recording E) (w, p) = Break (w', p') \<Longrightarrow> grows w w'"
  "finish_helper_read w p = (w', p') \<Longrightarrow> grows w w'"
  "finish_helper_write w p = (w', p') \<Longrightarrow> grows w w'"
proof -
  show "grows w (execute_library (recording E) w)"
    by (rule grows_same) (auto simp: execute_library_def recorded_execute split: prod.splits)
  show "grows w w'" if "complete_request (recording E) (w, p) = Continue (w', p') \<or>
     complete_request (recording E) (w, p) = Break (w', p')"
    using that by (auto simp: grows_def complete_request_def Let_def recorded_drop split: if_splits)
  show "grows w w'" if "finish_helper_read w p = (w', p')"
    by (rule grows_same) (use that in \<open>auto simp: finish_helper_read_def Let_def split: if_splits\<close>)
  show "grows w w'" if "finish_helper_write w p = (w', p')"
    by (rule grows_same) (use that in \<open>auto simp: finish_helper_write_def split: if_splits\<close>)
qed

lemma client_data_grows:
  "deliver_read_data (recording E) w p = Inr (w', p', q) \<Longrightarrow> grows w w'"
  "take_write_data (recording E) w p = Inr (w', p') \<Longrightarrow> grows w w'"
proof -
  let ?L = "recorded (world_lib E)"
  show "grows w w'" if del: "deliver_read_data (recording E) w p = Inr (w', p', q)"
  proof -
    obtain r l where ready: "client_data_ready ?L (w_cbe w) = (r, l)" by fastforce
    obtain okay i l2 where ob: "obtain_client_data ?L l r (- 1) = ((okay, i), l2)" by (metis surj_pair)
    have "rec_log l = rec_log (w_cbe w)" using ready by (auto simp: recorded_ready split: prod.splits)
    moreover have "\<exists>es. rec_log l2 = es @ rec_log l" using ob by (auto simp: recorded_obtain split: prod.splits)
    moreover have "w_cbe w' = l \<or> w_cbe w' = l2"
      using del ready ob by (auto simp: deliver_read_data_def Let_def bind_exn_def split: if_splits sum.splits)
    ultimately show ?thesis by (auto simp: grows_def)
  qed
  show "grows w w'" if take: "take_write_data (recording E) w p = Inr (w', p')"
  proof -
    obtain r l where ready: "client_data_required ?L (w_cbe w) = (r, l)" by fastforce
    have "rec_log l = rec_log (w_cbe w)" using ready by (auto simp: recorded_ready split: prod.splits)
    moreover have "\<exists>es. rec_log (snd (supply_client_data ?L l r d)) = es @ rec_log l" for d
      by (auto simp: recorded_supply split: prod.splits)
    moreover have "w_cbe w' = l \<or> (\<exists>d. w_cbe w' = snd (supply_client_data ?L l r d))"
      using take ready by (auto simp: take_write_data_def Let_def case_prod_unfold split: if_splits)
    ultimately show ?thesis by (auto simp: grows_def)
  qed
qed

text \<open>An access is under way: as long as the library has served the calls of it, they have been right.\<close>

definition under_way ::
  "(u32 \<Rightarrow> blocks) \<Rightarrow> nat \<Rightarrow> ('l recorder \<Rightarrow> nat) \<Rightarrow> access \<Rightarrow> ('l recorder, 'f) wrapper \<Rightarrow> bool" where
  "under_way B N n A w \<longleftrightarrow>
     frontend_inv n w \<and> N \<le> length (acc_log A) \<and> (\<exists>es. rec_log (w_cbe w) = es @ acc_log A)
     \<and> (served B (log_since N (w_cbe w)) \<longrightarrow> moved B N A w)"

lemma under_way_step:
  assumes "under_way B N n A w" "frontend_inv n w'" "grows w w'"
    and "moved B N A w \<Longrightarrow> served B (log_since N (w_cbe w')) \<Longrightarrow> moved B N A w'"
  shows "under_way B N n A w'"
proof -
  obtain es where "N \<le> length (acc_log A)" "rec_log (w_cbe w) = es @ acc_log A"
    using assms(1) by (auto simp: under_way_def)
  then have "N \<le> length (rec_log (w_cbe w))" by simp
  from grows_served [OF assms(3) this] assms show ?thesis by (auto simp: under_way_def grows_def)
qed

lemma under_way_frame:
  assumes "under_way B N n A w" "frontend_inv n w'" "same_front w w'" "rec_log (w_cbe w') = rec_log (w_cbe w)"
  shows "under_way B N n A w'"
  by (rule under_way_step [OF assms(1,2) grows_same [OF assms(4)]], rule moved_frame)
    (use assms(3,4) in \<open>simp_all add: same_front_def\<close>)

lemma complete_requests_under_way:
  assumes "library_contract (recorded (world_lib E)) n" "wf_access A" "under_way B N n A w" "plain_seen w"
    and "complete_requests (recording E) w p = Some (Inr (w', p'))"
  shows "under_way B N n A w' \<and> plain_seen w'"
proof -
  let ?I = "\<lambda>t. under_way B N n A (fst t) \<and> plain_seen (fst t)"
  let ?Q = "\<lambda>r. case r of Inl (e :: exn) \<Rightarrow> True | Inr t \<Rightarrow> ?I t"
  have pass: "?I t'"
    if "?I t" "complete_request (recording E) t = Continue t' \<or> complete_request (recording E) t = Break t'" for t t'
  proof -
    obtain u q u' q' where t: "t = (u, q)" "t' = (u', q')" by (metis surj_pair)
    have u: "under_way B N n A u" "plain_seen u" and step: "complete_request (recording E) (u, q) = Continue (u', q') \<or>
        complete_request (recording E) (u, q) = Break (u', q')"
      using that by (simp_all add: t)
    have inv: "frontend_inv n u" using u(1) by (simp add: under_way_def)
    have "frontend_inv n u'"
      using complete_request_inv [where E = "recording E" and p = q, OF _ inv] assms(1) step by auto
    from under_way_step [OF u(1) this front_steps_grow(2) [OF step]
        complete_request_moved [OF assms(1) inv _ assms(2) step]] plain_seen_kept(1) [OF u(2) step]
    show ?thesis by (simp add: t)
  qed
  have "?Q (Inr (w', p'))"
  proof (rule run_loop_rule [where I = ?I and Q = ?Q, OF assms(5) [unfolded complete_requests_def]])
    show "?I (w, p)" using assms(3,4) by simp
    show "?I t'" if "?I t" "complete_request (recording E) t = Continue t'" for t t'
      by (rule pass [OF that(1) disjI1 [OF that(2)]])
    show "?Q (Inr t')" if "?I t" "complete_request (recording E) t = Break t'" for t t'
      using pass [OF that(1) disjI2 [OF that(2)]] by simp
  qed simp
  then show ?thesis by simp
qed

lemma handle_cbe_frontend_under_way:
  assumes "library_contract (recorded (world_lib E)) n" "wf_access A" "under_way B N n A w"
    and "handle_cbe_frontend (recording E) w = Some (Inr (w', p))"
  shows "under_way B N n A w'"
proof -
  let ?E = "recording E"
  have contract: "library_contract (world_lib ?E) n" using assms(1) by simp
  have inv: "under_way B N n A v \<Longrightarrow> frontend_inv n v" for v by (simp add: under_way_def)
  have u0: "under_way B N n A (submit_helper_requests ?E w)"
    by (rule under_way_step [OF assms(3) submit_helper_requests_inv [OF contract inv [OF assms(3)]] submit_steps_grow(1)])
      (rule submit_helper_requests_moved [OF inv [OF assms(3)]])
  have u1: "under_way B N n A w1" if "submit_pending_request ?E (submit_helper_requests ?E w) = (w1, rejected)"
    for w1 rejected
    by (rule under_way_step [OF u0 submit_pending_request_inv [OF contract inv [OF u0] that] submit_steps_grow(2) [OF that]])
      (rule submit_pending_request_moved [OF _ assms(2) that])
  show ?thesis
    using assms(4)
  proof (cases rule: handle_cbe_frontendE)
    case rejected
    then show ?thesis by (rule u1)
  next
    case (driven w1 w3 p3 w4 p4 w5 p5 w6 p6 q)
    have u2: "under_way B N n A (execute_library ?E w1)"
      by (rule under_way_step [OF u1 [OF driven(1)]
            execute_library_inv [OF contract inv [OF u1 [OF driven(1)]]] front_steps_grow(1)])
        (rule execute_library_moved)
    have u3: "under_way B N n A w3" "plain_seen w3"
      using complete_requests_under_way [OF assms(1,2) u2 execute_library_seen driven(2)] by simp_all
    have u4: "under_way B N n A w4" "plain_seen w4"
      using under_way_step [OF u3(1) finish_helper_read_inv [OF inv [OF u3(1)] driven(3)] front_steps_grow(3) [OF driven(3)]]
        finish_helpers_moved(1) [OF _ assms(2) driven(3)] plain_seen_kept(2) [OF u3(2) driven(3)] by blast+
    have u5: "under_way B N n A w5" "plain_seen w5"
      using under_way_step [OF u4(1) finish_helper_write_inv [OF inv [OF u4(1)] driven(4)] front_steps_grow(4) [OF driven(4)]]
        finish_helpers_moved(2) [OF _ assms(2) driven(4)] plain_seen_kept(3) [OF u4(2) driven(4)] by blast+
    have "frontend_inv n w6"
      using deliver_read_data_inv [OF contract inv [OF u5(1)] refl, of p5] driven(5) by simp
    from under_way_step [OF u5(1) this client_data_grows(1) [OF driven(5)]]
      deliver_read_data_moved [OF assms(1) inv [OF u5(1)] u5(2) _ assms(2) driven(5)]
    have u6: "under_way B N n A w6" by blast
    have "under_way B N n A w'" if take: "take_write_data ?E w6 p6 = Inr (w', p)"
    proof -
      have "frontend_inv n w'"
        using take_write_data_inv [OF contract inv [OF u6] refl, of p6] take by simp
      from under_way_step [OF u6 this client_data_grows(2) [OF take]]
        take_write_data_moved [OF assms(1) inv [OF u6] _ assms(2) take]
      show ?thesis by blast
    qed
    with u6 driven(6) show ?thesis by auto
  qed
qed

lemma handle_frontend_pass_under_way:
  assumes "library_contract (recorded (world_lib E)) n" "wf_access A" "under_way B N n A w"
    and "handle_frontend_pass (recording E) w = Some (Inr (w', p))"
  shows "under_way B N n A w'"
  using assms(4)
proof (rule handle_frontend_passE)
  fix w1 p1 w2 p2 p3
  assume steps: "handle_cbe_frontend (recording E) w = Some (Inr (w1, p1))"
    "handle_cbe_backend (recording E) w1 = Inr (w2, p2)" "handle_crypto (recording E) w2 = Some (Inr (w', p3))"
  have contract: "library_contract (world_lib (recording E)) n" using assms(1) by simp
  have u1: "under_way B N n A w1" by (rule handle_cbe_frontend_under_way [OF assms(1-3) steps(1)])
  then have "frontend_inv n w2"
    using handle_cbe_backend_inv [OF contract, of w1] steps(2) by (auto simp: under_way_def)
  from under_way_frame [OF u1 this handle_cbe_backend_front [OF steps(2)] handle_cbe_backend_log [OF steps(2)]]
  have u2: "under_way B N n A w2" .
  then have "frontend_inv n w'"
    using handle_crypto_safe [OF contract, of w2] steps(3) by (auto simp: under_way_def safe_result_def)
  from under_way_frame [OF u2 this handle_crypto_front [OF steps(3)] handle_crypto_log [OF steps(3)]]
  show ?thesis .
qed

lemma under_way_same:
  assumes "under_way B N n A w" "same_front w w'" "w_cbe w' = w_cbe w"
  shows "under_way B N n A w'"
proof (rule under_way_frame [OF assms(1) _ assms(2)])
  have "frontend_inv n w" using assms(1) by (simp add: under_way_def)
  then show "frontend_inv n w'"
    by (rule frontend_inv_frame) (use assms(2) in \<open>simp_all add: assms(3) same_front_def\<close>)
qed (simp add: assms(3))

lemma handle_frontend_request_under_way:
  fixes w w' :: "('l recorder, 'f) wrapper"
  assumes "library_contract (recorded (world_lib E)) n" "wf_access A" "under_way B N n A w"
    and "handle_frontend_request (recording E) w = Some (Inr w')"
  shows "under_way B N n A w'"
proof -
  obtain w1 where run: "run_while (handle_frontend_pass (recording E)) w = Some (Inr w1)"
    and w': "w' = update_background_state (library_info (recorded (world_lib E)) (w_cbe w1)) w1"
    using assms(4) by (auto simp: handle_frontend_request_def split: if_splits elim!: bind_run_InrE)
  let ?Q = "\<lambda>r. case r of Inl (e :: exn) \<Rightarrow> True | Inr t \<Rightarrow> under_way B N n A t"
  have "?Q (Inr w1)"
  proof (rule run_while_rule [where I = "under_way B N n A" and Q = ?Q, OF run assms(3)])
    show "under_way B N n A t'"
      if "under_way B N n A t" "handle_frontend_pass (recording E) t = Some (Inr (t', True))" for t t'
      by (rule handle_frontend_pass_under_way [OF assms(1,2) that])
    show "?Q (Inr t')"
      if "under_way B N n A t" "handle_frontend_pass (recording E) t = Some (Inr (t', False))" for t t'
      using handle_frontend_pass_under_way [OF assms(1,2) that] by simp
  qed simp
  then have u1: "under_way B N n A w1" by simp
  show ?thesis
    by (rule under_way_same [OF u1])
      (simp_all add: w' update_background_state_def same_front_def Let_def)
qed

section \<open>Whole accesses\<close>

lemma submitted_under_way:
  assumes "wf_access A" "under_way B N n A w" "fr_state (w_frontend w) = F_NONE"
    and "submit_frontend_request w (acc_seek A) (acc_buf A) (acc_count A) (acc_op A) (acc_snap A) = (w', okay)"
  shows "under_way B N n A w'"
proof (rule under_way_step [OF assms(2)])
  have op: "acc_op A = READ \<or> acc_op A = WRITE \<or> acc_op A = SYNC" "acc_op A \<noteq> SYNC"
    using assms(1) by (auto simp: wf_access_def)
  have inv: "frontend_inv n w" using assms(2) by (simp add: under_way_def)
  then have idle: "phase_of w = Idle" using assms(3) by (auto simp: phase_states inv_defs)
  show "frontend_inv n w'" by (rule submit_frontend_request_inv [OF inv op(1) assms(4)])
  have cbe: "w_cbe w' = w_cbe w" using submit_frontend_request_engine [OF assms(4)] by simp
  then show "grows w w'" by (simp add: grows_same)
  have log: "rec_log (w_cbe w') = rec_log (w_cbe w)" by (simp add: cbe)
  assume now: "moved B N A w"
  then have start: "untouched B N A w" "N \<le> length (rec_log (w_cbe w))" using idle by (simp_all add: moved_def)
  show "moved B N A w'"
  proof (cases "acc_unaligned A")
    case True
    with submit_unaligned [OF assms(3) op(2), of "acc_seek A" "acc_count A" "acc_buf A" "acc_snap A"] assms(4)
    have w': "w' = w\<lparr>w_helper_read := (w_helper_read w)
          \<lparr>h_cbe_request := make_request READ False (acc_first A) (w_helper_read_addr w) 1 0 0,
           h_state := H_PENDING\<rparr>,
        w_frontend := \<lparr> fr_state = F_IN_PROGRESS, fr_count = acc_len A,
           fr_cbe_request = make_request (acc_op A) False (acc_first A) (acc_buf A)
              (ucast (ucast (acc_count A div BLOCK_SIZE) :: u32)) 0 0,
           fr_snap_id = acc_snap A, fr_offset = acc_seek A, fr_helper_offset = acc_seek A mod BLOCK_SIZE \<rparr>\<rparr>"
      by (simp add: acc_unaligned_def acc_first_def acc_len_def access_length_def)
    have "phase_of w' = Block_wanted (acc_op A)" using idle by (simp add: w' phase_states)
    with True start log_kept(1) [OF log, of B N A] show ?thesis
      by (simp add: moved_def w' untouched_def acc_taken_def helper_block_def)
  next
    case False
    let ?count = "ucast (ucast ((acc_count A - acc_count A mod BLOCK_SIZE) div BLOCK_SIZE) :: u32) :: u64"
    have "unat (acc_count A div BLOCK_SIZE) < 2 ^ 32"
      using assms(1) [unfolded wf_access_def, THEN conjunct2, THEN conjunct2] by (simp add: unat_div)
    then have count: "?count = acc_count A div BLOCK_SIZE" by (simp add: round_down(1) ucast_u32_u64)
    from False submit_aligned [OF assms(3) op(2), of "acc_seek A" "acc_count A" "acc_buf A" "acc_snap A"] assms(4)
    have w': "w' = w\<lparr>w_frontend := \<lparr> fr_state = F_PENDING, fr_count = acc_len A,
           fr_cbe_request = make_request (acc_op A) False (acc_first A) (acc_buf A) ?count 0 0,
           fr_snap_id = acc_snap A, fr_offset = acc_seek A, fr_helper_offset = fr_helper_offset (w_frontend w) \<rparr>\<rparr>"
      by (simp add: acc_unaligned_def acc_first_def acc_len_def access_length_def)
    have "phase_of w' = Waiting" using idle by (simp add: w' phase_states)
    with False start log_kept(1) [OF log, of B N A] show ?thesis
      by (simp add: moved_def w' untouched_def acc_taken_def count unat_div acc_n_def)
  qed
qed

lemma handled_under_way:
  assumes "library_contract (recorded (world_lib E)) n" "wf_access A" "under_way B N n A w"
    and "if fr_state (w_frontend w) = F_NONE
      then submit_frontend_request w (acc_seek A) (acc_buf A) (acc_count A) (acc_op A) (acc_snap A) = (w1, True)
      else w1 = w"
    and "handle_frontend_request (recording E) w1 = Some (Inr w2)"
  shows "under_way B N n A w2" "under_way B N n A (enqueue_handle h w2)"
proof -
  have "under_way B N n A w1"
    using assms(3,4) submitted_under_way [OF assms(2,3)] by (auto split: if_splits)
  then show u2: "under_way B N n A w2" by (rule handle_frontend_request_under_way [OF assms(1,2) _ assms(5)])
  show "under_way B N n A (enqueue_handle h w2)"
    by (rule under_way_same [OF u2])
      (simp_all add: enqueue_handle_def io_progress_response_def same_front_def Let_def)
qed

text \<open>What is known when the access has ended, and that the next one can start.\<close>

lemma access_ended:
  assumes "under_way B N n A w" "served B (log_since N (w_cbe w))"
    and "fr_state (w_frontend w) = F_COMPLETE \<and> c = fr_count (w_frontend w)
      \<or> fr_state (w_frontend w) = F_ERROR_EOF \<and> c = 0"
  shows "(c = acc_len A \<and> w_memory w = memory_end A \<and> dev_view B N A w = blocks_end A
       \<or> c = 0 \<and> w_memory w = acc_memory A \<and> dev_view B N A w = acc_blocks A)
     \<and> frontend_inv n (ack_frontend_request w) \<and> N \<le> length (rec_log (w_cbe w))
     \<and> fr_state (w_frontend (ack_frontend_request w)) = F_NONE"
proof -
  have inv: "frontend_inv n w" "moved B N A w" using assms(1,2) by (simp_all add: under_way_def)
  consider "phase_of w = phase.Finished" "c = fr_count (w_frontend w)" | "phase_of w = Rejected" "c = 0"
    using inv(1) assms(3) by (auto simp: phase_states inv_defs)
  then have "c = acc_len A \<and> w_memory w = memory_end A \<and> dev_view B N A w = blocks_end A
       \<or> c = 0 \<and> w_memory w = acc_memory A \<and> dev_view B N A w = acc_blocks A"
    using inv(2) by cases (simp_all add: moved_def untouched_def)
  then show ?thesis
    using ack_frontend_request_inv [OF inv(1)] assms(3) moved_log [OF inv(2)]
    by (auto simp: ack_frontend_request_def)
qed

text \<open>
  The calls made while an access is under way: the client polls, the device signals progress, and
  the key of the device may be replaced or the device be extended.
\<close>

inductive while_waiting ::
  "('l, 'f) world \<Rightarrow> (('l, 'f) wrapper \<Rightarrow> ('l, 'f) wrapper \<Rightarrow> bool) \<Rightarrow> ('l, 'f) wrapper \<Rightarrow> ('l, 'f) wrapper \<Rightarrow> bool"
  for E :: "('l, 'f) world" and poll :: "('l, 'f) wrapper \<Rightarrow> ('l, 'f) wrapper \<Rightarrow> bool" and w :: "('l, 'f) wrapper"
  where
  start: "while_waiting E poll w w"
| again: "while_waiting E poll w w1 \<Longrightarrow> poll w1 w2 \<Longrightarrow> while_waiting E poll w w2"
| signal: "while_waiting E poll w w1 \<Longrightarrow> notify_backend_io_progress E w1 = Some (Inr w2) \<Longrightarrow> while_waiting E poll w w2"
| rekey: "while_waiting E poll w w1 \<Longrightarrow> start_rekeying E w1 = Some (Inr (w2, okay)) \<Longrightarrow> while_waiting E poll w w2"
| extend: "while_waiting E poll w w1 \<Longrightarrow> start_extending E type blocks w1 = Some (Inr (w2, okay)) \<Longrightarrow>
    while_waiting E poll w w2"

definition read_poll :: "('l, 'f) world \<Rightarrow> data_handle \<Rightarrow> u64 \<Rightarrow> u64 \<Rightarrow> ('l, 'f) wrapper \<Rightarrow> ('l, 'f) wrapper \<Rightarrow> bool" where
  "read_poll E h dst count w w' \<longleftrightarrow> (\<exists>out. data_read E h dst count w = Some (Inr (w', READ_QUEUED, out)))"

definition write_poll :: "('l, 'f) world \<Rightarrow> data_handle \<Rightarrow> u64 \<Rightarrow> u64 \<Rightarrow> ('l, 'f) wrapper \<Rightarrow> ('l, 'f) wrapper \<Rightarrow> bool" where
  "write_poll E h src count w w' \<longleftrightarrow> (\<exists>out. data_write E h src count w = Some (Inr (w', Insufficient_buffer, out)))"

lemma background_under_way:
  assumes "library_contract (recorded (world_lib E)) n" "wf_access A" "under_way B N n A w"
    and "handle_frontend_request (recording E) w1 = Some (Inr w')"
    and "w_cbe w1 = submit_client_request (recorded (world_lib E)) (w_cbe w) r i" "same_front w w1"
    and "\<not> client_op (req_operation r)"
  shows "under_way B N n A w'"
proof -
  have inv: "frontend_inv n w" using assms(3) by (simp add: under_way_def)
  have "n (w_cbe w1) = n (w_cbe w)"
    using contract_submit [OF assms(1), of "w_cbe w" r i] assms(5,7) by simp
  then have "frontend_inv n w1"
    using assms(6) by (intro frontend_inv_frame [OF inv]) (simp_all add: same_front_def)
  moreover have "rec_log (w_cbe w1) = rec_log (w_cbe w)" using assms(5,7) by (simp add: recorded_submit)
  ultimately have "under_way B N n A w1" by (rule under_way_frame [OF assms(3) _ assms(6)])
  then show ?thesis by (rule handle_frontend_request_under_way [OF assms(1,2) _ assms(4)])
qed

lemma while_waiting_under_way:
  assumes "while_waiting (recording E) poll w w'" "library_contract (recorded (world_lib E)) n" "wf_access A"
    and "under_way B N n A w" "\<And>w1 w2. under_way B N n A w1 \<Longrightarrow> poll w1 w2 \<Longrightarrow> under_way B N n A w2"
  shows "under_way B N n A w'"
  using assms(1)
proof induction
  case start
  show ?case by (rule assms(4))
next
  case (again w1 w2)
  then show ?case by (blast intro: assms(5))
next
  case (signal w1 w2)
  show ?case
  proof (cases "w_enqueued w1")
    case None
    with signal.hyps obtain w3 where w3: "handle_frontend_request (recording E) w1 = Some (Inr w3)"
      and w2: "w2 = w3\<lparr>w_io_progress_pending := True\<rparr>"
      by (auto simp: notify_backend_io_progress_def elim!: bind_run_InrE)
    show ?thesis
      by (rule under_way_same [OF handle_frontend_request_under_way [OF assms(2,3) signal.IH w3]])
        (simp_all add: w2 same_front_def)
  next
    case (Some h)
    with signal.hyps have w2: "w2 = w1\<lparr>w_responses := w_responses w1 @ [h]\<rparr>"
      by (simp add: notify_backend_io_progress_def io_progress_response_def)
    show ?thesis by (rule under_way_same [OF signal.IH]) (simp_all add: w2 same_front_def)
  qed
next
  case (rekey w1 w2 okay)
  note go = background_under_way [OF assms(2,3) rekey.IH]
  show ?case
    using rekey.hyps rekey.IH
    by (auto simp: start_rekeying_def Let_def elim!: bind_run_InrE split: if_splits)
      (erule go, simp, simp_all add: same_front_def client_op_def)
next
  case (extend w1 type blocks w2 okay)
  note go = background_under_way [OF assms(2,3) extend.IH]
  show ?case
    using extend.hyps extend.IH
    by (auto simp: start_extending_def Let_def elim!: bind_run_InrE split: if_splits)
      (erule go, simp, simp add: same_front_def, simp add: client_op_def)+
qed

definition access_of ::
  "(u32 \<Rightarrow> blocks) \<Rightarrow> nat \<Rightarrow> operation \<Rightarrow> data_handle \<Rightarrow> u64 \<Rightarrow> u64 \<Rightarrow> ('l recorder, 'f) wrapper \<Rightarrow> access" where
  "access_of B N op h buf count w =
     \<lparr> acc_op = op, acc_seek = dh_seek h, acc_buf = buf, acc_count = count, acc_snap = dh_snap_id h,
       acc_blocks = device_blocks B (log_since N (w_cbe w)) (dh_snap_id h), acc_memory = w_memory w,
       acc_log = rec_log (w_cbe w) \<rparr>"

lemma access_of_sel [simp]:
  "acc_op (access_of B N op h buf count w) = op" "acc_seek (access_of B N op h buf count w) = dh_seek h"
  "acc_buf (access_of B N op h buf count w) = buf" "acc_count (access_of B N op h buf count w) = count"
  "acc_snap (access_of B N op h buf count w) = dh_snap_id h"
  "acc_blocks (access_of B N op h buf count w) = device_blocks B (log_since N (w_cbe w)) (dh_snap_id h)"
  "acc_memory (access_of B N op h buf count w) = w_memory w"
  "acc_log (access_of B N op h buf count w) = rec_log (w_cbe w)"
  by (simp_all add: access_of_def)

text \<open>A wrapper on which an access can start; \<open>held\<close> is what the snapshot holds then.\<close>

definition at_rest :: "nat \<Rightarrow> ('l recorder \<Rightarrow> nat) \<Rightarrow> ('l recorder, 'f) wrapper \<Rightarrow> bool" where
  "at_rest N n w \<longleftrightarrow> frontend_inv n w \<and> fr_state (w_frontend w) = F_NONE \<and> N \<le> length (rec_log (w_cbe w))"

definition held :: "(u32 \<Rightarrow> blocks) \<Rightarrow> nat \<Rightarrow> data_handle \<Rightarrow> ('l recorder, 'f) wrapper \<Rightarrow> blocks" where
  "held B N h w = device_blocks B (log_since N (w_cbe w)) (dh_snap_id h)"

lemma access_starts:
  assumes "at_rest N n w" "op = READ \<or> op = WRITE" "unat count < 2 ^ 44" "wf_blocks (held B N h w)"
  shows "wf_access (access_of B N op h buf count w)" "under_way B N n (access_of B N op h buf count w) w"
proof -
  have "phase_of w = Idle" using assms(1) by (auto simp: at_rest_def phase_states inv_defs)
  with assms(1) show "under_way B N n (access_of B N op h buf count w) w"
    by (simp add: under_way_def moved_def untouched_def dev_view_def at_rest_def)
  show "wf_access (access_of B N op h buf count w)"
    using assms(2-4) by (simp add: wf_access_def held_def)
qed

text \<open>A call that finds the access under way, and one that ends it.\<close>

lemma read_call:
  assumes "library_contract (recorded (world_lib E)) n" "wf_access A" "under_way B N n A w"
    and "acc_op A = READ" "acc_seek A = dh_seek h" "acc_buf A = dst" "acc_count A = count" "acc_snap A = dh_snap_id h"
    and "data_read (recording E) h dst count w = Some (Inr (w', res, out))"
  shows "(res = READ_QUEUED \<longrightarrow> under_way B N n A w')
    \<and> (\<forall>c. res = READ_OK \<longrightarrow> out = Some c \<longrightarrow> (\<exists>u. under_way B N n A u \<and> w' = ack_frontend_request u
      \<and> (fr_state (w_frontend u) = F_COMPLETE \<and> c = fr_count (w_frontend u)
         \<or> fr_state (w_frontend u) = F_ERROR_EOF \<and> c = 0)))"
  using assms(9)
proof (cases rule: data_read_path)
  case (handled u1 u2)
  note u = handled_under_way(1) [OF assms(1-3), of u1 u2] handled_under_way(2) [OF assms(1-3), of u1 u2 "dh_id h"]
  have u2: "under_way B N n A u2" "under_way B N n A (enqueue_handle (dh_id h) u2)"
    by (rule u; use handled assms(4-8) in simp)+
  with handled(3) show ?thesis by (cases "fr_state (w_frontend u2)") auto
qed (use assms(3) in simp_all)

lemma write_call:
  assumes "library_contract (recorded (world_lib E)) n" "wf_access A" "under_way B N n A w"
    and "acc_op A = WRITE" "acc_seek A = dh_seek h" "acc_buf A = src" "acc_count A = count" "acc_snap A = dh_snap_id h"
    and "data_write (recording E) h src count w = Some (Inr (w', res, out))"
  shows "(res = Insufficient_buffer \<longrightarrow> under_way B N n A w')
    \<and> (\<forall>c. res = Wrote WRITE_OK \<longrightarrow> out = Some c \<longrightarrow> (\<exists>u. under_way B N n A u \<and> w' = ack_frontend_request u
      \<and> (fr_state (w_frontend u) = F_COMPLETE \<and> c = fr_count (w_frontend u)
         \<or> fr_state (w_frontend u) = F_ERROR_EOF \<and> c = 0)))"
  using assms(9)
proof (cases rule: data_write_path)
  case (handled u1 u2)
  note u = handled_under_way(1) [OF assms(1-3), of u1 u2] handled_under_way(2) [OF assms(1-3), of u1 u2 "dh_id h"]
  have u2: "under_way B N n A u2" "under_way B N n A (enqueue_handle (dh_id h) u2)"
    by (rule u; use handled assms(4-8) in simp)+
  with handled(3) show ?thesis by (cases "fr_state (w_frontend u2)") auto
qed (use assms(3) in simp_all)

definition ends_access :: "u64 \<Rightarrow> ('l, 'f) wrapper \<Rightarrow> ('l, 'f) wrapper \<Rightarrow> bool" where
  "ends_access c u w' \<longleftrightarrow>
     w' = ack_frontend_request u
     \<and> (fr_state (w_frontend u) = F_COMPLETE \<and> c = fr_count (w_frontend u)
        \<or> fr_state (w_frontend u) = F_ERROR_EOF \<and> c = 0)"

lemma read_run:
  assumes "library_contract (recorded (world_lib E)) n" "at_rest N n w" "unat count < 2 ^ 44"
    and "while_waiting (recording E) (read_poll (recording E) h dst count) w w1"
    and "data_read (recording E) h dst count w1 = Some (Inr (w', READ_OK, Some c))"
    and "wf_blocks (held B N h w)"
  obtains u where "under_way B N n (access_of B N READ h dst count w) u" "ends_access c u w'"
proof -
  let ?A = "access_of B N READ h dst count w"
  note init = access_starts [OF assms(2) disjI1 [OF refl] assms(3,6), of dst]
  note call = read_call [OF assms(1) init(1) _ access_of_sel(1-5)]
  have poll: "under_way B N n ?A w2" if "under_way B N n ?A w1" "read_poll (recording E) h dst count w1 w2" for w1 w2
    using call [OF that(1)] that(2) by (auto simp: read_poll_def)
  have w1: "under_way B N n ?A w1" by (rule while_waiting_under_way [OF assms(4,1) init poll])
  from call [OF w1 assms(5)] show ?thesis by (auto simp: ends_access_def intro: that)
qed

lemma write_run:
  assumes "library_contract (recorded (world_lib E)) n" "at_rest N n w" "unat count < 2 ^ 44"
    and "while_waiting (recording E) (write_poll (recording E) h src count) w w1"
    and "data_write (recording E) h src count w1 = Some (Inr (w', Wrote WRITE_OK, Some c))"
    and "wf_blocks (held B N h w)"
  obtains u where "under_way B N n (access_of B N WRITE h src count w) u" "ends_access c u w'"
proof -
  let ?A = "access_of B N WRITE h src count w"
  note init = access_starts [OF assms(2) disjI2 [OF refl] assms(3,6), of src]
  note call = write_call [OF assms(1) init(1) _ access_of_sel(1-5)]
  have poll: "under_way B N n ?A w2" if "under_way B N n ?A w1" "write_poll (recording E) h src count w1 w2" for w1 w2
    using call [OF that(1)] that(2) by (auto simp: write_poll_def)
  have w1: "under_way B N n ?A w1" by (rule while_waiting_under_way [OF assms(4,1) init poll])
  from call [OF w1 assms(5)] show ?thesis by (auto simp: ends_access_def intro: that)
qed

text \<open>Whatever the library does, the log has grown and the next access can start.\<close>

lemma run_ended:
  assumes "under_way B M n A u" "ends_access c u w'" "acc_log A = rec_log (w_cbe w)" "N \<le> length (rec_log (w_cbe w))"
  shows "at_rest N n w'" "grows w w'"
proof -
  obtain es where es: "rec_log (w_cbe u) = es @ rec_log (w_cbe w)" and inv: "frontend_inv n u"
    using assms(1,3) by (auto simp: under_way_def)
  have cbe: "w_cbe w' = w_cbe u" using assms(2) by (simp add: ends_access_def ack_frontend_request_def)
  show "grows w w'" by (rule growsI [of _ es]) (simp add: cbe es)
  show "at_rest N n w'"
    using ack_frontend_request_inv [OF inv] assms(2,4) es
    by (auto simp: at_rest_def ends_access_def ack_frontend_request_def)
qed

lemma blank_blocks: "wf_blocks (held (\<lambda>s x. zero_block) (length (rec_log (w_cbe w))) h w)"
  by (simp add: held_def wf_blocks_def wf_block_def zero_block_def)

lemma access_kept:
  assumes "library_contract (recorded (world_lib E)) n" "at_rest N n w" "unat count < 2 ^ 44"
  shows "while_waiting (recording E) (read_poll (recording E) h buf count) w w1 \<Longrightarrow>
      data_read (recording E) h buf count w1 = Some (Inr (w', READ_OK, Some c)) \<Longrightarrow> at_rest N n w' \<and> grows w w'"
    and "while_waiting (recording E) (write_poll (recording E) h buf count) w w1 \<Longrightarrow>
      data_write (recording E) h buf count w1 = Some (Inr (w', Wrote WRITE_OK, Some c)) \<Longrightarrow> at_rest N n w' \<and> grows w w'"
proof -
  let ?B = "\<lambda>s x. zero_block" and ?M = "length (rec_log (w_cbe w))"
  have N: "N \<le> ?M" and rest: "at_rest ?M n w" using assms(2) by (simp_all add: at_rest_def)
  note ended = run_ended [OF _ _ _ N]
  show "at_rest N n w' \<and> grows w w'"
    if "while_waiting (recording E) (read_poll (recording E) h buf count) w w1"
      "data_read (recording E) h buf count w1 = Some (Inr (w', READ_OK, Some c))"
    using read_run [OF assms(1) rest assms(3) that blank_blocks] ended by (metis access_of_sel(8))
  show "at_rest N n w' \<and> grows w w'"
    if "while_waiting (recording E) (write_poll (recording E) h buf count) w w1"
      "data_write (recording E) h buf count w1 = Some (Inr (w', Wrote WRITE_OK, Some c))"
    using write_run [OF assms(1) rest assms(3) that blank_blocks] ended by (metis access_of_sel(8))
qed

text \<open>If it has served the blocks, the access has done its work.\<close>

lemma read_access:
  assumes "library_contract (recorded (world_lib E)) n" "at_rest N n w" "unat count < 2 ^ 44"
    and "while_waiting (recording E) (read_poll (recording E) h dst count) w w1"
    and "data_read (recording E) h dst count w1 = Some (Inr (w', READ_OK, Some c))"
    and "wf_blocks (held B N h w)" "served B (log_since N (w_cbe w'))"
  shows "w_memory w' = mem_write (w_memory w) dst (file_read (held B N h w) (unat (dh_seek h)) (unat c))
     \<and> held B N h w' = held B N h w \<and> (c = 0 \<or> c = access_length (dh_seek h) count)"
proof -
  obtain u where u: "under_way B N n (access_of B N READ h dst count w) u" "ends_access c u w'"
    by (rule read_run [OF assms(1-6)])
  then have "served B (log_since N (w_cbe u))"
    using assms(7) by (simp add: ends_access_def ack_frontend_request_def)
  from access_ended [OF u(1) this, of c] u(2) show ?thesis
    by (auto simp: ends_access_def memory_end_def blocks_end_def acc_len_def ack_frontend_request_def
        held_def dev_view_def file_read_def mem_write_def)
qed

lemma write_access:
  assumes "library_contract (recorded (world_lib E)) n" "at_rest N n w" "unat count < 2 ^ 44"
    and "while_waiting (recording E) (write_poll (recording E) h src count) w w1"
    and "data_write (recording E) h src count w1 = Some (Inr (w', Wrote WRITE_OK, Some c))"
    and "wf_blocks (held B N h w)" "served B (log_since N (w_cbe w'))"
  shows "held B N h w' =
       file_write (held B N h w) (unat (dh_seek h)) (mem_read (w_memory w) src (unat c))
     \<and> w_memory w' = w_memory w \<and> (c = 0 \<or> c = access_length (dh_seek h) count)"
proof -
  obtain u where u: "under_way B N n (access_of B N WRITE h src count w) u" "ends_access c u w'"
    by (rule write_run [OF assms(1-6)])
  then have "served B (log_since N (w_cbe u))"
    using assms(7) by (simp add: ends_access_def ack_frontend_request_def)
  moreover have "mem_read (w_memory w) src 0 = []" by (simp add: mem_read_def)
  ultimately show ?thesis
    using access_ended [OF u(1), of c] u(2) file_write_nil [OF assms(6)]
    by (auto simp: ends_access_def memory_end_def blocks_end_def acc_len_def ack_frontend_request_def
        held_def dev_view_def)
qed

section \<open>Properties\<close>

text \<open>
  The plugin is created with the library, its calls being recorded; \<open>calls_between\<close> are those
  between two states of a run.
\<close>

definition plugin_run ::
  "('l, 'f) world \<Rightarrow> ('l \<Rightarrow> nat) \<Rightarrow> parsers \<Rightarrow> ('l recorder, 'f) wrapper \<Rightarrow> bool" where
  "plugin_run E n P w \<longleftrightarrow>
     library_contract (world_lib E) n \<and> n (world_new_lib E) = 0
     \<and> (\<exists>config f l read_addr write_addr mem.
          plugin_reach (recording E) P config (wrapper_members f l read_addr write_addr mem) w)"

definition calls_between :: "('l recorder, 'f) wrapper \<Rightarrow> ('l recorder, 'f) wrapper \<Rightarrow> exchange list" where
  "calls_between w w' = log_since (length (rec_log (w_cbe w))) (w_cbe w')"

lemma plugin_run_at_rest:
  assumes "plugin_run E n P w" "fr_state (w_frontend w) = F_NONE"
  shows "library_contract (recorded (world_lib E)) (\<lambda>l. n (rec_lib l))"
    "at_rest (length (rec_log (w_cbe w))) (\<lambda>l. n (rec_lib l)) w"
proof -
  let ?n = "\<lambda>l. n (rec_lib l)"
  show contract: "library_contract (recorded (world_lib E)) ?n"
    using assms(1) by (intro recorded_contract) (simp add: plugin_run_def)
  obtain config f l read_addr write_addr mem
    where reach: "plugin_reach (recording E) P config (wrapper_members f l read_addr write_addr mem) w"
    using assms(1) by (auto simp: plugin_run_def)
  have "?n (world_new_lib (recording E)) = 0" using assms(1) by (simp add: plugin_run_def)
  then have "plugin_inv ?n w"
    using plugin_inv_created [where n = ?n and E = "recording E", OF _ _ refl] contract
    by (intro safe.reachable [OF reach]) simp_all
  with assms(2) show "at_rest (length (rec_log (w_cbe w))) ?n w" by (simp add: at_rest_def plugin_inv_def)
qed

lemma held_calls: "held B (length (rec_log (w_cbe w))) h w' = device_blocks B (calls_between w w') (dh_snap_id h)"
  by (simp add: held_def calls_between_def)

lemma calls_between_start [simp]: "calls_between w w = []"
  by (simp add: calls_between_def)

text \<open>
  C1. A read through the data file, from any state the plugin can reach with no request under
  way, over all the polls, device signals, rekeying and extending requests while it is under
  way, to the call that reports success with c bytes, changes client memory at exactly the c
  bytes of the destination, to the bytes that the handle's snapshot holds at the seek position;
  aligned and unaligned accesses alike. What the snapshot holds is unchanged, and c is the
  length of the access, or 0 for an access behind the end. This holds on every run on which the
  calls of the library between the two states are those of a block device (served): it hands
  out, from the plain-data buffer and as often as it likes, the content of blocks of the request
  it was sent, and reports success when all have been moved. Under the library contract; a run
  with a failed completion is not covered, C28 shows what it does.
\<close>

theorem data_read_refines_file:
  assumes "plugin_run E n P w" "fr_state (w_frontend w) = F_NONE" "unat count < 2 ^ 44"
    and "while_waiting (recording E) (read_poll (recording E) h dst count) w w1"
    and "data_read (recording E) h dst count w1 = Some (Inr (w', READ_OK, Some c))"
    and "wf_blocks (B (dh_snap_id h))" "served B (calls_between w w')"
  shows "w_memory w' = mem_write (w_memory w) dst (file_read (B (dh_snap_id h)) (unat (dh_seek h)) (unat c))
     \<and> device_blocks B (calls_between w w') (dh_snap_id h) = B (dh_snap_id h)
     \<and> (c = 0 \<or> c = access_length (dh_seek h) count)"
  using read_access [OF plugin_run_at_rest [OF assms(1,2)] assms(3-5), of B] assms(6,7)
  by (simp add: held_calls calls_between_def [symmetric])

text \<open>
  C2. A write through the data file, from any state the plugin can reach with no request under
  way to the call that reports success with c bytes, has handed to the library the blocks that
  replace, in the handle's snapshot, exactly the c bytes at the seek position by the first c
  bytes of the client; for an unaligned access the rest of its block keeps its old bytes. Client
  memory is unchanged, and c is the length of the access, or 0 for an access behind the end.
  This holds on every run on which the library asks only for blocks of the request it was sent,
  each one as often as it likes (it asks twice when a write allocates new blocks), hands out the
  content of the block that is read first, and reports success when all blocks have been moved.
  Under the library contract; failed completions are not covered, see C28.
\<close>

theorem data_write_refines_file:
  assumes "plugin_run E n P w" "fr_state (w_frontend w) = F_NONE" "unat count < 2 ^ 44"
    and "while_waiting (recording E) (write_poll (recording E) h src count) w w1"
    and "data_write (recording E) h src count w1 = Some (Inr (w', Wrote WRITE_OK, Some c))"
    and "wf_blocks (B (dh_snap_id h))" "served B (calls_between w w')"
  shows "device_blocks B (calls_between w w') (dh_snap_id h) =
       file_write (B (dh_snap_id h)) (unat (dh_seek h)) (mem_read (w_memory w) src (unat c))
     \<and> w_memory w' = w_memory w \<and> (c = 0 \<or> c = access_length (dh_seek h) count)"
  using write_access [OF plugin_run_at_rest [OF assms(1,2)] assms(3-5), of B] assms(6,7)
  by (simp add: held_calls calls_between_def [symmetric])

text \<open>
  C10. What a client has written through the data file is what a read of the same range stores
  in its memory, byte for byte and nothing else, whatever it did with its memory in between and
  wherever the range lies with respect to the blocks: on every run on which the library serves
  the blocks of the two accesses as a block device does and completes them with success, under
  the library contract.
\<close>

theorem written_data_is_read:
  assumes "plugin_run E n P w" "fr_state (w_frontend w) = F_NONE" "unat count < 2 ^ 44"
    and "while_waiting (recording E) (write_poll (recording E) h src count) w w1"
    and "data_write (recording E) h src count w1 = Some (Inr (w2, Wrote WRITE_OK, Some c))"
    and "while_waiting (recording E) (read_poll (recording E) h dst count) (w2\<lparr>w_memory := m\<rparr>) w3"
    and "data_read (recording E) h dst count w3 = Some (Inr (w4, READ_OK, Some c))"
    and "unat (dh_seek h) + unat c \<le> 2 ^ 64"
    and "wf_blocks (B (dh_snap_id h))" "served B (calls_between w w4)"
  shows "w_memory w4 = mem_write m dst (mem_read (w_memory w) src (unat c))"
proof -
  let ?N = "length (rec_log (w_cbe w))" and ?n = "\<lambda>l. n (rec_lib l)"
  let ?w2 = "w2\<lparr>w_memory := m\<rparr>"
  note start = plugin_run_at_rest [OF assms(1,2)]
  have B: "held B ?N h w = B (dh_snap_id h)" by (simp add: held_calls)
  have "at_rest ?N ?n w2" using access_kept(2) [OF start assms(3-5)] by simp
  then have rest: "at_rest ?N ?n ?w2"
    using frontend_inv_frame [of ?n w2 ?w2] by (simp add: at_rest_def)
  have run: "served B (log_since ?N (w_cbe w4))" using assms(10) by (simp add: calls_between_def)
  have "grows ?w2 w4" using access_kept(1) [OF start(1) rest assms(3,6,7)] by simp
  from grows_served [OF this _ run] rest have "served B (log_since ?N (w_cbe w2))" by (simp add: at_rest_def)
  from write_access [OF start assms(3-5) _ this] assms(9) B
  have written: "held B ?N h ?w2 = file_write (B (dh_snap_id h)) (unat (dh_seek h)) (mem_read (w_memory w) src (unat c))"
    by (simp add: held_def)
  from read_access [OF start(1) rest assms(3,6,7) _ run] written wf_file_write
  have "w_memory w4 = mem_write m dst (file_read (file_write (B (dh_snap_id h)) (unat (dh_seek h))
      (mem_read (w_memory w) src (unat c))) (unat (dh_seek h)) (unat c))" by simp
  then show ?thesis using assms(8) by (simp add: file_read_write)
qed

section \<open>Examples\<close>

text \<open>
  A library that keeps the blocks in memory and moves the blocks of a request in turn; it asks for
  each block that is written twice. \<open>ram_ready\<close> says that the next block has been put into the
  plain-data buffer.
\<close>

record ram =
  ram_byte :: "u64 \<Rightarrow> nat \<Rightarrow> u8"
  ram_count :: nat
  ram_request :: request
  ram_left :: "u64 list"
  ram_ready :: bool

definition ram_block :: "ram \<Rightarrow> u64 \<Rightarrow> block_data" where
  "ram_block l x = map (ram_byte l x) [0..<4096]"

definition ram_moving :: "operation \<Rightarrow> ram \<Rightarrow> bool" where
  "ram_moving op l \<longleftrightarrow>
     0 < ram_count l \<and> req_operation (ram_request l) = op \<and> ram_left l \<noteq> [] \<and> hd (ram_left l) \<noteq> - 1"

definition ram_next :: "ram \<Rightarrow> ram" where
  "ram_next l = l\<lparr>ram_left := tl (ram_left l), ram_ready := False\<rparr>"

definition ram_moves :: "request \<Rightarrow> u64 list" where
  "ram_moves r =
     concat (map (\<lambda>k. if req_operation r = WRITE then [of_nat k, of_nat k] else [of_nat k])
       [0..<unat (req_count r)])"

definition ram_library :: "ram cbe_library" where
  "ram_library =
     null_library\<lparr>max_vba := (\<lambda>l. 1023),
       submit_client_request := (\<lambda>l r i.
         if client_op (req_operation r)
         then l\<lparr>ram_count := ram_count l + 1, ram_request := r, ram_ready := False, ram_left := ram_moves r\<rparr>
         else l),
       lib_execute := (\<lambda>l io plain cipher.
         if ram_moving READ l
         then (l\<lparr>ram_ready := True\<rparr>, io,
               [ram_block l (req_block_number (ram_request l) + hd (ram_left l))], cipher)
         else (l, io, plain, cipher)),
       peek_completed_client_request := (\<lambda>l.
         if 0 < ram_count l \<and> ram_left l = [] then set_success (ram_request l) True else invalid_request),
       drop_completed_client_request := (\<lambda>l r.
         if client_op (req_operation r) then l\<lparr>ram_count := ram_count l - 1\<rparr> else l),
       lib_client_data_ready := (\<lambda>l r.
         (if ram_moving READ l \<and> ram_ready l then ram_request l else invalid_request, l)),
       client_data_index := (\<lambda>l r. hd (ram_left l)),
       lib_obtain_client_data := (\<lambda>l r i okay. ((True, 0), ram_next l)),
       lib_client_data_required := (\<lambda>l r.
         (if ram_moving WRITE l then ram_request l else invalid_request, l)),
       lib_supply_client_data := (\<lambda>l r d okay.
         (True, ram_next (l\<lparr>ram_byte := (ram_byte l)
            (req_block_number (ram_request l) + hd (ram_left l) := (!) d)\<rparr>)))\<rparr>"

abbreviation ram_world :: "ram \<Rightarrow> (ram, unit) world" where
  "ram_world l \<equiv> example_world ram_library l empty_reader ()"

lemma ram_calls:
  "max_vba ram_library l = 1023"
  "submit_client_request ram_library l r i =
     (if client_op (req_operation r)
      then l\<lparr>ram_count := ram_count l + 1, ram_request := r, ram_ready := False, ram_left := ram_moves r\<rparr>
      else l)"
  "lib_execute ram_library l io plain cipher =
     (if ram_moving READ l
      then (l\<lparr>ram_ready := True\<rparr>, io, [ram_block l (req_block_number (ram_request l) + hd (ram_left l))], cipher)
      else (l, io, plain, cipher))"
  "execute_progress ram_library l = False"
  "client_request_acceptable ram_library l"
  "peek_completed_client_request ram_library l =
     (if 0 < ram_count l \<and> ram_left l = [] then set_success (ram_request l) True else invalid_request)"
  "drop_completed_client_request ram_library l r =
     (if client_op (req_operation r) then l\<lparr>ram_count := ram_count l - 1\<rparr> else l)"
  "client_data_ready ram_library l =
     (if ram_moving READ l \<and> ram_ready l then ram_request l else invalid_request, l)"
  "client_data_index ram_library l r = hd (ram_left l)"
  "obtain_client_data ram_library l r i = ((True, 0), ram_next l)"
  "client_data_required ram_library l = (if ram_moving WRITE l then ram_request l else invalid_request, l)"
  "supply_client_data ram_library l r d =
     (True, ram_next (l\<lparr>ram_byte := (ram_byte l)(req_block_number (ram_request l) + hd (ram_left l) := (!) d)\<rparr>))"
  by (simp_all add: ram_library_def null_library_def client_data_ready_def client_data_required_def
      obtain_client_data_def supply_client_data_def)

lemma ram_idle_calls:
  "lib_has_io_request ram_library l r n = (r, n)" "lib_info ram_library l i = i"
  "lib_crypto_add_key_required ram_library l r k = (r, k)"
  "lib_crypto_remove_key_required ram_library l r n = (r, n)"
  "lib_crypto_cipher_data_required ram_library l r n = (r, n)"
  "lib_crypto_plain_data_required ram_library l r n = (r, n)"
  by (simp_all add: ram_library_def null_library_def)

lemma ram_contract: "library_contract ram_library ram_count"
  by (auto simp: library_contract_def ram_library_def null_library_def client_data_ready_def
      client_data_required_def obtain_client_data_def supply_client_data_def ram_next_def ram_moving_def
      client_op_def invalid_request_def)

lemma ram_block_upd [simp]:
  "ram_block (l\<lparr>ram_count := c\<rparr>) = ram_block l" "ram_block (l\<lparr>ram_request := r\<rparr>) = ram_block l"
  "ram_block (l\<lparr>ram_left := ks\<rparr>) = ram_block l" "ram_block (l\<lparr>ram_ready := b\<rparr>) = ram_block l"
  by (auto simp: ram_block_def)

lemma ram_block_write:
  "wf_block d \<Longrightarrow> ram_byte l' = (ram_byte l)(x := (!) d) \<Longrightarrow> ram_block l' = (ram_block l)(x := d)"
  by (auto simp: ram_block_def wf_block_def fun_eq_iff intro: nth_equalityI)

lemma ram_block_wf: "wf_blocks (ram_block l)"
  by (simp add: wf_blocks_def wf_block_def ram_block_def)

abbreviation ram_record :: "ram \<Rightarrow> (ram recorder, unit) world" where
  "ram_record l \<equiv> recording (ram_world l)"

text \<open>Nothing happens below the front end.\<close>

lemma ram_below:
  assumes "w_backend_job w = None" "w_crypto w = Initialized_Object"
  shows "handle_cbe_backend (ram_record l) w = Inr (w, False)"
    and "handle_crypto (ram_record l) w = Some (Inr (w, False))"
proof -
  show "handle_cbe_backend (ram_record l) w = Inr (w, False)"
    using assms(1) by (simp add: handle_cbe_backend_def has_io_request_def ram_idle_calls)
  have passes: "add_key_pass (ram_record l) (w, False) = Break (w, False)"
    "remove_key_pass (ram_record l) (w, False) = Break (w, False)"
    "encrypt_pass (ram_record l) (w, False) = Break (w, False)"
    "encrypted_pass (ram_record l) (w, False) = Break (w, False)"
    "decrypt_pass (ram_record l) (w, False) = Break (w, False)"
    "decrypted_pass (ram_record l) (w, False) = Break (w, False)"
    using assms(2)
    by (simp_all add: add_key_pass_def remove_key_pass_def encrypt_pass_def encrypted_pass_def
        decrypt_pass_def decrypted_pass_def Let_def peek_idle ram_idle_calls
        crypto_add_key_required_def crypto_remove_key_required_def crypto_cipher_data_required_def
        crypto_plain_data_required_def)
  have same: "w\<lparr>w_crypto := Initialized_Object\<rparr> = w" using assms(2) by simp
  show "handle_crypto (ram_record l) w = Some (Inr (w, False))"
    by (simp add: handle_crypto_def crypto_execute_idle run_loop_Break passes same assms(2))
qed

text \<open>The run of an access to one whole block.\<close>

definition ram_wrapper ::
  "ram \<Rightarrow> exchange list \<Rightarrow> memory \<Rightarrow> frontend_request \<Rightarrow> block_buffer \<Rightarrow> block_buffer \<Rightarrow> (ram recorder, unit) wrapper" where
  "ram_wrapper l log m fr seen plain =
     (example_wrapper \<lparr> rec_lib = l, rec_plain = seen, rec_log = log \<rparr> ())
       \<lparr>w_memory := m, w_frontend := fr, w_plain_data := plain\<rparr>"

lemma ram_wrapper_sel [simp]:
  "w_cbe (ram_wrapper l log m fr seen plain) = \<lparr> rec_lib = l, rec_plain = seen, rec_log = log \<rparr>"
  "w_memory (ram_wrapper l log m fr seen plain) = m"
  "w_frontend (ram_wrapper l log m fr seen plain) = fr"
  "w_plain_data (ram_wrapper l log m fr seen plain) = plain"
  "w_cbe_constructed (ram_wrapper l log m fr seen plain)"
  "w_backend_job (ram_wrapper l log m fr seen plain) = None"
  "w_crypto (ram_wrapper l log m fr seen plain) = Initialized_Object"
  "\<not> w_debug (ram_wrapper l log m fr seen plain)"
  "w_helper_read (ram_wrapper l log m fr seen plain) = helper_init"
  "w_helper_write (ram_wrapper l log m fr seen plain) = helper_init"
  "w_io_data (ram_wrapper l log m fr seen plain) = new_buffer"
  "w_cipher_data (ram_wrapper l log m fr seen plain) = new_buffer"
  by (simp_all add: ram_wrapper_def) (simp_all add: example_wrapper_def wrapper_members_def)

lemma ram_wrapper_upd [simp]:
  "(ram_wrapper l log m fr seen plain)\<lparr>w_cbe := \<lparr> rec_lib = l', rec_plain = seen', rec_log = log' \<rparr>\<rparr>
     = ram_wrapper l' log' m fr seen' plain"
  "(ram_wrapper l log m fr seen plain)\<lparr>w_memory := m'\<rparr> = ram_wrapper l log m' fr seen plain"
  "(ram_wrapper l log m fr seen plain)\<lparr>w_frontend := fr'\<rparr> = ram_wrapper l log m fr' seen plain"
  "(ram_wrapper l log m fr seen plain)\<lparr>w_plain_data := plain'\<rparr> = ram_wrapper l log m fr seen plain'"
  "(ram_wrapper l log m fr seen plain)\<lparr>w_io_data := new_buffer, w_cipher_data := new_buffer\<rparr>
     = ram_wrapper l log m fr seen plain"
  "(ram_wrapper l log m fr seen plain)\<lparr>w_io_data := new_buffer, w_plain_data := plain', w_cipher_data := new_buffer\<rparr>
     = ram_wrapper l log m fr seen plain'"
  by (simp_all add: ram_wrapper_def example_wrapper_def wrapper_members_def)

lemma ram_pass:
  "handle_cbe_frontend (ram_record l0) (ram_wrapper l log m fr seen plain)
     = Some (Inr (ram_wrapper l' log' m' fr' seen' plain', p)) \<Longrightarrow>
   handle_frontend_pass (ram_record l0) (ram_wrapper l log m fr seen plain)
     = Some (Inr (ram_wrapper l' log' m' fr' seen' plain', p))"
  by (simp add: handle_frontend_pass_def ram_below dump_state_def)

lemmas ram_front_defs =
  handle_cbe_frontend_def submit_helper_requests_def submit_pending_request_def execute_library_def
  complete_requests_def complete_request_def finish_helper_read_def finish_helper_write_def
  deliver_read_data_def take_write_data_def ram_calls recorded_calls on_lib_def with_log_def
  request_out_of_range_def client_op_def ram_moving_def ram_moves_def ram_next_def

lemma ram_read_pass:
  assumes "ram_count l = 0" "fr_state fr = F_PENDING" "fr_cbe_request fr = make_request READ False 0 buf 1 0 0"
    "buf \<noteq> 0" "fr_snap_id fr = 0"
  shows "handle_cbe_frontend (ram_record l0) (ram_wrapper l log m fr seen plain) =
    Some (Inr (ram_wrapper (l\<lparr>ram_count := 1, ram_request := fr_cbe_request fr, ram_left := [], ram_ready := False\<rparr>)
      (Handed_out (fr_cbe_request fr) 0 (ram_block l 0) # Sent (fr_cbe_request fr) 0 # log)
      (mem_write m buf (ram_block l 0)) (fr\<lparr>fr_state := F_IN_PROGRESS\<rparr>) [ram_block l 0] [ram_block l 0], True))"
  using assms
  by (simp add: ram_front_defs Let_def run_loop_Break item_def)

lemma ram_write_pass:
  assumes "ram_count l = 0" "fr_state fr = F_PENDING" "fr_cbe_request fr = make_request WRITE False 0 buf 1 0 0"
    "buf \<noteq> 0" "fr_snap_id fr = 0"
  shows "handle_cbe_frontend (ram_record l0) (ram_wrapper l log m fr seen plain) =
    Some (Inr (ram_wrapper (l\<lparr>ram_count := 1, ram_request := fr_cbe_request fr,
        ram_byte := (ram_byte l)(0 := (!) (mem_read m buf 4096)), ram_left := [0], ram_ready := False\<rparr>)
      (Handed_in (fr_cbe_request fr) 0 (mem_read m buf 4096) # Sent (fr_cbe_request fr) 0 # log)
      m (fr\<lparr>fr_state := F_IN_PROGRESS\<rparr>) plain plain, True))"
  using assms
  by (simp add: ram_front_defs Let_def run_loop_Break)

lemma ram_again_pass:
  assumes "ram_count l = 1" "ram_request l = make_request WRITE False 0 buf 1 0 0" "ram_left l = [0]"
    "buf \<noteq> 0" "fr_state fr = F_IN_PROGRESS"
  shows "handle_cbe_frontend (ram_record l0) (ram_wrapper l log m fr seen plain) =
    Some (Inr (ram_wrapper (l\<lparr>ram_byte := (ram_byte l)(0 := (!) (mem_read m buf 4096)), ram_left := [],
        ram_ready := False\<rparr>)
      (Handed_in (ram_request l) 0 (mem_read m buf 4096) # log) m fr plain plain, True))"
  using assms
  by (simp add: ram_front_defs Let_def run_loop_Break)

lemma ram_completion_pass:
  assumes "ram_count l = 1" "ram_left l = []" "req_operation (ram_request l) = READ \<or> req_operation (ram_request l) = WRITE"
    "fr_state fr = F_IN_PROGRESS"
  shows "handle_cbe_frontend (ram_record l0) (ram_wrapper l log m fr seen plain) =
    Some (Inr (ram_wrapper (l\<lparr>ram_count := 0\<rparr>) (Client_completed (set_success (ram_request l) True) # log) m
      (fr\<lparr>fr_state := F_COMPLETE, fr_cbe_request := set_success (fr_cbe_request fr) True\<rparr>) plain plain, True))"
proof -
  let ?fr = "fr\<lparr>fr_state := F_COMPLETE, fr_cbe_request := set_success (fr_cbe_request fr) True\<rparr>"
  let ?l = "l\<lparr>ram_count := 0\<rparr>" and ?log = "Client_completed (set_success (ram_request l) True) # log"
  let ?w = "ram_wrapper ?l ?log m ?fr plain plain"
  have still: "execute_library (ram_record l0) (ram_wrapper l log m fr seen plain) = ram_wrapper l log m fr plain plain"
    using assms(2) by (simp add: execute_library_def ram_calls recorded_calls ram_moving_def)
  have "complete_request (ram_record l0) (ram_wrapper l log m fr plain plain, False) = Continue (?w, True)"
    using assms(3)
    by (elim disjE)
      (simp_all add: complete_request_def ram_calls recorded_calls on_lib_def with_log_def valid_def client_op_def Let_def
        assms(1,2))
  moreover have "complete_request (ram_record l0) (?w, True) = Break (?w, True)"
    by (simp add: complete_request_def ram_calls Let_def)
  ultimately have "complete_requests (ram_record l0) (ram_wrapper l log m fr plain plain) False = Some (Inr (?w, True))"
    by (simp add: complete_requests_def run_loop_Continue run_loop_Break)
  moreover have "submit_pending_request (ram_record l0) (submit_helper_requests (ram_record l0) (ram_wrapper l log m fr seen plain))
      = (ram_wrapper l log m fr seen plain, False)"
    using assms(4) by (simp add: submit_helper_requests_def submit_pending_request_def Let_def)
  moreover have "deliver_read_data (ram_record l0) ?w True = Inr (?w, True, False)"
    "take_write_data (ram_record l0) ?w True = Inr (?w, True)"
    by (simp_all add: deliver_read_data_def take_write_data_def ram_calls recorded_calls ram_moving_def Let_def)
  ultimately show ?thesis
    by (simp add: handle_cbe_frontend_def still finish_helper_read_def finish_helper_write_def ram_calls Let_def)
qed

lemma ram_idle_pass:
  assumes "ram_count l = 0" "fr_state fr = F_COMPLETE"
  shows "handle_cbe_frontend (ram_record l0) (ram_wrapper l log m fr plain plain)
    = Some (Inr (ram_wrapper l log m fr plain plain, False))"
  using assms by (simp add: ram_front_defs Let_def run_loop_Break)

lemmas ram_again = run_while_again [where body = "handle_frontend_pass (ram_record l0)" for l0]
lemmas ram_stop = run_while_stop [where body = "handle_frontend_pass (ram_record l0)" for l0]

lemma ram_end:
  assumes "ram_count l = 1" "ram_left l = []" "req_operation (ram_request l) = READ \<or> req_operation (ram_request l) = WRITE"
    "fr_state fr = F_IN_PROGRESS"
  shows "run_while (handle_frontend_pass (ram_record l0)) (ram_wrapper l log m fr seen plain) =
    Some (Inr (ram_wrapper (l\<lparr>ram_count := 0\<rparr>) (Client_completed (set_success (ram_request l) True) # log) m
      (fr\<lparr>fr_state := F_COMPLETE, fr_cbe_request := set_success (fr_cbe_request fr) True\<rparr>) plain plain))"
  using ram_again [OF ram_pass [OF ram_completion_pass [OF assms]]] ram_stop [OF ram_pass [OF ram_idle_pass]]
  by simp

lemma ram_request_run:
  assumes "run_while (handle_frontend_pass (ram_record l0)) (ram_wrapper l log m fr seen plain)
    = Some (Inr (ram_wrapper l1 log1 m1 fr1 seen1 plain1))"
  shows "handle_frontend_request (ram_record l0) (ram_wrapper l log m fr seen plain)
    = Some (Inr (ram_wrapper l1 log1 m1 fr1 seen1 plain1))"
  using assms
  by (simp add: handle_frontend_request_def update_background_state_def library_info_def ram_idle_calls Let_def)

definition block_handle :: data_handle where
  "block_handle = \<lparr> dh_id = 7, dh_seek = 0, dh_snap_id = 0 \<rparr>"

lemma block_handle_sel [simp]: "dh_id block_handle = 7" "dh_seek block_handle = 0" "dh_snap_id block_handle = 0"
  by (simp_all add: block_handle_def)

lemma aligned_block_request: "\<not> unaligned_request 0 4096"
  by (simp add: unaligned_request_def BLOCK_SIZE_def)

lemma submit_one_block:
  assumes "op \<noteq> SYNC" "fr_state fr = F_NONE"
  obtains fr' where "submit_frontend_request (ram_wrapper l log m fr seen plain) 0 buf 4096 op 0
      = (ram_wrapper l log m fr' seen plain, True)"
    "fr_state fr' = F_PENDING" "fr_cbe_request fr' = make_request op False 0 buf 1 0 0" "fr_count fr' = 4096"
    "fr_snap_id fr' = 0"
  using submit_aligned [of "ram_wrapper l log m fr seen plain" op 0 4096 buf 0] assms aligned_block_request that
  by (simp add: BLOCK_SIZE_def)

lemma ram_ack:
  "ack_frontend_request (ram_wrapper l log m fr seen plain)
     = ram_wrapper l log m (fr\<lparr>fr_state := F_NONE, fr_cbe_request := invalid_request\<rparr>) seen plain"
  by (simp add: ack_frontend_request_def) (simp add: ram_wrapper_def example_wrapper_def wrapper_members_def)

abbreviation block_request :: "operation \<Rightarrow> u64 \<Rightarrow> request" where
  "block_request op buf \<equiv> make_request op False 0 buf 1 0 0"

definition read_calls :: "(u64 \<Rightarrow> block_data) \<Rightarrow> u64 \<Rightarrow> exchange list" where
  "read_calls V buf =
     [Client_completed (set_success (make_request READ False 0 buf 1 0 0) True),
      Handed_out (make_request READ False 0 buf 1 0 0) 0 (V 0), Sent (make_request READ False 0 buf 1 0 0) 0]"

definition write_calls :: "block_data \<Rightarrow> u64 \<Rightarrow> exchange list" where
  "write_calls d buf =
     [Client_completed (set_success (make_request WRITE False 0 buf 1 0 0) True),
      Handed_in (make_request WRITE False 0 buf 1 0 0) 0 d, Handed_in (make_request WRITE False 0 buf 1 0 0) 0 d,
      Sent (make_request WRITE False 0 buf 1 0 0) 0]"

lemma ram_reads:
  assumes "ram_count l = 0" "fr_state fr = F_NONE" "buf \<noteq> 0"
  shows "\<exists>l' fr' seen' plain'. data_read (ram_record l0) block_handle buf 4096 (ram_wrapper l log m fr seen plain) =
      Some (Inr (ram_wrapper l' (read_calls (ram_block l) buf @ log) (mem_write m buf (ram_block l 0)) fr' seen' plain',
        READ_OK, Some 4096))"
proof -
  obtain fr1 where sub: "submit_frontend_request (ram_wrapper l log m fr seen plain) 0 buf 4096 READ 0
      = (ram_wrapper l log m fr1 seen plain, True)"
    and fr1: "fr_state fr1 = F_PENDING" "fr_cbe_request fr1 = make_request READ False 0 buf 1 0 0" "fr_count fr1 = 4096"
      "fr_snap_id fr1 = 0"
    using submit_one_block [of READ fr l log m seen plain buf] assms(2) by auto
  let ?l1 = "l\<lparr>ram_count := 1, ram_request := fr_cbe_request fr1, ram_left := [], ram_ready := False\<rparr>"
  note first = ram_again [OF ram_pass [OF ram_read_pass [OF assms(1) fr1(1,2) assms(3) fr1(4), of l0 log m seen plain]]]
  let ?fr = "fr1\<lparr>fr_state := F_IN_PROGRESS\<rparr>"
  have "run_while (handle_frontend_pass (ram_record l0)) (ram_wrapper l log m fr1 seen plain) =
      Some (Inr (ram_wrapper (?l1\<lparr>ram_count := 0\<rparr>) (read_calls (ram_block l) buf @ log) (mem_write m buf (ram_block l 0))
        (?fr\<lparr>fr_state := F_COMPLETE, fr_cbe_request := set_success (fr_cbe_request ?fr) True\<rparr>)
        [ram_block l 0] [ram_block l 0]))"
    unfolding first using fr1(2) by (subst ram_end) (simp_all add: read_calls_def)
  from ram_request_run [OF this] sub assms(2) fr1(3) show ?thesis
    by (simp add: data_read_def wrapper_client_request_acceptable_def ram_ack ram_calls) blast
qed

lemma ram_writes:
  assumes "ram_count l = 0" "fr_state fr = F_NONE" "buf \<noteq> 0"
  shows "\<exists>l' fr' seen' plain'. data_write (ram_record l0) block_handle buf 4096 (ram_wrapper l log m fr seen plain) =
      Some (Inr (ram_wrapper l' (write_calls (mem_read m buf 4096) buf @ log) m fr' seen' plain', Wrote WRITE_OK, Some 4096))
    \<and> ram_count l' = 0 \<and> fr_state fr' = F_NONE \<and> ram_block l' = (ram_block l)(0 := mem_read m buf 4096)"
proof -
  let ?d = "mem_read m buf 4096"
  obtain fr1 where sub: "submit_frontend_request (ram_wrapper l log m fr seen plain) 0 buf 4096 WRITE 0
      = (ram_wrapper l log m fr1 seen plain, True)"
    and fr1: "fr_state fr1 = F_PENDING" "fr_cbe_request fr1 = make_request WRITE False 0 buf 1 0 0" "fr_count fr1 = 4096"
      "fr_snap_id fr1 = 0"
    using submit_one_block [of WRITE fr l log m seen plain buf] assms(2) by auto
  let ?l1 = "l\<lparr>ram_count := 1, ram_request := fr_cbe_request fr1, ram_byte := (ram_byte l)(0 := (!) ?d), ram_left := [0],
      ram_ready := False\<rparr>"
  let ?l2 = "?l1\<lparr>ram_byte := (ram_byte ?l1)(0 := (!) ?d), ram_left := [], ram_ready := False\<rparr>" and ?fr = "fr1\<lparr>fr_state := F_IN_PROGRESS\<rparr>"
  note first = ram_again [OF ram_pass [OF ram_write_pass [OF assms(1) fr1(1,2) assms(3) fr1(4), of l0 log m seen plain]]]
  note second = ram_again [OF ram_pass [OF ram_again_pass [of ?l1 buf ?fr l0]]]
  have "run_while (handle_frontend_pass (ram_record l0)) (ram_wrapper l log m fr1 seen plain) =
      Some (Inr (ram_wrapper (?l2\<lparr>ram_count := 0\<rparr>) (write_calls ?d buf @ log) m
        (?fr\<lparr>fr_state := F_COMPLETE, fr_cbe_request := set_success (fr_cbe_request ?fr) True\<rparr>) plain plain))"
    unfolding first using fr1(2) assms(3)
    by (subst second, simp_all) (subst ram_end, simp_all add: write_calls_def)
  from ram_request_run [OF this] sub assms(2) fr1(3) show ?thesis
    by (simp add: data_write_def wrapper_client_request_acceptable_def ram_ack ram_calls)
      (intro exI conjI, rule refl, simp_all, rule ram_block_write, simp_all add: wf_block_def)
qed

definition ram_init :: ram where
  "ram_init = \<lparr> ram_byte = (\<lambda>x k. ucast x + of_nat k), ram_count = 0, ram_request = invalid_request,
    ram_left = [], ram_ready = False \<rparr>"

lemma ram_init_count [simp]: "ram_count ram_init = 0"
  by (simp add: ram_init_def)

definition ram_start :: "memory \<Rightarrow> (ram recorder, unit) wrapper" where
  "ram_start m = ram_wrapper ram_init [] m frontend_init [] new_buffer"

lemma ram_start_run: "plugin_run (ram_world ram_init) ram_count example_parsers (ram_start m)"
proof -
  let ?config = "\<lparr> cfg_verbose = None, cfg_debug = None, cfg_block = None \<rparr>"
  let ?l = "\<lparr> rec_lib = ram_init, rec_plain = [], rec_log = [] \<rparr>"
  have "new_wrapper (ram_record ram_init) ?config (wrapper_members () ?l 65536 131072 m) = Inr (ram_start m)"
    by (simp add: new_wrapper_def initialize_cbe_def read_config_def ram_start_def ram_wrapper_def example_wrapper_def
        recording_def example_world_def wrapper_members_def frontend_init_def attribute_value_def)
  from plugin_reach.created [OF this, of example_parsers] show ?thesis
    using ram_contract unfolding plugin_run_def
    by (intro conjI exI [of _ ?config] exI) (simp_all, simp add: example_world_def)
qed

lemma ram_start_sel [simp]:
  "fr_state (w_frontend (ram_start m)) = F_NONE" "w_memory (ram_start m) = m" "rec_log (w_cbe (ram_start m)) = []"
  by (simp_all add: ram_start_def)

lemma calls_between_ram:
  "calls_between (ram_start m) (ram_wrapper l log m' fr seen plain) = log"
  by (simp add: calls_between_def log_since_def)

lemmas exchange_defs =
  read_calls_def write_calls_def asks_for_def blocks_of_def set_success_def

theorem data_read_refines_file_witness:
  "\<exists>w'. data_read (ram_record ram_init) block_handle 8192 4096 (ram_start (\<lambda>a. 0)) = Some (Inr (w', READ_OK, Some 4096))
     \<and> w_memory w' = mem_write (\<lambda>a. 0) 8192 (file_read (ram_block ram_init) 0 4096)"
proof -
  obtain l' fr' seen' plain' where w': "data_read (ram_record ram_init) block_handle 8192 4096 (ram_start (\<lambda>a. 0))
      = Some (Inr (ram_wrapper l' (read_calls (ram_block ram_init) 8192) (mem_write (\<lambda>a. 0) 8192 (ram_block ram_init 0))
          fr' seen' plain', READ_OK, Some 4096))"
    using ram_reads [OF ram_init_count, of frontend_init 8192 ram_init "[]" "\<lambda>a. 0" "[]" new_buffer]
    by (auto simp: ram_start_def)
  have "served (\<lambda>s. ram_block ram_init) (read_calls (ram_block ram_init) 8192)"
    by (simp add: exchange_defs)
  from data_read_refines_file [OF ram_start_run _ _ while_waiting.start w', of "\<lambda>s. ram_block ram_init"]
    this ram_block_wf w' show ?thesis by (simp add: calls_between_ram)
qed

theorem data_write_refines_file_witness:
  "\<exists>w'. data_write (ram_record ram_init) block_handle 8192 4096 (ram_start (\<lambda>a. 7)) = Some (Inr (w', Wrote WRITE_OK, Some 4096))
     \<and> device_blocks (\<lambda>s. ram_block ram_init) (calls_between (ram_start (\<lambda>a. 7)) w') 0
       = file_write (ram_block ram_init) 0 (mem_read (\<lambda>a. 7) 8192 4096)"
proof -
  obtain l' fr' seen' plain' where w': "data_write (ram_record ram_init) block_handle 8192 4096 (ram_start (\<lambda>a. 7))
      = Some (Inr (ram_wrapper l' (write_calls (mem_read (\<lambda>a. 7) 8192 4096) 8192) (\<lambda>a. 7) fr' seen' plain',
          Wrote WRITE_OK, Some 4096))"
    using ram_writes [OF ram_init_count, of frontend_init 8192 ram_init "[]" "\<lambda>a. 7" "[]" new_buffer]
    by (auto simp: ram_start_def)
  have "served (\<lambda>s. ram_block ram_init) (write_calls (mem_read (\<lambda>a. 7) 8192 4096) 8192)"
    by (simp add: exchange_defs)
  from data_write_refines_file [OF ram_start_run _ _ while_waiting.start w', of "\<lambda>s. ram_block ram_init"]
    this ram_block_wf w' show ?thesis by (simp add: calls_between_ram)
qed

theorem written_data_is_read_witness:
  "\<exists>w2 w4. data_write (ram_record ram_init) block_handle 8192 4096 (ram_start (\<lambda>a. ucast a))
       = Some (Inr (w2, Wrote WRITE_OK, Some 4096))
     \<and> data_read (ram_record ram_init) block_handle 16384 4096 (w2\<lparr>w_memory := (\<lambda>a. 0)\<rparr>) = Some (Inr (w4, READ_OK, Some 4096))
     \<and> w_memory w4 = mem_write (\<lambda>a. 0) 16384 (mem_read (\<lambda>a. ucast a) 8192 4096)"
proof -
  let ?w = "ram_start (\<lambda>a. ucast a)" and ?d = "mem_read (\<lambda>a. ucast a) 8192 4096"
  obtain l2 fr2 seen2 plain2 where w2: "data_write (ram_record ram_init) block_handle 8192 4096 ?w
      = Some (Inr (ram_wrapper l2 (write_calls ?d 8192) (\<lambda>a. ucast a) fr2 seen2 plain2, Wrote WRITE_OK, Some 4096))"
      "ram_count l2 = 0" "fr_state fr2 = F_NONE" "ram_block l2 = (ram_block ram_init)(0 := ?d)"
    using ram_writes [OF ram_init_count, of frontend_init 8192 ram_init "[]" "\<lambda>a. ucast a" "[]" new_buffer]
    by (auto simp: ram_start_def)
  let ?log = "read_calls (ram_block l2) 16384 @ write_calls ?d 8192"
  obtain l4 m4 fr4 seen4 plain4 where w4: "data_read (ram_record ram_init) block_handle 16384 4096
      ((ram_wrapper l2 (write_calls ?d 8192) (\<lambda>a. ucast a) fr2 seen2 plain2)\<lparr>w_memory := (\<lambda>a. 0)\<rparr>)
      = Some (Inr (ram_wrapper l4 ?log m4 fr4 seen4 plain4, READ_OK, Some 4096))"
    using ram_reads [OF w2(2,3), of 16384 ram_init "write_calls ?d 8192" "\<lambda>a. 0" seen2 plain2] by auto
  have "served (\<lambda>s. ram_block ram_init) ?log"
    by (simp add: exchange_defs w2(4))
  from written_data_is_read [OF ram_start_run _ _ while_waiting.start w2(1) while_waiting.start w4,
      of "\<lambda>s. ram_block ram_init"] this ram_block_wf w2(1) w4
  show ?thesis by (auto simp: calls_between_ram)
qed

end
