(* ===== verification/Wrapper_Transfer.thy ===== *)
theory Wrapper_Transfer
  imports Wrapper_Phases
begin

text \<open>
  The transfer of the blocks of an aligned access between client memory and the library.

  A read of several blocks is delivered block by block, in the order the library chooses and
  interleaved with the other handlers. \<open>read_run\<close> is such a sequence of steps, with the list of
  the deliveries; the blocks end up where the client wants them, whatever the order.
\<close>

section \<open>One block\<close>

definition block_address :: "request \<Rightarrow> u64 \<Rightarrow> u64" where
  "block_address r k = req_offset r + k * BLOCK_SIZE"

lemma deliver_read_data_block:
  assumes "h_state (w_helper_read w) \<noteq> H_IN_PROGRESS"
    and "client_data_ready (world_lib E) (w_cbe w) = (r, l)" "req_operation r = READ"
    and "deliver_read_data E w p = Inr (w', p', False)"
    and "obtain_client_data (world_lib E) l r (- 1) = ((True, i), l2)" "item (w_plain_data w) i = Inr b"
  shows "w_memory w' = mem_write (w_memory w) (block_address r (client_data_index (world_lib E) l r)) b"
    "w_frontend w' = w_frontend w" "w_helper_read w' = w_helper_read w" "w_helper_write w' = w_helper_write w"
  using assms
  by (auto simp: deliver_read_data_def Let_def valid_def block_address_def split: if_splits)

text \<open>The bytes handed to the library for a block of an aligned write.\<close>

lemma take_write_data_block:
  assumes "h_state (w_helper_write w) \<noteq> H_IN_PROGRESS" "fr_state (w_frontend w) = F_IN_PROGRESS"
    and "client_data_required (world_lib E) (w_cbe w) = (r, l)" "req_operation r = WRITE"
    and "client_data_index (world_lib E) l r \<noteq> - 1"
    and "block_address r (client_data_index (world_lib E) l r) \<noteq> 0"
  shows "take_write_data E w p =
     Inr (w\<lparr>w_cbe := snd (supply_client_data (world_lib E) l r
        (mem_read (w_memory w) (block_address r (client_data_index (world_lib E) l r)) 4096))\<rparr>, True)"
  using assms by (simp add: take_write_data_def Let_def valid_def block_address_def case_prod_unfold)

section \<open>A sequence of deliveries\<close>

inductive read_run :: "('l, 'f) world \<Rightarrow> u64 \<Rightarrow> nat \<Rightarrow> ('l, 'f) wrapper \<Rightarrow> (nat \<times> block_data) list \<Rightarrow> ('l, 'f) wrapper \<Rightarrow> bool"
  for E :: "('l, 'f) world" and base :: u64 and n :: nat and w :: "('l, 'f) wrapper"
  where
  start: "read_run E base n w [] w"
| other: "read_run E base n w ds w1 \<Longrightarrow> same_front w1 w2 \<Longrightarrow> read_run E base n w ds w2"
| block: "read_run E base n w ds w1 \<Longrightarrow> h_state (w_helper_read w1) \<noteq> H_IN_PROGRESS \<Longrightarrow>
    client_data_ready (world_lib E) (w_cbe w1) = (r, l) \<Longrightarrow> req_operation r = READ \<Longrightarrow> req_offset r = base \<Longrightarrow>
    client_data_index (world_lib E) l r = of_nat k \<Longrightarrow> k < n \<Longrightarrow>
    obtain_client_data (world_lib E) l r (- 1) = ((True, i), l2) \<Longrightarrow> item (w_plain_data w1) i = Inr b \<Longrightarrow>
    wf_block b \<Longrightarrow> deliver_read_data E w1 p = Inr (w2, p', False) \<Longrightarrow> read_run E base n w (ds @ [(k, b)]) w2"

text \<open>The distance of an address in block \<open>j\<close> from the start of block \<open>k\<close>, modulo the address space.\<close>

lemma block_distance:
  fixes base :: u64
  assumes "n * 4096 \<le> 2 ^ 64" "j < n" "k < n" "i < 4096"
  defines "d \<equiv> unat (base + of_nat j * BLOCK_SIZE + of_nat i - (base + of_nat k * BLOCK_SIZE))"
  shows "j = k \<Longrightarrow> d = i" "j \<noteq> k \<Longrightarrow> 4096 \<le> d"
proof -
  have bound: "m * 4096 + 4096 \<le> 2 ^ 64" if "m < n" for m
  proof -
    have "Suc m * 4096 \<le> n * 4096" using that by (intro mult_le_mono1) simp
    with assms(1) show ?thesis by simp
  qed
  obtain u v :: u64 where u: "u = of_nat (j * 4096 + i)" and v: "v = of_nat (k * 4096)" by simp
  have x: "unat u = j * 4096 + i"
    unfolding u using bound [OF assms(2)] assms(4) by (simp only: unat_of_nat) simp
  have y: "unat v = k * 4096"
    unfolding v using bound [OF assms(3)] by (simp only: unat_of_nat) simp
  have "base + of_nat j * BLOCK_SIZE + of_nat i - (base + of_nat k * BLOCK_SIZE) = u - v"
    by (simp add: u v BLOCK_SIZE_def)
  then have d: "d = (if k * 4096 \<le> j * 4096 + i then j * 4096 + i - k * 4096
      else j * 4096 + i + 2 ^ 64 - k * 4096)"
    unfolding d_def using unat_sub_if_size [of u v] by (simp only: x y) (simp add: word_size)
  show "j = k \<Longrightarrow> d = i" by (simp add: d)
  assume "j \<noteq> k"
  then consider "k < j" | "j < k" by linarith
  then show "4096 \<le> d"
  proof cases
    case 1
    then have "k * 4096 + 4096 \<le> j * 4096" by simp
    then show ?thesis by (simp add: d)
  next
    case 2
    then have "j * 4096 + 4096 \<le> k * 4096" by simp
    with assms(4) bound [OF assms(3)] show ?thesis by (simp add: d)
  qed
qed

lemma mem_read_mem_write_block:
  assumes "n * 4096 \<le> 2 ^ 64" "j < n" "k < n" "length b = 4096"
  shows "mem_read (mem_write m (base + of_nat k * BLOCK_SIZE) b) (base + of_nat j * BLOCK_SIZE) 4096
     = (if j = k then b else mem_read m (base + of_nat j * BLOCK_SIZE) 4096)"
proof (cases "j = k")
  case True
  with block_distance(1) [OF assms(1-3)] assms(4) show ?thesis
    by (auto simp: mem_read_def mem_write_def intro!: nth_equalityI)
next
  case False
  have "mem_write m (base + of_nat k * BLOCK_SIZE) b (base + of_nat j * BLOCK_SIZE + of_nat i)
      = m (base + of_nat j * BLOCK_SIZE + of_nat i)" if "i < 4096" for i
    by (rule mem_write_other) (use block_distance(2) [OF assms(1-3) that False] assms(4) in simp)
  with False show ?thesis by (simp add: mem_read_def)
qed

text \<open>The last delivery of block \<open>k\<close>.\<close>

definition delivered :: "(nat \<times> block_data) list \<Rightarrow> nat \<Rightarrow> block_data option" where
  "delivered ds k = map_of (rev ds) k"

text \<open>
  In a sequence of deliveries of the blocks of an aligned read, in any order and interleaved
  with steps of the other handlers, every block ends up at its own place in client memory: the
  memory of block j holds what was last delivered for it, or is unchanged if nothing was, and
  the phase of the request is unchanged.
\<close>

theorem blocks_arrive_in_place:
  assumes "read_run E base n w ds w'" "n * 4096 \<le> 2 ^ 64" "j < n"
  shows "mem_read (w_memory w') (base + of_nat j * BLOCK_SIZE) 4096
       = (case delivered ds j of Some b \<Rightarrow> b | None \<Rightarrow> mem_read (w_memory w) (base + of_nat j * BLOCK_SIZE) 4096)
     \<and> phase_of w' = phase_of w"
  using assms(1)
proof induction
  case start
  show ?case by (simp add: delivered_def)
next
  case (other ds w1 w2)
  then show ?case using same_front_phase [of w1 w2] by (simp add: same_front_def)
next
  case (block ds w1 r l k i l2 b p w2 p')
  note d = deliver_read_data_block [OF block.hyps(2-4) block.hyps(11,8,9)]
  have addr: "block_address r (client_data_index (world_lib E) l r) = base + of_nat k * BLOCK_SIZE"
    by (simp add: block_address_def block.hyps(5,6))
  have "phase_of w2 = phase_of w1" by (rule phase_of_cong) (simp_all add: d)
  moreover have "delivered (ds @ [(k, b)]) j = (if j = k then Some b else delivered ds j)"
    by (simp add: delivered_def)
  ultimately show ?case
    using block.IH d(1) addr mem_read_mem_write_block [OF assms(2,3) block.hyps(7)] block.hyps(10)
    by (simp add: wf_block_def)
qed

section \<open>Examples\<close>

text \<open>A library that delivers block 1 first and block 0 afterwards; its state counts the deliveries.\<close>

definition two_block_library :: "nat cbe_library" where
  "two_block_library =
     null_library\<lparr>lib_client_data_ready := (\<lambda>l r. (make_request READ False 0 8192 2 0 0, l)),
       client_data_index := (\<lambda>l r. if l = 0 then 1 else 0),
       lib_obtain_client_data := (\<lambda>l r i ok. ((True, 0), l + 1))\<rparr>"

definition two_block_wrapper :: "(nat, unit) wrapper" where
  "two_block_wrapper =
     (example_wrapper 0 ())\<lparr>w_frontend := frontend_init\<lparr>fr_state := F_IN_PROGRESS\<rparr>,
                            w_plain_data := [replicate 4096 7]\<rparr>"

abbreviation two_block_world :: "(nat, unit) world" where
  "two_block_world \<equiv> example_world two_block_library 0 empty_reader ()"

lemmas two_block_defs =
  two_block_library_def null_library_def client_data_ready_def obtain_client_data_def item_def

theorem blocks_arrive_in_place_witness:
  "\<exists>w'. read_run two_block_world 8192 2 two_block_wrapper
      [(1, replicate 4096 7), (0, replicate 4096 9)] w'
     \<and> mem_read (w_memory w') 8192 4096 = replicate 4096 9
     \<and> mem_read (w_memory w') 12288 4096 = replicate 4096 7"
proof -
  let ?E = two_block_world
  let ?m = "mem_write (w_memory two_block_wrapper) 12288 (replicate 4096 7)"
  let ?w1 = "two_block_wrapper\<lparr>w_cbe := 1, w_memory := ?m\<rparr>"
  let ?w2 = "?w1\<lparr>w_plain_data := [replicate 4096 9]\<rparr>"
  let ?w3 = "?w2\<lparr>w_cbe := 2, w_memory := mem_write ?m 8192 (replicate 4096 9)\<rparr>"
  let ?r = "make_request READ False 0 8192 2 0 0"
  have r1: "read_run ?E 8192 2 two_block_wrapper ([] @ [(1, replicate 4096 7)]) ?w1"
    by (rule read_run.block [OF read_run.start, where r = ?r and l = 0 and i = 0 and ?l2.0 = 1
          and p = False and p' = True])
      (simp_all add: two_block_wrapper_def two_block_defs deliver_read_data_def Let_def wf_block_def
        BLOCK_SIZE_def)
  have r2: "read_run ?E 8192 2 two_block_wrapper ([] @ [(1, replicate 4096 7)]) ?w2"
    by (rule read_run.other [OF r1]) (simp add: same_front_def)
  have "read_run ?E 8192 2 two_block_wrapper (([] @ [(1, replicate 4096 7)]) @ [(0, replicate 4096 9)]) ?w3"
    by (rule read_run.block [OF r2, where r = ?r and l = 1 and i = 0 and ?l2.0 = 2
          and p = False and p' = True])
      (simp_all add: two_block_wrapper_def two_block_defs deliver_read_data_def Let_def wf_block_def
        BLOCK_SIZE_def)
  then have run: "read_run ?E 8192 2 two_block_wrapper [(1, replicate 4096 7), (0, replicate 4096 9)] ?w3"
    by simp
  show ?thesis
    using run blocks_arrive_in_place [OF run, of 0] blocks_arrive_in_place [OF run, of 1]
    by (auto simp: delivered_def BLOCK_SIZE_def)
qed

end
