(* ===== verification/Vfs_Replay.thy ===== *)
theory Vfs_Replay
  imports Io_Job
begin

text \<open>
  The replay tool (\<open>src/app/vfs_replay/component.cc\<close>): it plays a list of read, write and sync
  requests from its configuration against one file.

  A request is another transfer in pieces, with the same states as the plugin's I/O job: the
  contract \<open>transfer_job\<close> is interpreted again for \<open>replay_read\<close> and \<open>replay_write\<close>. One call
  walks through the states by fallthrough, so each state is one definition that calls the next.
  \<open>process_replay\<close> is the loop over the requests.
\<close>

section \<open>State\<close>

datatype replay_type = RT_INVALID | RT_READ | RT_WRITE | RT_SYNC

fun type_to_string :: "replay_type \<Rightarrow> string" where
  "type_to_string RT_INVALID = ''INVALID''"
| "type_to_string RT_READ = ''READ''"
| "type_to_string RT_WRITE = ''WRITE''"
| "type_to_string RT_SYNC = ''SYNC''"

datatype replay_state =
    RS_NONE
  | READ_PENDING | READ_IN_PROGRESS | READ_COMPLETE
  | WRITE_PENDING | WRITE_IN_PROGRESS | WRITE_COMPLETE
  | SYNC_PENDING | SYNC_IN_PROGRESS | SYNC_COMPLETE
  | RS_ERROR

fun replay_state_to_string :: "replay_state \<Rightarrow> string" where
  "replay_state_to_string RS_NONE = ''NONE''"
| "replay_state_to_string READ_PENDING = ''READ_PENDING''"
| "replay_state_to_string READ_IN_PROGRESS = ''READ_IN_PROGRESS''"
| "replay_state_to_string READ_COMPLETE = ''READ_COMPLETE''"
| "replay_state_to_string WRITE_PENDING = ''WRITE_PENDING''"
| "replay_state_to_string WRITE_IN_PROGRESS = ''WRITE_IN_PROGRESS''"
| "replay_state_to_string WRITE_COMPLETE = ''WRITE_COMPLETE''"
| "replay_state_to_string SYNC_PENDING = ''SYNC_PENDING''"
| "replay_state_to_string SYNC_IN_PROGRESS = ''SYNC_IN_PROGRESS''"
| "replay_state_to_string SYNC_COMPLETE = ''SYNC_COMPLETE''"
| "replay_state_to_string RS_ERROR = ''ERROR''"

record replay_request =
  rr_type :: replay_type
  rr_state :: replay_state
  rr_offset :: u64
  rr_count :: u64
  rr_out_count :: u64
  rr_current_offset :: u64
  rr_current_count :: u64
  rr_success :: bool
  rr_complete :: bool

definition rr_pending :: "replay_request \<Rightarrow> bool" where
  "rr_pending r \<longleftrightarrow> rr_state r \<noteq> RS_NONE"

definition print_replay_request :: "replay_request \<Rightarrow> out_item list" where
  "print_replay_request r =
     [OStr ''[ type: '', OStr (type_to_string (rr_type r)),
      OStr '' state: '', OStr (replay_state_to_string (rr_state r)),
      OStr '' offset: '', OU64 (rr_offset r), OStr '' count: '', OU64 (rr_count r),
      OStr '' out_count: '', OU64 (rr_out_count r),
      OStr '' current_offset: '', OU64 (rr_current_offset r),
      OStr '' current_count: '', OU64 (rr_current_count r),
      OStr '' success: '', OBool (rr_success r), OStr '' complete: '', OBool (rr_complete r),
      OStr '' ]'']"

definition replay_string_to_type :: "string \<Rightarrow> replay_type" where
  "replay_string_to_type s =
     (if take 4 s = ''read'' then RT_READ
      else if take 5 s = ''write'' then RT_WRITE
      else if take 4 s = ''sync'' then RT_SYNC
      else RT_INVALID)"

text \<open>What a call of the request's functions can change; the write buffer is never changed.\<close>

record 'f replay_env =
  re_request :: replay_request
  re_file :: 'f
  re_read_buffer :: bytes
  re_write_buffer :: bytes

section \<open>Reading\<close>

definition set_state :: "replay_state \<Rightarrow> 'f replay_env \<Rightarrow> 'f replay_env" where
  "set_state st e = e\<lparr>re_request := (re_request e)\<lparr>rr_state := st\<rparr>\<rparr>"

definition replay_complete :: "'f replay_env \<Rightarrow> 'f replay_env \<times> bool" where
  "replay_complete e =
     (e\<lparr>re_request := (re_request e)\<lparr>rr_state := RS_NONE, rr_complete := True\<rparr>\<rparr>, True)"

text \<open>
  The code after a call of the VFS: \<open>st\<close> is the state to go back to when bytes are left.
\<close>

definition replay_answer ::
  "replay_state \<Rightarrow> bool \<Rightarrow> answer \<Rightarrow> 'f replay_env \<Rightarrow> 'f replay_env \<times> bool" where
  "replay_answer st progress a e =
     (case a of
        Wait \<Rightarrow> (e, progress)
      | Moved out \<Rightarrow>
          (let r = re_request e;
               r' = r\<lparr>rr_current_offset := rr_current_offset r + out,
                      rr_current_count := rr_current_count r - out, rr_success := True\<rparr>;
               e' = e\<lparr>re_request := r'\<rparr>
           in if rr_current_count r' = 0 then replay_complete e' else (set_state st e', progress))
      | Failed \<Rightarrow> replay_complete (e\<lparr>re_request := (re_request e)\<lparr>rr_success := False\<rparr>\<rparr>))"

definition replay_read_in_progress ::
  "'f vfs_file \<Rightarrow> bool \<Rightarrow> 'f replay_env \<Rightarrow> 'f replay_env \<times> bool" where
  "replay_read_in_progress F progress e =
     (case vfs_complete_read F (re_file e) (rr_current_count (re_request e)) of
        ((result, out, bs), f') \<Rightarrow>
          replay_answer READ_PENDING progress (read_answer result out)
            (e\<lparr>re_file := f', re_read_buffer := overwrite (re_read_buffer e) 0 bs\<rparr>))"

definition replay_read_pending ::
  "'f vfs_file \<Rightarrow> bool \<Rightarrow> 'f replay_env \<Rightarrow> 'f replay_env \<times> bool" where
  "replay_read_pending F progress e =
     (let r = re_request e in
      case vfs_queue_read F (vfs_seek F (re_file e) (rr_current_offset r)) (rr_current_count r) of
        (queued, f1) \<Rightarrow>
          if \<not> queued then (e\<lparr>re_file := f1\<rparr>, progress)
          else replay_read_in_progress F True (set_state READ_IN_PROGRESS (e\<lparr>re_file := f1\<rparr>)))"

definition replay_read :: "'f vfs_file \<Rightarrow> 'f replay_env \<Rightarrow> exn + ('f replay_env \<times> bool)" where
  "replay_read F e =
     (case rr_state (re_request e) of
        RS_NONE \<Rightarrow>
          if unat (rr_count (re_request e)) > length (re_read_buffer e) then Inl Buffer_too_small
          else Inr (replay_read_pending F True (set_state READ_PENDING e))
      | READ_PENDING \<Rightarrow> Inr (replay_read_pending F False e)
      | READ_IN_PROGRESS \<Rightarrow> Inr (replay_read_in_progress F False e)
      | READ_COMPLETE \<Rightarrow> Inr (replay_complete e)
      | _ \<Rightarrow> Inr (e, False))"

section \<open>Writing and synchronising\<close>

definition replay_write_in_progress ::
  "'f vfs_file \<Rightarrow> bool \<Rightarrow> 'f replay_env \<Rightarrow> 'f replay_env \<times> bool" where
  "replay_write_in_progress F progress e =
     (let n = rr_current_count (re_request e) in
      case vfs_write F (re_file e) (take (unat n) (re_write_buffer e)) n of
        ((outcome, out), f') \<Rightarrow>
          replay_answer WRITE_PENDING progress (write_answer outcome out) (e\<lparr>re_file := f'\<rparr>))"

definition replay_write_pending ::
  "'f vfs_file \<Rightarrow> bool \<Rightarrow> 'f replay_env \<Rightarrow> 'f replay_env \<times> bool" where
  "replay_write_pending F progress e =
     replay_write_in_progress F True
       (set_state WRITE_IN_PROGRESS
         (e\<lparr>re_file := vfs_seek F (re_file e) (rr_current_offset (re_request e))\<rparr>))"

definition replay_write :: "'f vfs_file \<Rightarrow> 'f replay_env \<Rightarrow> exn + ('f replay_env \<times> bool)" where
  "replay_write F e =
     (case rr_state (re_request e) of
        RS_NONE \<Rightarrow>
          if unat (rr_count (re_request e)) > length (re_write_buffer e) then Inl Buffer_too_small
          else Inr (replay_write_pending F True (set_state WRITE_PENDING e))
      | WRITE_PENDING \<Rightarrow> Inr (replay_write_pending F False e)
      | WRITE_IN_PROGRESS \<Rightarrow> Inr (replay_write_in_progress F False e)
      | WRITE_COMPLETE \<Rightarrow> Inr (replay_complete e)
      | _ \<Rightarrow> Inr (e, False))"

definition replay_sync_in_progress ::
  "'f vfs_file \<Rightarrow> bool \<Rightarrow> 'f replay_env \<Rightarrow> 'f replay_env \<times> bool" where
  "replay_sync_in_progress F progress e =
     (case vfs_complete_sync F (re_file e) of
        (result, f') \<Rightarrow>
          (let e1 = e\<lparr>re_file := f'\<rparr> in
           case result of
             SYNC_QUEUED \<Rightarrow> (e1, progress)
           | SYNC_ERR_INVALID \<Rightarrow> replay_complete (e1\<lparr>re_request := (re_request e1)\<lparr>rr_success := False\<rparr>\<rparr>)
           | SYNC_OK \<Rightarrow> replay_complete (e1\<lparr>re_request := (re_request e1)\<lparr>rr_success := True\<rparr>\<rparr>)))"

definition replay_sync_pending ::
  "'f vfs_file \<Rightarrow> bool \<Rightarrow> 'f replay_env \<Rightarrow> 'f replay_env \<times> bool" where
  "replay_sync_pending F progress e =
     (case vfs_queue_sync F (re_file e) of
        (queued, f1) \<Rightarrow>
          if \<not> queued then (e\<lparr>re_file := f1\<rparr>, progress)
          else replay_sync_in_progress F True (set_state SYNC_IN_PROGRESS (e\<lparr>re_file := f1\<rparr>)))"

definition replay_sync :: "'f vfs_file \<Rightarrow> 'f replay_env \<Rightarrow> exn + ('f replay_env \<times> bool)" where
  "replay_sync F e =
     (case rr_state (re_request e) of
        RS_NONE \<Rightarrow> Inr (replay_sync_pending F True (set_state SYNC_PENDING e))
      | SYNC_PENDING \<Rightarrow> Inr (replay_sync_pending F False e)
      | SYNC_IN_PROGRESS \<Rightarrow> Inr (replay_sync_in_progress F False e)
      | SYNC_COMPLETE \<Rightarrow> Inr (replay_complete e)
      | _ \<Rightarrow> Inr (e, False))"

section \<open>The loop over the requests\<close>

record replay_node =
  rn_type :: "string option"
  rn_offset :: "u64 option"
  rn_count :: "u64 option"

record 'f replay =
  rp_env :: "'f replay_env"
  rp_nodes :: "replay_node list"
  rp_node :: replay_node
  rp_id :: u32
  rp_finished :: bool
  rp_exits :: "int list"

text \<open>An absent attribute has its default value; the type is a string of at most 15 characters.\<close>

definition node_request :: "replay_node \<Rightarrow> replay_request \<Rightarrow> replay_request" where
  "node_request node r =
     (let offset = (case rn_offset node of None \<Rightarrow> - 1 | Some x \<Rightarrow> x);
          count = (case rn_count node of None \<Rightarrow> - 1 | Some x \<Rightarrow> x);
          type = replay_string_to_type (take 15 (case rn_type node of None \<Rightarrow> '''' | Some s \<Rightarrow> s))
      in if type = RT_INVALID then r\<lparr>rr_type := RT_INVALID\<rparr>
         else \<lparr> rr_type = type, rr_state = RS_NONE, rr_offset = offset, rr_count = count,
                rr_out_count = 0, rr_current_offset = offset, rr_current_count = count,
                rr_success = False, rr_complete = False \<rparr>)"

definition handle_replay_request ::
  "'f vfs_file \<Rightarrow> replay_node \<Rightarrow> 'f replay_env \<Rightarrow> exn + ('f replay_env \<times> bool)" where
  "handle_replay_request F node e =
     (let e1 = (if rr_pending (re_request e) then e
                else e\<lparr>re_request := node_request node (re_request e)\<rparr>) in
      case rr_type (re_request e1) of
        RT_READ \<Rightarrow> replay_read F e1
      | RT_WRITE \<Rightarrow> replay_write F e1
      | RT_SYNC \<Rightarrow> replay_sync F e1
      | RT_INVALID \<Rightarrow> Inr (e1\<lparr>re_request := (re_request e1)\<lparr>rr_complete := True\<rparr>\<rparr>, True))"

definition replay_pass ::
  "'f vfs_file \<Rightarrow> 'f replay \<times> bool \<Rightarrow> ('f replay \<times> bool, exn) loop_step" where
  "replay_pass F sf =
     (case sf of (s, failed) \<Rightarrow>
      case handle_replay_request F (rp_node s) (rp_env s) of
        Inl e \<Rightarrow> Throw e
      | Inr (env, progress) \<Rightarrow>
          (let s1 = s\<lparr>rp_env := env\<rparr> in
           if \<not> progress then Break (s1, failed)
           else if rr_complete (re_request env) then
             (if \<not> rr_success (re_request env) then Break (s1\<lparr>rp_finished := True\<rparr>, True)
              else
                (let next = rp_id s1 + 1 in
                 if unat next < length (rp_nodes s1)
                 then Continue (s1\<lparr>rp_id := next, rp_node := rp_nodes s1 ! unat next\<rparr>, failed)
                 else Break (s1\<lparr>rp_id := next, rp_finished := True\<rparr>, failed)))
           else Continue (s1, failed)))"

definition process_replay :: "'f vfs_file \<Rightarrow> 'f replay \<Rightarrow> 'f replay run" where
  "process_replay F s =
     bind_run (run_loop (replay_pass F) (s, False)) (\<lambda>(s1, failed).
       Some (Inr (if rp_finished s1 then s1\<lparr>rp_exits := rp_exits s1 @ [if failed then 1 else 0]\<rparr> else s1)))"

definition idle_replay_request :: replay_request where
  "idle_replay_request =
     \<lparr> rr_type = RT_INVALID, rr_state = RS_NONE, rr_offset = 0, rr_count = 0, rr_out_count = 0,
       rr_current_offset = 0, rr_current_count = 0, rr_success = False, rr_complete = False \<rparr>"

text \<open>The write buffer is filled with \<open>0x55\<close>. \<open>opened\<close> is the outcome of opening the file.\<close>

definition kick_off ::
  "'f vfs_file \<Rightarrow> 'f option \<Rightarrow> nat \<Rightarrow> bytes \<Rightarrow> replay_node list \<Rightarrow> 'f replay run" where
  "kick_off F opened write_size read_buffer nodes =
     (case opened of
        None \<Rightarrow> Some (Inl Genode_Exception)
      | Some f \<Rightarrow>
          (case nodes of
             [] \<Rightarrow> Some (Inl Nonexistent_sub_node)
           | node # _ \<Rightarrow>
               process_replay F
                 \<lparr> rp_env = \<lparr> re_request = idle_replay_request, re_file = f,
                              re_read_buffer = read_buffer,
                              re_write_buffer = replicate write_size 0x55 \<rparr>,
                   rp_nodes = nodes, rp_node = node, rp_id = 0, rp_finished = False,
                   rp_exits = [] \<rparr>))"

definition io_progress_response_handler :: "'f vfs_file \<Rightarrow> 'f replay \<Rightarrow> 'f replay run" where
  "io_progress_response_handler F s =
     (if rp_finished s then Some (Inr s) else process_replay F s)"

section \<open>The contract of a transfer\<close>

definition replay_ready :: "replay_request \<Rightarrow> bool" where
  "replay_ready r \<longleftrightarrow>
     rr_state r \<noteq> READ_COMPLETE \<and> rr_state r \<noteq> WRITE_COMPLETE
     \<and> (if rr_complete r \<and> rr_success r then rr_current_count r = 0 else True)"

lemma replay_answer_request:
  assumes "replay_answer st progress a e = (e', p)" "st \<noteq> READ_COMPLETE" "st \<noteq> WRITE_COMPLETE"
    and "\<not> rr_complete (re_request e)" "rr_state (re_request e) \<noteq> READ_COMPLETE"
      "rr_state (re_request e) \<noteq> WRITE_COMPLETE"
  shows "replay_ready (re_request e')"
  using assms
  by (auto simp: replay_answer_def replay_complete_def set_state_def replay_ready_def Let_def
      split: answer.splits if_splits)

lemma replay_answer_window:
  "replay_answer st progress a e = (e', p) \<Longrightarrow>
   rr_current_offset (re_request e') + rr_current_count (re_request e')
     = rr_current_offset (re_request e) + rr_current_count (re_request e)"
  by (auto simp: replay_answer_def replay_complete_def set_state_def Let_def
      split: answer.splits if_splits)

lemma replay_answer_bounded:
  assumes "replay_answer st progress a e = (e', p)"
    and "\<And>out. a = Moved out \<Longrightarrow> out \<le> rr_current_count (re_request e)"
  shows "rr_current_count (re_request e') \<le> rr_current_count (re_request e)"
  using assms
  by (auto simp: replay_answer_def replay_complete_def set_state_def Let_def word_sub_le
      split: answer.splits if_splits)

text \<open>One call: nothing visible, or a file operation and its answer.\<close>

lemma replay_read_cases:
  assumes "replay_read F e = Inr (e', p)"
  obtains (wait) r where "re_request e' = (re_request e)\<lparr>rr_state := r\<rparr>"
      "r \<noteq> READ_COMPLETE" "r \<noteq> WRITE_COMPLETE" "rr_state (re_request e) \<noteq> READ_COMPLETE"
    | (stay) "re_request e' = re_request e" "rr_state (re_request e) \<noteq> READ_COMPLETE"
    | (finish) "re_request e' = (re_request e)\<lparr>rr_state := RS_NONE, rr_complete := True\<rparr>"
      "rr_state (re_request e) = READ_COMPLETE"
    | (answer) e1 q f result out bs f' where
      "re_request e1 = (re_request e)\<lparr>rr_state := READ_IN_PROGRESS\<rparr>"
      "vfs_complete_read F f (rr_current_count (re_request e)) = ((result, out, bs), f')"
      "replay_answer READ_PENDING q (read_answer result out) e1 = (e', p)"
proof -
  have in_progress: thesis
    if d: "replay_read_in_progress F q d = (e', p)"
      and rd: "re_request d = (re_request e)\<lparr>rr_state := READ_IN_PROGRESS\<rparr>" for q d
  proof -
    obtain result out bs f' where r: "vfs_complete_read F (re_file d) (rr_current_count (re_request d))
        = ((result, out, bs), f')" by (metis prod_cases4 surj_pair)
    with d have "replay_answer READ_PENDING q (read_answer result out)
        (d\<lparr>re_file := f', re_read_buffer := overwrite (re_read_buffer d) 0 bs\<rparr>) = (e', p)"
      by (simp add: replay_read_in_progress_def)
    from answer [OF _ _ this] r rd show thesis by simp
  qed
  have pending: thesis
    if d: "replay_read_pending F q d = (e', p)" and rd: "re_request d = (re_request e)\<lparr>rr_state := READ_PENDING\<rparr>"
      and st: "rr_state (re_request e) \<noteq> READ_COMPLETE" for q d
  proof -
    obtain queued f1 where qr: "vfs_queue_read F (vfs_seek F (re_file d) (rr_current_offset (re_request d)))
        (rr_current_count (re_request d)) = (queued, f1)" by fastforce
    show thesis
    proof (cases queued)
      case True
      with d qr have "replay_read_in_progress F True (set_state READ_IN_PROGRESS (d\<lparr>re_file := f1\<rparr>)) = (e', p)"
        by (simp add: replay_read_pending_def Let_def)
      from in_progress [OF this] rd show thesis by (simp add: set_state_def)
    next
      case False
      with d qr rd wait [of READ_PENDING] st show thesis by (auto simp: replay_read_pending_def Let_def)
    qed
  qed
  have self: "(re_request e)\<lparr>rr_state := st\<rparr> = re_request e" if "rr_state (re_request e) = st" for st
    using that by auto
  show thesis
    using assms
    by (cases "rr_state (re_request e)")
      (auto simp: replay_read_def self set_state_def replay_complete_def split: if_splits
        intro: stay finish pending in_progress)
qed

lemma replay_write_cases:
  assumes "replay_write F e = Inr (e', p)"
  obtains (stay) "re_request e' = re_request e" "rr_state (re_request e) \<noteq> WRITE_COMPLETE"
    | (finish) "re_request e' = (re_request e)\<lparr>rr_state := RS_NONE, rr_complete := True\<rparr>"
      "rr_state (re_request e) = WRITE_COMPLETE"
    | (answer) e1 q f d outcome out f' where
      "re_request e1 = (re_request e)\<lparr>rr_state := WRITE_IN_PROGRESS\<rparr>"
      "vfs_write F f d (rr_current_count (re_request e)) = ((outcome, out), f')"
      "replay_answer WRITE_PENDING q (write_answer outcome out) e1 = (e', p)"
proof -
  have in_progress: thesis
    if d: "replay_write_in_progress F q d = (e', p)"
      and rd: "re_request d = (re_request e)\<lparr>rr_state := WRITE_IN_PROGRESS\<rparr>" for q d
  proof -
    obtain outcome out f' where r: "vfs_write F (re_file d)
        (take (unat (rr_current_count (re_request d))) (re_write_buffer d))
        (rr_current_count (re_request d)) = ((outcome, out), f')" by (metis surj_pair)
    with d have "replay_answer WRITE_PENDING q (write_answer outcome out) (d\<lparr>re_file := f'\<rparr>) = (e', p)"
      by (simp add: replay_write_in_progress_def Let_def)
    from answer [OF _ _ this] r rd show thesis by simp
  qed
  have pending: thesis
    if d: "replay_write_pending F q d = (e', p)" and rd: "re_request d = (re_request e)\<lparr>rr_state := WRITE_PENDING\<rparr>"
    for q d
    using in_progress [of True "set_state WRITE_IN_PROGRESS
         (d\<lparr>re_file := vfs_seek F (re_file d) (rr_current_offset (re_request d))\<rparr>)"] d rd
    by (simp add: replay_write_pending_def set_state_def)
  have self: "(re_request e)\<lparr>rr_state := st\<rparr> = re_request e" if "rr_state (re_request e) = st" for st
    using that by auto
  show thesis
    using assms
    by (cases "rr_state (re_request e)")
      (auto simp: replay_write_def self set_state_def replay_complete_def split: if_splits
        intro: stay finish pending in_progress)
qed

lemma replay_read_ready:
  assumes "replay_ready (re_request e)" "\<not> rr_complete (re_request e)" "replay_read F e = Inr (e', p)"
  shows "replay_ready (re_request e')"
  using assms(3)
proof (cases rule: replay_read_cases)
  case (answer e1 q f result out bs f')
  from replay_answer_request [OF answer(3)] assms(2) answer(1) show ?thesis by simp
qed (use assms(1,2) in \<open>auto simp: replay_ready_def\<close>)

lemma replay_write_ready:
  assumes "replay_ready (re_request e)" "\<not> rr_complete (re_request e)" "replay_write F e = Inr (e', p)"
  shows "replay_ready (re_request e')"
  using assms(3)
proof (cases rule: replay_write_cases)
  case (answer e1 q f d outcome out f')
  from replay_answer_request [OF answer(3)] assms(2) answer(1) show ?thesis by simp
qed (use assms(1,2) in \<open>auto simp: replay_ready_def\<close>)

lemma replay_read_window:
  assumes "replay_read F e = Inr (e', p)"
  shows "rr_current_offset (re_request e') + rr_current_count (re_request e')
       = rr_current_offset (re_request e) + rr_current_count (re_request e)"
    "file_bounded F \<Longrightarrow> rr_current_count (re_request e') \<le> rr_current_count (re_request e)"
proof -
  show "rr_current_offset (re_request e') + rr_current_count (re_request e')
       = rr_current_offset (re_request e) + rr_current_count (re_request e)"
    using assms by (cases rule: replay_read_cases) (auto dest: replay_answer_window)
  assume b: "file_bounded F"
  show "rr_current_count (re_request e') \<le> rr_current_count (re_request e)"
    using assms
  proof (cases rule: replay_read_cases)
    case (answer e1 q f result out bs f')
    have "out \<le> rr_current_count (re_request e)"
      using b answer(2) unfolding file_bounded_def by blast
    with replay_answer_bounded [OF answer(3)] answer(1) show ?thesis
      by (auto dest: read_answer_Moved)
  qed auto
qed

lemma replay_write_window:
  assumes "replay_write F e = Inr (e', p)"
  shows "rr_current_offset (re_request e') + rr_current_count (re_request e')
       = rr_current_offset (re_request e) + rr_current_count (re_request e)"
    "file_bounded F \<Longrightarrow> rr_current_count (re_request e') \<le> rr_current_count (re_request e)"
proof -
  show "rr_current_offset (re_request e') + rr_current_count (re_request e')
       = rr_current_offset (re_request e) + rr_current_count (re_request e)"
    using assms by (cases rule: replay_write_cases) (auto dest: replay_answer_window)
  assume b: "file_bounded F"
  show "rr_current_count (re_request e') \<le> rr_current_count (re_request e)"
    using assms
  proof (cases rule: replay_write_cases)
    case (answer e1 q f d outcome out f')
    have "out \<le> rr_current_count (re_request e)"
      using b answer(2) unfolding file_bounded_def by blast
    with replay_answer_bounded [OF answer(3)] answer(1) show ?thesis
      by (auto dest: write_answer_Moved)
  qed auto
qed

lemma replay_ready_finish:
  "replay_ready r \<Longrightarrow> rr_complete r \<Longrightarrow> rr_success r \<Longrightarrow> rr_current_count r = 0"
  by (simp add: replay_ready_def)

interpretation replay_reading: transfer_job "replay_read F" re_request replay_ready rr_current_offset
  rr_current_count rr_complete rr_success "\<lambda>_. file_bounded F" for F
  by unfold_locales
    (blast intro: replay_read_ready replay_ready_finish replay_read_window)+

interpretation replay_writing: transfer_job "replay_write F" re_request replay_ready rr_current_offset
  rr_current_count rr_complete rr_success "\<lambda>_. file_bounded F" for F
  by unfold_locales
    (blast intro: replay_write_ready replay_ready_finish replay_write_window)+

section \<open>Properties\<close>

lemma node_request_fresh:
  "\<not> rr_pending r \<Longrightarrow> replay_string_to_type (take 15 ty) \<noteq> RT_INVALID \<Longrightarrow>
   node_request \<lparr> rn_type = Some ty, rn_offset = Some off, rn_count = Some n \<rparr> r
     = \<lparr> rr_type = replay_string_to_type (take 15 ty), rr_state = RS_NONE, rr_offset = off, rr_count = n,
         rr_out_count = 0, rr_current_offset = off, rr_current_count = n, rr_success = False,
         rr_complete = False \<rparr>"
  by (simp add: node_request_def Let_def)

text \<open>
  C35. A replayed read that completes successfully has transferred its whole range: its offset
  has advanced by the count and nothing is left.
\<close>

theorem replay_read_complete:
  assumes "re_request e = node_request \<lparr> rn_type = Some ''read'', rn_offset = Some off, rn_count = Some n \<rparr> r"
    and "job_run (replay_read F) re_request (\<lambda>e. \<not> rr_complete (re_request e)) e e'"
    and "rr_complete (re_request e')" "rr_success (re_request e')"
  shows "rr_current_offset (re_request e') = off + n \<and> rr_current_count (re_request e') = 0"
proof -
  have r: "re_request e = \<lparr> rr_type = RT_READ, rr_state = RS_NONE, rr_offset = off, rr_count = n,
         rr_out_count = 0, rr_current_offset = off, rr_current_count = n, rr_success = False,
         rr_complete = False \<rparr>"
    using assms(1) by (simp add: node_request_def Let_def replay_string_to_type_def)
  have "replay_ready (re_request e)" by (simp add: r replay_ready_def)
  from replay_reading.run_complete [OF assms(2) this assms(3,4)] show ?thesis by (simp add: r)
qed

text \<open>
  C36. The loop over the requests, run again by a response of the file system while a read is in
  progress, ends at once when the read gets only a part of its bytes: the program is not
  finished and has not exited, the same request is current, its read back to pending with bytes
  left, and after the call that returned the part the file system has not been asked for
  anything.
\<close>

theorem replay_partial_read_stalls:
  assumes "rr_type (re_request (rp_env s)) = RT_READ" "rr_state (re_request (rp_env s)) = READ_IN_PROGRESS"
    and "vfs_complete_read F (re_file (rp_env s)) (rr_current_count (re_request (rp_env s))) = ((READ_OK, out, bs), f')"
    and "out < rr_current_count (re_request (rp_env s))" "\<not> rp_finished s"
  shows "\<exists>s'. io_progress_response_handler F s = Some (Inr s')
     \<and> \<not> rp_finished s' \<and> rp_exits s' = rp_exits s \<and> rp_id s' = rp_id s \<and> rp_node s' = rp_node s
     \<and> rr_state (re_request (rp_env s')) = READ_PENDING
     \<and> rr_complete (re_request (rp_env s')) = rr_complete (re_request (rp_env s))
     \<and> rr_current_count (re_request (rp_env s')) = rr_current_count (re_request (rp_env s)) - out
     \<and> rr_current_count (re_request (rp_env s')) \<noteq> 0
     \<and> re_file (rp_env s') = f'"
proof -
  have "\<exists>s'. replay_pass F (s, False) = Break (s', False)
     \<and> \<not> rp_finished s' \<and> rp_exits s' = rp_exits s \<and> rp_id s' = rp_id s \<and> rp_node s' = rp_node s
     \<and> rr_state (re_request (rp_env s')) = READ_PENDING
     \<and> rr_complete (re_request (rp_env s')) = rr_complete (re_request (rp_env s))
     \<and> rr_current_count (re_request (rp_env s')) = rr_current_count (re_request (rp_env s)) - out
     \<and> rr_current_count (re_request (rp_env s')) \<noteq> 0
     \<and> re_file (rp_env s') = f'"
    using assms
    by (auto simp: replay_pass_def handle_replay_request_def rr_pending_def replay_read_def
        replay_read_in_progress_def replay_answer_def Let_def set_state_def)
  then show ?thesis
    using assms(5) by (auto simp: io_progress_response_handler_def process_replay_def run_loop_Break)
qed

text \<open>The exit code of a run.\<close>

lemma process_replay_exit:
  assumes "run_loop (replay_pass F) (s, False) = Some (Inr (s', failed))"
    and "unat (rp_id s) < length (rp_nodes s)" "length (rp_nodes s) < 2 ^ 32" "\<not> rp_finished s"
  shows "rp_nodes s' = rp_nodes s
     \<and> (if rp_finished s' \<and> \<not> failed then unat (rp_id s') = length (rp_nodes s)
        else unat (rp_id s') < length (rp_nodes s))
     \<and> (failed \<longrightarrow> rr_complete (re_request (rp_env s')) \<and> \<not> rr_success (re_request (rp_env s')))"
proof -
  let ?I = "\<lambda>(t, failed). rp_nodes t = rp_nodes s \<and> unat (rp_id t) < length (rp_nodes s)
      \<and> \<not> rp_finished t \<and> \<not> failed"
  let ?Q = "\<lambda>r. case r of Inl (e :: exn) \<Rightarrow> True | Inr (t, failed) \<Rightarrow> rp_nodes t = rp_nodes s
     \<and> (if rp_finished t \<and> \<not> failed then unat (rp_id t) = length (rp_nodes s)
        else unat (rp_id t) < length (rp_nodes s))
     \<and> (failed \<longrightarrow> rr_complete (re_request (rp_env t)) \<and> \<not> rr_success (re_request (rp_env t)))"
  have next_id: "unat (i + 1) = Suc (unat i)" if "unat i < length (rp_nodes s)" for i :: u32
  proof -
    have "unat i + 1 < 2 ^ 32" using that assms(3) by simp
    then show ?thesis using unat_add_lem [of i 1] by simp
  qed
  have "?Q (Inr (s', failed))"
  proof (rule run_loop_rule [where I = ?I and Q = ?Q, OF assms(1)])
    show "?I (s, False)" using assms(2,4) by simp
  next
    fix t t' assume "?I t" "replay_pass F t = Continue t'"
    then show "?I t'"
      by (cases t) (auto simp: replay_pass_def Let_def split: sum.splits prod.splits if_splits)
  next
    fix t t' assume I: "?I t" and b: "replay_pass F t = Break t'"
    then show "?Q (Inr t')"
      using next_id [of "rp_id (fst t)"]
      by (cases t) (auto simp: replay_pass_def Let_def split: sum.splits prod.splits if_splits)
  qed simp
  then show ?thesis by simp
qed

theorem replay_exit_code:
  assumes "process_replay F s = Some (Inr s')"
    and "unat (rp_id s) < length (rp_nodes s)" "length (rp_nodes s) < 2 ^ 32" "\<not> rp_finished s"
    and "rp_exits s = []"
  shows "rp_exits s' = (if \<not> rp_finished s' then []
                        else if unat (rp_id s') = length (rp_nodes s) then [0] else [1])"
proof -
  obtain s1 failed where l: "run_loop (replay_pass F) (s, False) = Some (Inr (s1, failed))"
    and s': "s' = (if rp_finished s1 then s1\<lparr>rp_exits := rp_exits s1 @ [if failed then 1 else 0]\<rparr> else s1)"
    using assms(1) by (auto simp: process_replay_def elim!: bind_run_InrE)
  let ?Q = "\<lambda>r. case r of Inl (e :: exn) \<Rightarrow> True | Inr (t, failed) \<Rightarrow> rp_exits t = rp_exits s"
  have "?Q (Inr (s1, failed))"
  proof (rule run_loop_rule [where I = "\<lambda>(t, failed). rp_exits t = rp_exits s" and Q = ?Q, OF l])
    fix t t' assume "case t of (t, failed) \<Rightarrow> rp_exits t = rp_exits s" "replay_pass F t = Continue t'"
    then show "case t' of (t, failed) \<Rightarrow> rp_exits t = rp_exits s"
      by (cases t) (auto simp: replay_pass_def Let_def split: sum.splits prod.splits if_splits)
  next
    fix t t' assume "case t of (t, failed) \<Rightarrow> rp_exits t = rp_exits s" "replay_pass F t = Break t'"
    then show "?Q (Inr t')"
      by (cases t) (auto simp: replay_pass_def Let_def split: sum.splits prod.splits if_splits)
  qed simp_all
  then have "rp_exits s1 = rp_exits s" by simp
  with process_replay_exit [OF l assms(2-4)] s' assms(5) show ?thesis
    by (auto split: if_splits)
qed

theorem replay_skips_unknown_type:
  assumes "\<not> rr_pending (re_request e)" "rr_success (re_request e)"
    and "replay_string_to_type (take 15 ty) = RT_INVALID"
  shows "\<exists>e'. handle_replay_request F \<lparr> rn_type = Some ty, rn_offset = off, rn_count = n \<rparr> e = Inr (e', True)
     \<and> rr_complete (re_request e') \<and> rr_success (re_request e') \<and> re_file e' = re_file e"
  using assms by (simp add: handle_replay_request_def node_request_def Let_def)

section \<open>Examples\<close>

definition replay_example :: "replay_request \<Rightarrow> u64 replay_env" where
  "replay_example r =
     \<lparr> re_request = r, re_file = 0, re_read_buffer = [0, 0, 0, 0], re_write_buffer = [] \<rparr>"

lemmas replay_run =
  replay_example_def replay_read_def replay_read_pending_def replay_read_in_progress_def replay_answer_def
  replay_complete_def set_state_def sample_reader_def sample_out_def node_request_def
  replay_string_to_type_def

theorem replay_read_complete_witness:
  "\<exists>e'. job_run (replay_read (sample_reader [1, 2, 3, 4, 5])) re_request (\<lambda>e. \<not> rr_complete (re_request e))
      (replay_example (node_request \<lparr> rn_type = Some ''read'', rn_offset = Some 1, rn_count = Some 4 \<rparr>
        idle_replay_request)) e'
     \<and> rr_complete (re_request e') \<and> rr_current_offset (re_request e') = 5"
proof -
  let ?F = "sample_reader [1, 2, 3, 4, 5]"
  let ?node = "\<lparr> rn_type = Some ''read'', rn_offset = Some 1, rn_count = Some 4 \<rparr>"
  let ?e = "replay_example (node_request ?node idle_replay_request)"
  obtain e1 e2 where e1: "replay_read ?F ?e = Inr (e1, True)" and e2: "replay_read ?F e1 = Inr (e2, True)"
    and fin: "rr_complete (re_request e2)" "rr_success (re_request e2)"
    and ok: "\<not> rr_complete (re_request ?e)" "\<not> rr_complete (re_request e1)"
    by (simp add: replay_run Let_def)
  have run: "job_run (replay_read ?F) re_request (\<lambda>e. \<not> rr_complete (re_request e)) ?e e2"
    by (rule two_calls [OF e1 e2 ok])
  have "re_request ?e = node_request ?node idle_replay_request" by (simp add: replay_example_def)
  from replay_read_complete [OF this run fin] run fin show ?thesis by auto
qed

theorem replay_partial_read_stalls_witness:
  "\<exists>s'. io_progress_response_handler (sample_reader [1, 2, 3, 4, 5])
      \<lparr> rp_env = replay_example (idle_replay_request\<lparr>rr_type := RT_READ, rr_state := READ_IN_PROGRESS, rr_current_count := 4\<rparr>),
        rp_nodes = [\<lparr> rn_type = Some ''read'', rn_offset = Some 0, rn_count = Some 4 \<rparr>],
        rp_node = \<lparr> rn_type = Some ''read'', rn_offset = Some 0, rn_count = Some 4 \<rparr>,
        rp_id = 0, rp_finished = False, rp_exits = [] \<rparr> = Some (Inr s')
     \<and> rr_state (re_request (rp_env s')) = READ_PENDING \<and> rr_current_count (re_request (rp_env s')) = 1
     \<and> rp_exits s' = []"
proof -
  let ?F = "sample_reader [1, 2, 3, 4, 5]"
  let ?s = "\<lparr> rp_env = replay_example (idle_replay_request\<lparr>rr_type := RT_READ, rr_state := READ_IN_PROGRESS, rr_current_count := 4\<rparr>),
        rp_nodes = [\<lparr> rn_type = Some ''read'', rn_offset = Some 0, rn_count = Some 4 \<rparr>],
        rp_node = \<lparr> rn_type = Some ''read'', rn_offset = Some 0, rn_count = Some 4 \<rparr>,
        rp_id = 0, rp_finished = False, rp_exits = [] \<rparr>"
  have "rr_type (re_request (rp_env ?s)) = RT_READ" "rr_state (re_request (rp_env ?s)) = READ_IN_PROGRESS"
    "vfs_complete_read ?F (re_file (rp_env ?s)) (rr_current_count (re_request (rp_env ?s))) = ((READ_OK, 3, [1, 2, 3]), 0)"
    "(3 :: u64) < rr_current_count (re_request (rp_env ?s))" "\<not> rp_finished ?s"
    by (simp_all add: replay_example_def sample_reader_def sample_out_def)
  from replay_partial_read_stalls [OF this] show ?thesis by (auto simp: replay_example_def)
qed

theorem replay_exit_code_witness:
  "\<exists>s'. process_replay (sample_reader [])
      \<lparr> rp_env = replay_example idle_replay_request,
        rp_nodes = [\<lparr> rn_type = Some ''sync'', rn_offset = None, rn_count = None \<rparr>],
        rp_node = \<lparr> rn_type = Some ''sync'', rn_offset = None, rn_count = None \<rparr>,
        rp_id = 0, rp_finished = False, rp_exits = [] \<rparr> = Some (Inr s')
     \<and> rp_finished s' \<and> rp_exits s' = [0]"
proof -
  let ?F = "sample_reader []"
  let ?s = "\<lparr> rp_env = replay_example idle_replay_request,
        rp_nodes = [\<lparr> rn_type = Some ''sync'', rn_offset = None, rn_count = None \<rparr>],
        rp_node = \<lparr> rn_type = Some ''sync'', rn_offset = None, rn_count = None \<rparr>,
        rp_id = 0, rp_finished = False, rp_exits = [] \<rparr> :: u64 replay"
  obtain s1 where s1: "replay_pass ?F (?s, False) = Break (s1, False)"
    "rp_finished s1" "rp_id s1 = 1" "rp_nodes s1 = rp_nodes ?s"
    by (simp add: replay_pass_def handle_replay_request_def rr_pending_def idle_replay_request_def
        replay_sync_def replay_sync_pending_def replay_sync_in_progress_def replay_run Let_def)
  then have run: "process_replay ?F ?s = Some (Inr (s1\<lparr>rp_exits := rp_exits s1 @ [0]\<rparr>))"
    by (simp add: process_replay_def run_loop_Break)
  from replay_exit_code [OF run] run s1 show ?thesis by simp
qed

end
