(* ===== verification/Blk_Backend.thy ===== *)
theory Blk_Backend
  imports Cbe_Library
begin

text \<open>
  The block back end of the tools: the two loops that \<open>app/cbe_init/main.cc\<close>,
  \<open>app/cbe_check/main.cc\<close>, \<open>app/cbe_dump/main.cc\<close> and \<open>app/cbe_tester/main.cc\<close> share.

  \<^item> The first loop hands an I/O request of the library to the packet stream of the block
    connection, the second takes an acknowledged packet back. The tools differ in the
    operations they accept and in the ratio of the block sizes; both are arguments.
  \<^item> The packet stream is Genode's: its methods are the fields of \<open>packet_stream\<close>, on an
    abstract state \<open>'s\<close>.
  \<^item> The locale \<open>op_codes\<close> is the contract between the two loops: an acknowledged packet is
    matched by the operation it was submitted with. It is interpreted for the operations of
    the initialiser and for those of the checker and the dump tool.
\<close>

section \<open>State\<close>

text \<open>
  \<open>pk_content\<close> is the content of the packet's buffer as far as the code writes or reads it.
\<close>

record packet =
  pk_operation :: block_op_type
  pk_block_number :: u64
  pk_count :: u64
  pk_succeeded :: bool
  pk_content :: bytes

record 's packet_stream =
  ps_ready_to_submit :: "'s \<Rightarrow> bool"
  ps_alloc :: "'s \<Rightarrow> u64 \<Rightarrow> 's option"
  ps_submit :: "'s \<Rightarrow> packet \<Rightarrow> 's"
  ps_ack_avail :: "'s \<Rightarrow> bool"
  ps_get_acked :: "'s \<Rightarrow> packet \<times> 's"
  ps_release :: "'s \<Rightarrow> packet \<Rightarrow> 's"
  ps_wakeup :: "'s \<Rightarrow> 's"

record ('l, 's) blk =
  bk_lib :: 'l
  bk_tx :: 's
  bk_req :: request
  bk_buf :: block_buffer

text \<open>The packet operation for a request, or none when the code throws; the match on the way back.\<close>

definition init_opcode :: "operation \<Rightarrow> block_op_type option" where
  "init_opcode op =
     (if op = READ then Some B_READ else if op = WRITE then Some B_WRITE
      else if op = SYNC then Some B_SYNC else None)"

definition check_opcode :: "operation \<Rightarrow> block_op_type option" where
  "check_opcode op =
     (if op = READ then Some B_READ else if op = WRITE then Some B_WRITE else None)"

definition init_op_match :: "block_op_type \<Rightarrow> operation \<Rightarrow> bool" where
  "init_op_match t op \<longleftrightarrow>
     t = B_READ \<and> op = READ \<or> t = B_WRITE \<and> op = WRITE \<or> t = B_SYNC \<and> op = SYNC"

definition check_op_match :: "block_op_type \<Rightarrow> operation \<Rightarrow> bool" where
  "check_op_match t op \<longleftrightarrow> t = B_READ \<and> op = READ \<or> t = B_WRITE \<and> op = WRITE"

section \<open>Submission\<close>

definition tool_next_io_request :: "'l check_library \<Rightarrow> 'l \<Rightarrow> request \<times> u32" where
  "tool_next_io_request T l = tool_has_io_request T l invalid_request 0"

text \<open>One pass of the first loop; the state is the back end and \<open>progress\<close>.\<close>

definition submit_pass ::
  "'l check_library \<Rightarrow> 's packet_stream \<Rightarrow> (operation \<Rightarrow> block_op_type option) \<Rightarrow> u64
    \<Rightarrow> ('l, 's) blk \<times> bool \<Rightarrow> (('l, 's) blk \<times> bool, exn) loop_step" where
  "submit_pass T S opcode ratio bp =
     (case bp of (b, progress) \<Rightarrow>
      if \<not> ps_ready_to_submit S (bk_tx b) then Break (b, progress)
      else
        (case tool_next_io_request T (bk_lib b) of (r0, data_index) \<Rightarrow>
         if \<not> valid r0 then Break (b, progress)
         else if valid (bk_req b) then Break (b, progress)
         else
           (let r = set_tag r0 data_index in
            case opcode (req_operation r) of
              None \<Rightarrow> Throw Invalid_io_request
            | Some op \<Rightarrow>
                (case ps_alloc S (bk_tx b) BLOCK_SIZE of
                   None \<Rightarrow> Break (b, progress)
                 | Some tx \<Rightarrow>
                     (case (if req_operation r = WRITE then item (bk_buf b) data_index else Inr []) of
                        Inl e \<Rightarrow> Throw e
                      | Inr content \<Rightarrow>
                          Continue
                            (b\<lparr>bk_tx := ps_submit S tx
                                 \<lparr> pk_operation = op, pk_block_number = req_block_number r * ratio,
                                   pk_count = req_count r * ratio, pk_succeeded = False,
                                   pk_content = content \<rparr>,
                               bk_req := r,
                               bk_lib := tool_io_request_in_progress T (bk_lib b) data_index\<rparr>, True))))))"

section \<open>Acknowledgement\<close>

definition ack_pass ::
  "'l check_library \<Rightarrow> 's packet_stream \<Rightarrow> (block_op_type \<Rightarrow> operation \<Rightarrow> bool) \<Rightarrow> u64
    \<Rightarrow> ('l, 's) blk \<times> bool \<Rightarrow> (('l, 's) blk \<times> bool, exn) loop_step" where
  "ack_pass T S op_match ratio bp =
     (case bp of (b0, progress) \<Rightarrow>
      if \<not> ps_ack_avail S (bk_tx b0) then Break (b0, progress)
      else
        (case ps_get_acked S (bk_tx b0) of (packet, tx) \<Rightarrow>
         let b = b0\<lparr>bk_tx := tx\<rparr> in
         if \<not> valid (bk_req b) then Break (b, progress)
         else if pk_block_number packet div ratio \<noteq> req_block_number (bk_req b)
            \<or> \<not> op_match (pk_operation packet) (req_operation (bk_req b))
         then Break (b, progress)
         else
           (let success = pk_succeeded packet; data_index = req_tag (bk_req b) in
            case (if pk_operation packet = B_READ \<and> success
                  then set_item (bk_buf b) data_index (pk_content packet) else Inr (bk_buf b)) of
              Inl e \<Rightarrow> Throw e
            | Inr buf \<Rightarrow>
                Continue
                  (b\<lparr>bk_buf := buf,
                     bk_lib := tool_io_request_completed T (bk_lib b) data_index success,
                     bk_tx := ps_release S (bk_tx b) packet,
                     bk_req := invalid_request\<rparr>, True))))"

definition backend_io ::
  "'l check_library \<Rightarrow> 's packet_stream \<Rightarrow> (operation \<Rightarrow> block_op_type option)
    \<Rightarrow> (block_op_type \<Rightarrow> operation \<Rightarrow> bool) \<Rightarrow> u64 \<Rightarrow> ('l, 's) blk \<times> bool \<Rightarrow> (('l, 's) blk \<times> bool) run" where
  "backend_io T S opcode op_match ratio bp =
     bind_run (run_loop (submit_pass T S opcode ratio) bp)
       (\<lambda>bp1. run_loop (ack_pass T S op_match ratio) bp1)"

section \<open>The contract between the loops\<close>

text \<open>The packet a request is sent as.\<close>

definition request_packet :: "block_op_type \<Rightarrow> u64 \<Rightarrow> request \<Rightarrow> bytes \<Rightarrow> packet" where
  "request_packet t ratio r content =
     \<lparr> pk_operation = t, pk_block_number = req_block_number r * ratio, pk_count = req_count r * ratio,
       pk_succeeded = False, pk_content = content \<rparr>"

locale op_codes =
  fixes opcode :: "operation \<Rightarrow> block_op_type option"
    and op_match :: "block_op_type \<Rightarrow> operation \<Rightarrow> bool"
  assumes match_iff: "op_match t op \<longleftrightarrow> opcode op = Some t"
    and not_invalid: "opcode INVALID = None"
begin

text \<open>
  Each loop makes at most one pass that continues: after a submission the request is valid,
  after an acknowledgement it is not.
\<close>

lemma submit_total: "\<exists>res. run_loop (submit_pass T S opcode ratio) (b, p) = Some res"
proof (rule run_loop_total [where I = "\<lambda>_. True" and m = "\<lambda>(b, p). if valid (bk_req b) then 0 else 1"])
  fix s s' assume "submit_pass T S opcode ratio s = Continue s'"
  then show "True \<and> (case s' of (b, p) \<Rightarrow> if valid (bk_req b) then 0 else 1)
      < (case s of (b, p) \<Rightarrow> if valid (bk_req b) then 0 else (1 :: nat))"
    by (cases s) (auto simp: submit_pass_def Let_def split: prod.splits option.splits sum.splits if_splits)
qed simp

lemma ack_total: "\<exists>res. run_loop (ack_pass T S op_match ratio) (b, p) = Some res"
proof (rule run_loop_total [where I = "\<lambda>_. True" and m = "\<lambda>(b, p). if valid (bk_req b) then 1 else 0"])
  fix s s' assume "ack_pass T S op_match ratio s = Continue s'"
  then show "True \<and> (case s' of (b, p) \<Rightarrow> if valid (bk_req b) then 1 else 0)
      < (case s of (b, p) \<Rightarrow> if valid (bk_req b) then 1 else (0 :: nat))"
    by (cases s) (auto simp: ack_pass_def Let_def split: prod.splits sum.splits if_splits)
qed simp

lemma io_total: "\<exists>res. backend_io T S opcode op_match ratio (b, p) = Some res"
proof -
  obtain r where r: "run_loop (submit_pass T S opcode ratio) (b, p) = Some r"
    using submit_total by blast
  show ?thesis
  proof (cases r)
    case (Inl e)
    with r show ?thesis by (simp add: backend_io_def)
  next
    case (Inr s)
    with r ack_total [of T S ratio "fst s" "snd s"] show ?thesis by (simp add: backend_io_def)
  qed
qed

text \<open>A request and its packet, and the packet's acknowledgement.\<close>

lemma submitted:
  assumes "bk_req b = invalid_request" "ps_ready_to_submit S (bk_tx b)"
    and "tool_next_io_request T (bk_lib b) = (r, i)" and op: "opcode (req_operation r) = Some t"
    and "ps_alloc S (bk_tx b) BLOCK_SIZE = Some tx" "unat i < length (bk_buf b)"
  shows "submit_pass T S opcode ratio (b, p) = Continue
     (b\<lparr>bk_tx := ps_submit S tx (request_packet t ratio r (if req_operation r = WRITE then bk_buf b ! unat i else [])),
        bk_req := set_tag r i, bk_lib := tool_io_request_in_progress T (bk_lib b) i\<rparr>, True)"
proof -
  have "valid r" using op not_invalid by (auto simp: valid_def)
  with assms show ?thesis by (simp add: submit_pass_def request_packet_def Let_def item_def)
qed

lemma acknowledged:
  assumes "bk_req b = set_tag r i" and op: "opcode (req_operation r) = Some t"
    and "unat i < length (bk_buf b)" and ratio: "0 < ratio" "unat (req_block_number r) * unat ratio < 2 ^ 64"
    and "ps_ack_avail S (bk_tx b)"
      "ps_get_acked S (bk_tx b) = ((request_packet t ratio r content)\<lparr>pk_succeeded := ok\<rparr>, tx)"
  shows "ack_pass T S op_match ratio (b, p) = Continue
     (\<lparr> bk_lib = tool_io_request_completed T (bk_lib b) i ok,
        bk_tx = ps_release S tx ((request_packet t ratio r content)\<lparr>pk_succeeded := ok\<rparr>),
        bk_req = invalid_request,
        bk_buf = (if t = B_READ \<and> ok then (bk_buf b)[unat i := content] else bk_buf b) \<rparr>, True)"
proof -
  have "valid r" using op not_invalid by (auto simp: valid_def)
  have "unat (req_block_number r * ratio) = unat (req_block_number r) * unat ratio"
    using ratio(2) unat_mult_lem [of "req_block_number r" ratio] by simp
  then have "req_block_number r * ratio div ratio = req_block_number r"
    using ratio(1) by (simp add: word_unat_eq_iff unat_div word_less_nat_alt)
  with assms \<open>valid r\<close> match_iff [of t "req_operation r"] show ?thesis
    by (cases b) (auto simp: ack_pass_def request_packet_def Let_def set_item_def)
qed

end

interpretation init_codes: op_codes init_opcode init_op_match
  by unfold_locales (auto simp: init_opcode_def init_op_match_def)

interpretation check_codes: op_codes check_opcode check_op_match
  by unfold_locales (auto simp: check_opcode_def check_op_match_def)

section \<open>Properties\<close>

text \<open>
  C30. The two loops over the packet stream end, for every library, packet stream and state, in
  each of the tools.
\<close>

theorem backend_io_terminates:
  "(\<exists>res. backend_io T S init_opcode init_op_match ratio (b, p) = Some res)
   \<and> (\<exists>res. backend_io T S check_opcode check_op_match ratio (b, p) = Some res)"
  using init_codes.io_total check_codes.io_total by blast

text \<open>
  C29. A tool's I/O request travels to the block session and back. What is submitted is exactly
  one packet: the operation of the request, its block number and count times the block ratio
  and, for a write, the block of the buffer; the library is told that the request is in progress
  and the slot keeps it. When that packet comes back acknowledged, the request is completed with
  the packet's success, the packet is released, the slot is free and, for a successful read, the
  packet's content is in the buffer, which is changed in no other case.
\<close>

theorem backend_io_round_trip:
  assumes "bk_req b = invalid_request" "ps_ready_to_submit S (bk_tx b)"
    and "tool_next_io_request T (bk_lib b) = (r, i)" "init_opcode (req_operation r) = Some t"
    and "ps_alloc S (bk_tx b) BLOCK_SIZE = Some tx" "unat i < length (bk_buf b)"
    and "0 < ratio" "unat (req_block_number r) * unat ratio < 2 ^ 64"
  shows "\<exists>b1. submit_pass T S init_opcode ratio (b, p) = Continue (b1, True)
     \<and> bk_tx b1 = ps_submit S tx
         \<lparr> pk_operation = t, pk_block_number = req_block_number r * ratio, pk_count = req_count r * ratio,
           pk_succeeded = False, pk_content = (if req_operation r = WRITE then bk_buf b ! unat i else []) \<rparr>
     \<and> bk_lib b1 = tool_io_request_in_progress T (bk_lib b) i
     \<and> bk_req b1 = set_tag r i \<and> bk_buf b1 = bk_buf b
     \<and> (\<forall>tx1 tx2 ok content packet.
          packet = \<lparr> pk_operation = t, pk_block_number = req_block_number r * ratio,
             pk_count = req_count r * ratio, pk_succeeded = ok, pk_content = content \<rparr> \<longrightarrow>
          ps_ack_avail S tx1 \<longrightarrow> ps_get_acked S tx1 = (packet, tx2) \<longrightarrow>
          ack_pass T S init_op_match ratio (b1\<lparr>bk_tx := tx1\<rparr>, q) = Continue
            (\<lparr> bk_lib = tool_io_request_completed T (bk_lib b1) i ok, bk_tx = ps_release S tx2 packet,
               bk_req = invalid_request,
               bk_buf = (if t = B_READ \<and> ok then (bk_buf b)[unat i := content] else bk_buf b) \<rparr>, True))"
proof -
  let ?content = "if req_operation r = WRITE then bk_buf b ! unat i else []"
  let ?b1 = "b\<lparr>bk_tx := ps_submit S tx (request_packet t ratio r ?content), bk_req := set_tag r i,
     bk_lib := tool_io_request_in_progress T (bk_lib b) i\<rparr>"
  have sent: "submit_pass T S init_opcode ratio (b, p) = Continue (?b1, True)"
    by (rule init_codes.submitted [OF assms(1-6)])
  have "ack_pass T S init_op_match ratio (?b1\<lparr>bk_tx := tx1\<rparr>, q) = Continue
      (\<lparr> bk_lib = tool_io_request_completed T (bk_lib ?b1) i ok,
         bk_tx = ps_release S tx2 ((request_packet t ratio r content)\<lparr>pk_succeeded := ok\<rparr>),
         bk_req = invalid_request,
         bk_buf = (if t = B_READ \<and> ok then (bk_buf b)[unat i := content] else bk_buf b) \<rparr>, True)"
    if "ps_ack_avail S tx1" "ps_get_acked S tx1 = ((request_packet t ratio r content)\<lparr>pk_succeeded := ok\<rparr>, tx2)"
    for tx1 tx2 ok content
    using init_codes.acknowledged [where b = "?b1\<lparr>bk_tx := tx1\<rparr>" and r = r and i = i and t = t and ratio = ratio and S = S
        and content = content and ok = ok and tx = tx2 and T = T and p = q] assms(4,6-8) that
    by simp
  with sent show ?thesis by (intro exI [of _ ?b1]) (simp add: request_packet_def)
qed

theorem backend_io_one_packet:
  assumes "valid (bk_req b)"
  shows "run_loop (submit_pass T S opcode ratio) (b, p) = Some (Inr (b, p))"
proof -
  have "submit_pass T S opcode ratio (b, p) = Break (b, p)"
    using assms by (auto simp: submit_pass_def split: prod.split)
  then show ?thesis by (rule run_loop_Break)
qed

theorem stray_packet_lost:
  assumes "\<not> valid (bk_req b)" "ps_ack_avail S (bk_tx b)" "ps_get_acked S (bk_tx b) = (packet, tx)"
  shows "run_loop (ack_pass T S op_match ratio) (b, p) = Some (Inr (b\<lparr>bk_tx := tx\<rparr>, p))"
proof -
  have "ack_pass T S op_match ratio (b, p) = Break (b\<lparr>bk_tx := tx\<rparr>, p)"
    using assms by (simp add: ack_pass_def Let_def)
  then show ?thesis by (rule run_loop_Break)
qed

section \<open>Examples\<close>

text \<open>
  A tool that asks for one block again and again, and a packet stream that acknowledges what was
  submitted; the packets are the stream's state.
\<close>

definition asking_tool :: "nat check_library" where
  "asking_tool =
     \<lparr> tool_client_request_acceptable = (\<lambda>l. True),
       tool_peek_completed_client_request = (\<lambda>l. invalid_request),
       tool_drop_completed_client_request = (\<lambda>l r. l), tool_execute = (\<lambda>l buf. (l, buf)),
       tool_execute_progress = (\<lambda>l. False), tool_io_request_completed = (\<lambda>l i ok. l + 1),
       tool_has_io_request = (\<lambda>l r i. (make_request READ False 3 0 1 0 0, 0)),
       tool_io_request_in_progress = (\<lambda>l i. l) \<rparr>"

definition queue_stream :: "packet list packet_stream" where
  "queue_stream =
     \<lparr> ps_ready_to_submit = (\<lambda>q. True), ps_alloc = (\<lambda>q n. Some q), ps_submit = (\<lambda>q p. q @ [p]),
       ps_ack_avail = (\<lambda>q. q \<noteq> []), ps_get_acked = (\<lambda>q. (hd q, tl q)), ps_release = (\<lambda>q p. q),
       ps_wakeup = (\<lambda>q. q) \<rparr>"

theorem backend_io_round_trip_witness:
  "\<exists>b1 b2. submit_pass asking_tool queue_stream init_opcode 8
      (\<lparr> bk_lib = 0, bk_tx = [], bk_req = invalid_request, bk_buf = [[0]] \<rparr>, False) = Continue (b1, True)
     \<and> bk_tx b1 = [\<lparr> pk_operation = B_READ, pk_block_number = 24, pk_count = 8, pk_succeeded = False, pk_content = [] \<rparr>]
     \<and> ack_pass asking_tool queue_stream init_op_match 8
        (b1\<lparr>bk_tx := [\<lparr> pk_operation = B_READ, pk_block_number = 24, pk_count = 8,
              pk_succeeded = True, pk_content = [9] \<rparr>]\<rparr>, False) = Continue (b2, True)
     \<and> bk_buf b2 = [[9]] \<and> bk_req b2 = invalid_request"
proof -
  let ?b = "\<lparr> bk_lib = 0, bk_tx = [], bk_req = invalid_request, bk_buf = [[0]] \<rparr> :: (nat, packet list) blk"
  let ?r = "make_request READ False 3 0 1 0 0"
  have req: "bk_req ?b = invalid_request" "ps_ready_to_submit queue_stream (bk_tx ?b)"
    "tool_next_io_request asking_tool (bk_lib ?b) = (?r, 0)"
    "init_opcode (req_operation ?r) = Some B_READ"
    "ps_alloc queue_stream (bk_tx ?b) BLOCK_SIZE = Some []" "unat (0 :: u32) < length (bk_buf ?b)"
    "0 < (8 :: u64)" "unat (req_block_number ?r) * unat (8 :: u64) < 2 ^ 64"
    by (simp_all add: queue_stream_def asking_tool_def tool_next_io_request_def init_opcode_def)
  have ack: "ps_ack_avail queue_stream (p # ps)" "ps_get_acked queue_stream (p # ps) = (p, ps)"
    "ps_submit queue_stream [] p = [p]" for p ps
    by (simp_all add: queue_stream_def)
  from backend_io_round_trip [OF req, of False False] ack show ?thesis by fastforce
qed

end
