(* ===== verification/Apps.thy ===== *)
theory Apps
  imports Blk_Backend
begin

text \<open>
  The tools \<open>cbe_init\<close>, \<open>cbe_check\<close> and \<open>cbe_dump\<close> (\<open>src/app/*/main.cc\<close>), their configurations
  (\<open>include/cbe_init/configuration.h\<close>, \<open>include/cbe_dump/configuration.h\<close>) and the line buffer
  the SPARK side prints through.

  The three tools are one program over three libraries: \<open>app_execute\<close> is their \<open>_execute\<close>, with
  the library, the packet stream, the accepted operations and the block ratio as arguments.
  \<open>exit\<close> is a message to the parent and the program goes on after it, so the exit codes are a
  list in the state.
\<close>

section \<open>Configurations\<close>

text \<open>The attributes of a tree's node, each absent or with its value.\<close>

record tree_attributes =
  ta_nr_of_levels :: "u64 option"
  ta_nr_of_children :: "u64 option"
  ta_nr_of_leafs :: "u64 option"

record init_configuration =
  vbd_nr_of_lvls :: u64
  vbd_nr_of_children :: u64
  vbd_nr_of_leafs :: u64
  ft_nr_of_lvls :: u64
  ft_nr_of_children :: u64
  ft_nr_of_leafs :: u64

definition tree_values :: "tree_attributes option \<Rightarrow> u64 \<times> u64 \<times> u64" where
  "tree_values node =
     (case node of
        None \<Rightarrow> (0, 0, 0)
      | Some a \<Rightarrow>
          (attribute_value (ta_nr_of_levels a) 0, attribute_value (ta_nr_of_children a) 0,
           attribute_value (ta_nr_of_leafs a) 0))"

definition new_init_configuration ::
  "tree_attributes option \<Rightarrow> tree_attributes option \<Rightarrow> exn + init_configuration" where
  "new_init_configuration vbd ft =
     (case (tree_values vbd, tree_values ft) of ((vl, vc, vf), (fl, fc, ff)) \<Rightarrow>
        if vl = 0 \<or> vc = 0 \<or> vf = 0 \<or> fl = 0 \<or> fc = 0 \<or> ff = 0 then Inl Configuration_Invalid
        else Inr \<lparr> vbd_nr_of_lvls = vl, vbd_nr_of_children = vc, vbd_nr_of_leafs = vf,
                   ft_nr_of_lvls = fl, ft_nr_of_children = fc, ft_nr_of_leafs = ff \<rparr>)"

record dump_configuration =
  dc_unused_nodes :: bool
  dc_max_superblocks :: u32
  dc_max_snapshots :: u32
  dc_vbd :: bool
  dc_vbd_pba_filter_enabled :: bool
  dc_vbd_pba_filter :: u64
  dc_vbd_vba_filter_enabled :: bool
  dc_vbd_vba_filter :: u64
  dc_free_tree :: bool
  dc_meta_tree :: bool
  dc_hashes :: bool

text \<open>The attributes of the node \<open>dump\<close>: of type Boolean, 32-bit and 64-bit.\<close>

definition new_dump_configuration ::
  "(string \<Rightarrow> bool option) \<Rightarrow> (string \<Rightarrow> u32 option) \<Rightarrow> (string \<Rightarrow> u64 option) \<Rightarrow> dump_configuration" where
  "new_dump_configuration b n32 n64 =
     \<lparr> dc_unused_nodes = attribute_value (b ''unused_nodes'') True,
       dc_max_superblocks = attribute_value (n32 ''max_superblocks'') (- 1),
       dc_max_snapshots = attribute_value (n32 ''max_snapshots'') (- 1),
       dc_vbd = attribute_value (b ''vbd'') True,
       dc_vbd_pba_filter_enabled = attribute_value (b ''vbd_pba_filter_enabled'') False,
       dc_vbd_pba_filter = attribute_value (n64 ''vbd_pba_filter'') 0,
       dc_vbd_vba_filter_enabled = attribute_value (b ''vbd_vba_filter_enabled'') False,
       dc_vbd_vba_filter = attribute_value (n64 ''vbd_vba_filter'') 0,
       dc_free_tree = attribute_value (b ''free_tree'') True,
       dc_meta_tree = attribute_value (b ''meta_tree'') True,
       dc_hashes = attribute_value (b ''hashes'') True \<rparr>"

section \<open>The tools\<close>

record ('l, 's) app =
  ap_blk :: "('l, 's) blk"
  ap_exits :: "int list"

definition app_exit :: "int \<Rightarrow> ('l, 's) app \<Rightarrow> ('l, 's) app" where
  "app_exit code a = a\<lparr>ap_exits := ap_exits a @ [code]\<rparr>"

text \<open>The part of a pass before the back end: run the library, collect its answer.\<close>

definition app_library ::
  "'l check_library \<Rightarrow> ('l, 's) app \<Rightarrow> ('l, 's) app \<times> bool" where
  "app_library T a =
     (let b = ap_blk a in
      case tool_execute T (bk_lib b) (bk_buf b) of (l, buf) \<Rightarrow>
      let b1 = b\<lparr>bk_lib := l, bk_buf := buf\<rparr>;
          progress = tool_execute_progress T (bk_lib b1);
          req = tool_peek_completed_client_request T (bk_lib b1);
          a1 = a\<lparr>ap_blk := b1\<rparr>
      in if valid req
         then (app_exit (if req_success req then 0 else - 1)
                 (a1\<lparr>ap_blk := b1\<lparr>bk_lib := tool_drop_completed_client_request T (bk_lib b1) req\<rparr>\<rparr>), progress)
         else (a1, progress))"

definition app_pass ::
  "'l check_library \<Rightarrow> 's packet_stream \<Rightarrow> (operation \<Rightarrow> block_op_type option)
    \<Rightarrow> (block_op_type \<Rightarrow> operation \<Rightarrow> bool) \<Rightarrow> u64 \<Rightarrow> ('l, 's) app \<Rightarrow> (('l, 's) app \<times> bool) run" where
  "app_pass T S opcode op_match ratio a =
     (case app_library T a of (a1, progress) \<Rightarrow>
      bind_run (backend_io T S opcode op_match ratio (ap_blk a1, progress)) (\<lambda>(b, p).
        Some (Inr (a1\<lparr>ap_blk := b\<rparr>, p))))"

definition app_execute ::
  "'l check_library \<Rightarrow> 's packet_stream \<Rightarrow> (operation \<Rightarrow> block_op_type option)
    \<Rightarrow> (block_op_type \<Rightarrow> operation \<Rightarrow> bool) \<Rightarrow> u64 \<Rightarrow> ('l, 's) app \<Rightarrow> ('l, 's) app run" where
  "app_execute T S opcode op_match ratio a =
     bind_run (run_while (app_pass T S opcode op_match ratio) a) (\<lambda>a1.
       Some (Inr (a1\<lparr>ap_blk := (ap_blk a1)\<lparr>bk_tx := ps_wakeup S (bk_tx (ap_blk a1))\<rparr>\<rparr>)))"

text \<open>The method \<open>_execute\<close> of each tool.\<close>

definition init_execute ::
  "'l check_library \<Rightarrow> 's packet_stream \<Rightarrow> u64 \<Rightarrow> ('l, 's) app \<Rightarrow> ('l, 's) app run" where
  "init_execute T S ratio a = app_execute T S init_opcode init_op_match ratio a"

definition check_execute ::
  "'l check_library \<Rightarrow> 's packet_stream \<Rightarrow> u64 \<Rightarrow> ('l, 's) app \<Rightarrow> ('l, 's) app run" where
  "check_execute T S ratio a = app_execute T S check_opcode check_op_match ratio a"

definition dump_execute ::
  "'l check_library \<Rightarrow> 's packet_stream \<Rightarrow> u64 \<Rightarrow> ('l, 's) app \<Rightarrow> ('l, 's) app run" where
  "dump_execute T S ratio a = app_execute T S check_opcode check_op_match ratio a"

text \<open>
  The members of \<open>Main\<close>: \<open>block_size\<close> is the block size of the connection, which Genode's block
  session gives as a positive number.
\<close>

definition new_app :: "'l \<Rightarrow> 's \<Rightarrow> ('l, 's) app" where
  "new_app l tx =
     \<lparr> ap_blk = \<lparr> bk_lib = l, bk_tx = tx, bk_req = invalid_request, bk_buf = new_buffer \<rparr>,
       ap_exits = [] \<rparr>"

definition blk_ratio :: "u64 \<Rightarrow> u64" where
  "blk_ratio block_size = BLOCK_SIZE div block_size"

definition tool_request :: request where
  "tool_request = make_request READ False 0 0 0 0 0"

definition submit_tool_request ::
  "'l check_library \<Rightarrow> ('l \<Rightarrow> request \<Rightarrow> 'l) \<Rightarrow> ('l, 's) app \<Rightarrow> ('l, 's) app" where
  "submit_tool_request T submit a =
     (let a1 = (if tool_client_request_acceptable T (bk_lib (ap_blk a)) then a else app_exit (- 1) a)
      in a1\<lparr>ap_blk := (ap_blk a1)\<lparr>bk_lib := submit (bk_lib (ap_blk a1)) tool_request\<rparr>\<rparr>)"

definition init_main ::
  "'l check_library \<Rightarrow> ('l \<Rightarrow> request \<Rightarrow> u64 \<Rightarrow> u64 \<Rightarrow> u64 \<Rightarrow> u64 \<Rightarrow> u64 \<Rightarrow> u64 \<Rightarrow> 'l) \<Rightarrow> 's packet_stream
    \<Rightarrow> u64 \<Rightarrow> exn + init_configuration \<Rightarrow> ('l, 's) app \<Rightarrow> ('l, 's) app run" where
  "init_main T submit S block_size config a =
     (if blk_ratio block_size = 0 then Some (Inr (app_exit (- 1) a))
      else
        (case config of
           Inl e \<Rightarrow> if e = Configuration_Invalid then Some (Inr (app_exit (- 1) a)) else Some (Inl e)
         | Inr cfg \<Rightarrow>
             init_execute T S (blk_ratio block_size)
               (submit_tool_request T
                  (\<lambda>l r. submit l r (vbd_nr_of_lvls cfg - 1) (vbd_nr_of_children cfg) (vbd_nr_of_leafs cfg)
                           (ft_nr_of_lvls cfg - 1) (ft_nr_of_children cfg) (ft_nr_of_leafs cfg)) a)))"

definition check_main ::
  "'l check_library \<Rightarrow> ('l \<Rightarrow> request \<Rightarrow> 'l) \<Rightarrow> 's packet_stream \<Rightarrow> u64 \<Rightarrow> ('l, 's) app \<Rightarrow> ('l, 's) app run" where
  "check_main T submit S block_size a =
     (if blk_ratio block_size = 0 then Some (Inr (app_exit (- 1) a))
      else check_execute T S (blk_ratio block_size) (submit_tool_request T submit a))"

definition dump_main ::
  "'l check_library \<Rightarrow> ('l \<Rightarrow> request \<Rightarrow> dump_configuration \<Rightarrow> 'l) \<Rightarrow> 's packet_stream \<Rightarrow> u64
    \<Rightarrow> dump_configuration option \<Rightarrow> ('l, 's) app \<Rightarrow> ('l, 's) app run" where
  "dump_main T submit S block_size config a =
     (if blk_ratio block_size = 0 then Some (Inr (app_exit (- 1) a))
      else
        (let a1 = (if tool_client_request_acceptable T (bk_lib (ap_blk a)) then a else app_exit (- 1) a) in
         case config of
           None \<Rightarrow> Some (Inr (app_exit 1 a1))
         | Some cfg \<Rightarrow>
             dump_execute T S (blk_ratio block_size)
               (a1\<lparr>ap_blk := (ap_blk a1)\<lparr>bk_lib := submit (bk_lib (ap_blk a1)) tool_request cfg\<rparr>\<rparr>)))"

section \<open>The line buffer\<close>

definition BUF_SIZE :: nat where "BUF_SIZE = 256"

text \<open>\<open>lb_log\<close> lists the lines that were logged.\<close>

record log_buffer =
  lb_buf :: string
  lb_left :: nat
  lb_log :: "string list"

definition log_char :: "char \<Rightarrow> log_buffer \<Rightarrow> log_buffer" where
  "log_char c b =
     (if c = CHR 0x0A \<or> lb_left b = 0
      then b\<lparr>lb_log := lb_log b @ [take (BUF_SIZE - lb_left b) (lb_buf b)], lb_left := BUF_SIZE\<rparr>
      else b\<lparr>lb_buf := (lb_buf b)[BUF_SIZE - lb_left b := c], lb_left := lb_left b - 1\<rparr>)"

definition print_cstring_buffered :: "string \<Rightarrow> log_buffer \<Rightarrow> log_buffer" where
  "print_cstring_buffered input b = fold log_char input b"

section \<open>Properties\<close>

theorem init_configuration_valid:
  "new_init_configuration vbd ft = Inr cfg \<longleftrightarrow>
     (tree_values vbd = (vbd_nr_of_lvls cfg, vbd_nr_of_children cfg, vbd_nr_of_leafs cfg)
      \<and> tree_values ft = (ft_nr_of_lvls cfg, ft_nr_of_children cfg, ft_nr_of_leafs cfg)
      \<and> 0 \<notin> {vbd_nr_of_lvls cfg, vbd_nr_of_children cfg, vbd_nr_of_leafs cfg,
             ft_nr_of_lvls cfg, ft_nr_of_children cfg, ft_nr_of_leafs cfg})"
  by (cases "tree_values vbd"; cases "tree_values ft") (auto simp: new_init_configuration_def)

theorem app_pass_exit_code:
  assumes "tool_execute T (bk_lib (ap_blk a)) (bk_buf (ap_blk a)) = (l, buf)"
    and "app_pass T S opcode op_match ratio a = Some (Inr (a', progress))"
  shows "ap_exits a' = ap_exits a @
     (if valid (tool_peek_completed_client_request T l)
      then [if req_success (tool_peek_completed_client_request T l) then 0 else - 1] else [])"
  using assms
  by (auto simp: app_pass_def app_library_def Let_def app_exit_def split: prod.splits if_splits
      elim!: bind_run_InrE)

lemma log_chars:
  assumes "length (lb_buf b) = BUF_SIZE" "lb_left b = BUF_SIZE" "length line \<le> BUF_SIZE"
    "CHR 0x0A \<notin> set line"
  shows "\<exists>buf. fold log_char line b = b\<lparr>lb_buf := buf, lb_left := BUF_SIZE - length line\<rparr>
     \<and> take (length line) buf = line \<and> length buf = BUF_SIZE"
  using assms
proof (induction line rule: rev_induct)
  case Nil
  then show ?case by (intro exI [of _ "lb_buf b"]) (cases b, simp)
next
  case (snoc c cs)
  from snoc.prems obtain buf where buf: "fold log_char cs b = b\<lparr>lb_buf := buf, lb_left := BUF_SIZE - length cs\<rparr>"
      "take (length cs) buf = cs" "length buf = BUF_SIZE"
    using snoc.IH by auto
  have "take (Suc (length cs)) (buf[length cs := c]) = cs @ [c]"
    using buf snoc.prems(3) by (simp add: take_Suc_conv_app_nth take_update_cancel)
  moreover have "fold log_char (cs @ [c]) b = log_char c (b\<lparr>lb_buf := buf, lb_left := BUF_SIZE - length cs\<rparr>)"
    using buf(1) by simp
  moreover have "log_char c (b\<lparr>lb_buf := buf, lb_left := BUF_SIZE - length cs\<rparr>)
      = b\<lparr>lb_buf := buf[length cs := c], lb_left := BUF_SIZE - Suc (length cs)\<rparr>"
    using snoc.prems(3,4) by (auto simp: log_char_def)
  ultimately show ?case using buf(3) by (intro exI [of _ "buf[length cs := c]"]) simp
qed

theorem print_cstring_buffered_line:
  assumes "length (lb_buf b) = BUF_SIZE" "lb_left b = BUF_SIZE" "length line \<le> BUF_SIZE"
    "CHR 0x0A \<notin> set line"
  shows "lb_log (print_cstring_buffered (line @ [CHR 0x0A]) b) = lb_log b @ [line]
     \<and> lb_left (print_cstring_buffered (line @ [CHR 0x0A]) b) = BUF_SIZE
     \<and> length (lb_buf (print_cstring_buffered (line @ [CHR 0x0A]) b)) = BUF_SIZE"
proof -
  obtain buf where buf: "fold log_char line b = b\<lparr>lb_buf := buf, lb_left := BUF_SIZE - length line\<rparr>"
      "take (length line) buf = line" "length buf = BUF_SIZE"
    using log_chars [OF assms] by blast
  have "BUF_SIZE - (BUF_SIZE - length line) = length line" using assms(3) by simp
  with buf show ?thesis by (simp add: print_cstring_buffered_def log_char_def)
qed

theorem print_cstring_buffered_drops:
  assumes "length (lb_buf b) = BUF_SIZE" "lb_left b = BUF_SIZE" "length line = BUF_SIZE"
    "CHR 0x0A \<notin> set line"
  shows "lb_log (print_cstring_buffered (line @ c # rest) b)
       = lb_log (print_cstring_buffered (line @ CHR 0x0A # rest) b)"
proof -
  obtain buf where buf: "fold log_char line b = b\<lparr>lb_buf := buf, lb_left := BUF_SIZE - length line\<rparr>"
      "take (length line) buf = line" "length buf = BUF_SIZE"
    using log_chars [OF assms(1,2) _ assms(4)] assms(3) by auto
  with assms(3) show ?thesis by (simp add: print_cstring_buffered_def log_char_def)
qed

theorem print_cstring_buffered_line_witness:
  "lb_log (print_cstring_buffered (''ok'' @ [CHR 0x0A])
     \<lparr> lb_buf = replicate 256 CHR 0x00, lb_left = BUF_SIZE, lb_log = [''before''] \<rparr>) = [''before'', ''ok'']"
  using print_cstring_buffered_line [of "\<lparr> lb_buf = replicate 256 CHR 0x00, lb_left = BUF_SIZE,
      lb_log = [''before''] \<rparr>" "''ok''"]
  by (simp add: BUF_SIZE_def)

end
