(* ===== verification/Tester_Session.thy ===== *)
theory Tester_Session
  imports Apps
begin

text \<open>
  The tester's block session (\<open>src/app/cbe_tester/main.cc\<close>, up to \<open>class Cbe::Main\<close>): the tests
  read from the configuration, the queue they wait in, the test in progress, the created
  snapshots and the operations with which \<open>Main\<close> takes a test and reports its end.

  \<^item> A test is a tagged union; the code keeps one \<open>Constructible\<close> per kind beside the tag.
  \<^item> Each \<open>with_*\<close> method hands the test at the head of the queue to a function of \<open>Main\<close>. Here
    it returns the session and the function's argument, \<open>None\<close> when the function is not called.
  \<^item> Genode's AVL tree stores the created snapshots. \<open>find_by_id\<close> is the repository's own search
    in it; how the tree inserts and removes is an argument of the definitions. Its number
    parsers are the fields of \<open>node_parsers\<close>.
\<close>

section \<open>Created snapshots\<close>

text \<open>A node with the subtrees \<open>child(LEFT)\<close> and \<open>child(RIGHT)\<close>; \<open>LEFT\<close> is 0 and \<open>RIGHT\<close> is 1.\<close>

datatype snap_tree = No_Snap | Snap snap_tree u64 u64 snap_tree

fun find_by_id :: "snap_tree \<Rightarrow> u64 \<Rightarrow> exn + u64" where
  "find_by_id No_Snap ident = Inl Failed_to_find_created_snapshot"
| "find_by_id (Snap l i generation r) ident =
     (if ident = i then Inr generation else find_by_id (if i > ident then r else l) ident)"

definition higher :: "u64 \<Rightarrow> u64 \<Rightarrow> bool" where
  "higher this other \<longleftrightarrow> this > other"

text \<open>The identifiers and generations in a tree, and the order \<open>higher\<close> gives it.\<close>

fun created :: "snap_tree \<Rightarrow> (u64 \<times> u64) list" where
  "created No_Snap = []"
| "created (Snap l i generation r) = created l @ (i, generation) # created r"

fun ordered_tree :: "snap_tree \<Rightarrow> bool" where
  "ordered_tree No_Snap \<longleftrightarrow> True"
| "ordered_tree (Snap l i generation r) \<longleftrightarrow>
     ordered_tree l \<and> ordered_tree r
     \<and> (\<forall>(j, g) \<in> set (created l). \<not> higher i j) \<and> (\<forall>(j, g) \<in> set (created r). \<not> higher j i)"

record avl_tree =
  avl_insert :: "snap_tree \<Rightarrow> u64 \<Rightarrow> u64 \<Rightarrow> snap_tree"
  avl_remove :: "snap_tree \<Rightarrow> u64 \<Rightarrow> snap_tree"

section \<open>Tests\<close>

datatype test =
    Test_Invalid
  | Test_Request block_request
  | Test_Create_Snapshot u64
  | Test_Discard_Snapshot u64
  | Test_Rekey
  | Test_Deinitialize
  | Test_Extend_Vbd u32
  | Test_Extend_Ft u32
  | Test_Initialize init_configuration
  | Test_Check
  | Test_Dump dump_configuration
  | Test_List_Snapshots

text \<open>
  \<open>bs_exits\<close> lists the exit codes reported to the parent; reporting one does not stop the
  program.
\<close>

record session =
  bs_queue :: "test list"
  bs_in_progress :: "test option"
  bs_failed :: u64
  bs_blk_data :: block_data
  bs_created :: snap_tree
  bs_exits :: "int list"

record node_parsers =
  node_u64 :: "string \<Rightarrow> u64 option"
  node_u32 :: "string \<Rightarrow> u32 option"
  node_bool :: "string \<Rightarrow> bool option"

subsection \<open>Reading the configuration\<close>

definition enqueue :: "test \<Rightarrow> session \<Rightarrow> session" where
  "enqueue t s = s\<lparr>bs_queue := bs_queue s @ [t]\<rparr>"

text \<open>
  An attribute that must be present and well-formed; either failure ends in the node's own
  exception.
\<close>

definition node_value :: "string \<Rightarrow> (string \<Rightarrow> 'a option) \<Rightarrow> string \<Rightarrow> xml \<Rightarrow> exn + 'a" where
  "node_value what parse name node =
     (case map_of (xml_attributes node) name of
        None \<Rightarrow> Inl (Bad_node what)
      | Some v \<Rightarrow> (case parse v of None \<Rightarrow> Inl (Bad_node what) | Some x \<Rightarrow> Inr x))"

definition request_type :: "string \<Rightarrow> block_op_type option" where
  "request_type v =
     (if v = ''read'' then Some B_READ else if v = ''write'' then Some B_WRITE
      else if v = ''sync'' then Some B_SYNC else None)"

definition read_request_node :: "node_parsers \<Rightarrow> xml \<Rightarrow> session \<Rightarrow> exn + session" where
  "read_request_node P node s =
     bind_exn (node_value ''request'' request_type ''type'' node) (\<lambda>t.
     bind_exn (node_value ''request'' (node_u64 P) ''lba'' node) (\<lambda>lba.
     bind_exn (node_value ''request'' (node_u64 P) ''count'' node) (\<lambda>n.
       Inr (enqueue (Test_Request
         \<lparr> blk_type = t, blk_block_number = lba, blk_count = n, blk_success = False,
           blk_offset = 0, blk_tag = 0 \<rparr>) s))))"

definition read_create_snapshot_node :: "node_parsers \<Rightarrow> xml \<Rightarrow> session \<Rightarrow> exn + session" where
  "read_create_snapshot_node P node s =
     bind_exn (node_value ''create-snapshot'' (node_u64 P) ''id'' node) (\<lambda>i.
       Inr (enqueue (Test_Create_Snapshot i) s))"

definition read_discard_snapshot_node :: "node_parsers \<Rightarrow> xml \<Rightarrow> session \<Rightarrow> exn + session" where
  "read_discard_snapshot_node P node s =
     bind_exn (node_value ''discard-snapshot'' (node_u64 P) ''id'' node) (\<lambda>i.
       Inr (enqueue (Test_Discard_Snapshot i) s))"

definition read_extend_vbd_node :: "node_parsers \<Rightarrow> xml \<Rightarrow> session \<Rightarrow> exn + session" where
  "read_extend_vbd_node P node s =
     bind_exn (node_value ''extend-vbd'' (node_u32 P) ''nr_of_phys_blocks'' node) (\<lambda>n.
       Inr (enqueue (Test_Extend_Vbd n) s))"

definition read_extend_ft_node :: "node_parsers \<Rightarrow> xml \<Rightarrow> session \<Rightarrow> exn + session" where
  "read_extend_ft_node P node s =
     bind_exn (node_value ''extend-ft'' (node_u32 P) ''nr_of_phys_blocks'' node) (\<lambda>n.
       Inr (enqueue (Test_Extend_Ft n) s))"

definition read_rekey_node :: "session \<Rightarrow> session" where
  "read_rekey_node s = enqueue Test_Rekey s"

definition read_deinitialize_node :: "session \<Rightarrow> session" where
  "read_deinitialize_node s = enqueue Test_Deinitialize s"

definition read_list_snapshots_node :: "session \<Rightarrow> session" where
  "read_list_snapshots_node s = enqueue Test_List_Snapshots s"

definition read_check_node :: "session \<Rightarrow> session" where
  "read_check_node s = enqueue Test_Check s"

definition read_replay_sub_node :: "node_parsers \<Rightarrow> xml \<Rightarrow> session \<Rightarrow> exn + session" where
  "read_replay_sub_node P node s =
     (if has_type node ''request'' then read_request_node P node s
      else if has_type node ''create-snapshot'' then read_create_snapshot_node P node s
      else if has_type node ''discard-snapshot'' then read_discard_snapshot_node P node s
      else if has_type node ''rekey'' then Inr (read_rekey_node s)
      else if has_type node ''deinitialize'' then Inr (read_deinitialize_node s)
      else if has_type node ''list-snapshots'' then Inr (read_list_snapshots_node s)
      else if has_type node ''extend-vbd'' then read_extend_vbd_node P node s
      else if has_type node ''extend-ft'' then read_extend_ft_node P node s
      else Inl (Bad_node ''replay''))"

text \<open>
  The loops over the sub-nodes: they start at the first sub-node and end when \<open>next\<close> or the
  first access throws \<open>Nonexistent_sub_node\<close>.
\<close>

fun read_nodes :: "(xml \<Rightarrow> session \<Rightarrow> exn + session) \<Rightarrow> xml list \<Rightarrow> session \<Rightarrow> exn + session" where
  "read_nodes f [] s = Inr s"
| "read_nodes f (n # ns) s = bind_exn (f n s) (read_nodes f ns)"

definition read_replay_node :: "node_parsers \<Rightarrow> xml \<Rightarrow> session \<Rightarrow> exn + session" where
  "read_replay_node P node s = read_nodes (read_replay_sub_node P) (xml_nodes node) s"

definition parsed_attribute :: "(string \<Rightarrow> 'a option) \<Rightarrow> xml \<Rightarrow> string \<Rightarrow> 'a option" where
  "parsed_attribute parse node name = Option.bind (map_of (xml_attributes node) name) parse"

definition tree_node :: "node_parsers \<Rightarrow> string \<Rightarrow> xml \<Rightarrow> tree_attributes option" where
  "tree_node P name node =
     map_option (\<lambda>n. \<lparr> ta_nr_of_levels = parsed_attribute (node_u64 P) n ''nr_of_levels'',
                       ta_nr_of_children = parsed_attribute (node_u64 P) n ''nr_of_children'',
                       ta_nr_of_leafs = parsed_attribute (node_u64 P) n ''nr_of_leafs'' \<rparr>)
       (find (\<lambda>n. has_type n name) (xml_nodes node))"

definition read_initialize_node :: "node_parsers \<Rightarrow> xml \<Rightarrow> session \<Rightarrow> exn + session" where
  "read_initialize_node P node s =
     bind_exn (new_init_configuration (tree_node P ''virtual-block-device'' node)
                 (tree_node P ''free-tree'' node)) (\<lambda>cfg.
       Inr (enqueue (Test_Initialize cfg) s))"

definition read_dump_node :: "node_parsers \<Rightarrow> xml \<Rightarrow> session \<Rightarrow> exn + session" where
  "read_dump_node P node s =
     Inr (enqueue (Test_Dump (new_dump_configuration (parsed_attribute (node_bool P) node)
       (parsed_attribute (node_u32 P) node) (parsed_attribute (node_u64 P) node))) s)"

definition read_tests_sub_node :: "node_parsers \<Rightarrow> xml \<Rightarrow> session \<Rightarrow> exn + session" where
  "read_tests_sub_node P node s =
     (if has_type node ''replay'' then read_replay_node P node s
      else if has_type node ''initialize'' then read_initialize_node P node s
      else if has_type node ''check'' then Inr (read_check_node s)
      else if has_type node ''dump'' then read_dump_node P node s
      else Inr s)"

definition read_tests_node :: "node_parsers \<Rightarrow> xml \<Rightarrow> session \<Rightarrow> exn + session" where
  "read_tests_node P node s = read_nodes (read_tests_sub_node P) (xml_nodes node) s"

definition session_members :: session where
  "session_members =
     \<lparr> bs_queue = [], bs_in_progress = None, bs_failed = 0,
       bs_blk_data = map (\<lambda>idx. of_nat idx + 1) [0..<unat BLOCK_SIZE],
       bs_created = No_Snap, bs_exits = [] \<rparr>"

definition new_session :: "node_parsers \<Rightarrow> xml \<Rightarrow> exn + session" where
  "new_session P config =
     (case find (\<lambda>n. has_type n ''tests'') (xml_nodes config) of
        None \<Rightarrow> Inr session_members
      | Some node \<Rightarrow> read_tests_node P node session_members)"

section \<open>Taking a test\<close>

definition session_exit :: "session \<Rightarrow> session" where
  "session_exit s = s\<lparr>bs_exits := bs_exits s @ [if bs_failed s > 0 then - 1 else 0]\<rparr>"

text \<open>
  The common part of the \<open>with_*\<close> methods: the head of the queue becomes the test in progress if
  it is of the kind in question; an empty queue ends the program.
\<close>

definition with_test :: "(test \<Rightarrow> 'a option) \<Rightarrow> session \<Rightarrow> session \<times> 'a option" where
  "with_test kind s =
     (if bs_in_progress s \<noteq> None then (s, None)
      else
        (case bs_queue s of
           [] \<Rightarrow> (session_exit s, None)
         | t # ts \<Rightarrow>
             (case kind t of
                None \<Rightarrow> (s, None)
              | Some x \<Rightarrow> (s\<lparr>bs_queue := ts, bs_in_progress := Some t\<rparr>, Some x))))"

fun as_request :: "test \<Rightarrow> block_request option" where
  "as_request (Test_Request r) = Some r" | "as_request _ = None"

fun as_create :: "test \<Rightarrow> u64 option" where
  "as_create (Test_Create_Snapshot i) = Some i" | "as_create _ = None"

fun as_discard :: "test \<Rightarrow> u64 option" where
  "as_discard (Test_Discard_Snapshot i) = Some i" | "as_discard _ = None"

fun as_extend_vbd :: "test \<Rightarrow> u32 option" where
  "as_extend_vbd (Test_Extend_Vbd n) = Some n" | "as_extend_vbd _ = None"

fun as_extend_ft :: "test \<Rightarrow> u32 option" where
  "as_extend_ft (Test_Extend_Ft n) = Some n" | "as_extend_ft _ = None"

fun as_initialize :: "test \<Rightarrow> init_configuration option" where
  "as_initialize (Test_Initialize cfg) = Some cfg" | "as_initialize _ = None"

fun as_dump :: "test \<Rightarrow> dump_configuration option" where
  "as_dump (Test_Dump cfg) = Some cfg" | "as_dump _ = None"

definition as_test :: "test \<Rightarrow> test \<Rightarrow> unit option" where
  "as_test t u = (if u = t then Some () else None)"

definition with_requests :: "session \<Rightarrow> session \<times> block_request option" where
  "with_requests s = with_test as_request s"

definition with_create_snapshot :: "session \<Rightarrow> session \<times> u64 option" where
  "with_create_snapshot s = with_test as_create s"

definition session_failed :: "session \<Rightarrow> session" where
  "session_failed s = s\<lparr>bs_failed := bs_failed s + 1\<rparr>"

definition test_end :: "session \<Rightarrow> session" where
  "test_end s = s\<lparr>bs_in_progress := None\<rparr>"

text \<open>\<open>with_discard_snapshot\<close> calls the function with the generation of the snapshot.\<close>

definition with_discard_snapshot :: "session \<Rightarrow> session \<times> u64 option" where
  "with_discard_snapshot s =
     (case with_test as_discard s of
        (s1, None) \<Rightarrow> (s1, None)
      | (s1, Some i) \<Rightarrow>
          (case find_by_id (bs_created s1) i of
             Inr generation \<Rightarrow> (s1, Some generation)
           | Inl e \<Rightarrow> (test_end (session_failed s1), None)))"

definition with_deinitialize :: "session \<Rightarrow> session \<times> unit option" where
  "with_deinitialize s = with_test (as_test Test_Deinitialize) s"

definition with_rekey :: "session \<Rightarrow> session \<times> unit option" where
  "with_rekey s = with_test (as_test Test_Rekey) s"

definition with_extend_vbd :: "session \<Rightarrow> session \<times> u32 option" where
  "with_extend_vbd s = with_test as_extend_vbd s"

definition with_extend_ft :: "session \<Rightarrow> session \<times> u32 option" where
  "with_extend_ft s = with_test as_extend_ft s"

definition with_check :: "session \<Rightarrow> session \<times> unit option" where
  "with_check s = with_test (as_test Test_Check) s"

definition with_dump :: "session \<Rightarrow> session \<times> dump_configuration option" where
  "with_dump s = with_test as_dump s"

definition with_initialize :: "session \<Rightarrow> session \<times> init_configuration option" where
  "with_initialize s = with_test as_initialize s"

text \<open>The function that lists the snapshots only prints; the test ends with it.\<close>

definition with_list_snapshots :: "session \<Rightarrow> session" where
  "with_list_snapshots s =
     (case with_test (as_test Test_List_Snapshots) s of
        (s1, None) \<Rightarrow> s1 | (s1, Some _) \<Rightarrow> test_end s1)"

definition listed_snapshots :: "u64 list \<Rightarrow> u64 list" where
  "listed_snapshots ids = filter (\<lambda>i. i \<noteq> 0) ids"

definition cbe_request_next :: "session \<Rightarrow> bool" where
  "cbe_request_next s =
     (case bs_queue s of
        [] \<Rightarrow> False
      | t # ts \<Rightarrow>
          as_request t \<noteq> None \<or> as_create t \<noteq> None \<or> as_discard t \<noteq> None \<or> t = Test_Rekey
          \<or> t = Test_Deinitialize \<or> as_extend_vbd t \<noteq> None \<or> as_extend_ft t \<noteq> None)"

section \<open>Reporting the end of a test\<close>

text \<open>
  A method that reads the member of the test in progress throws when there is none.
\<close>

definition test_in_progress :: "(test \<Rightarrow> 'a option) \<Rightarrow> session \<Rightarrow> exn + 'a" where
  "test_in_progress kind s =
     (case Option.bind (bs_in_progress s) kind of None \<Rightarrow> Inl Deref_unconstructed_object | Some x \<Rightarrow> Inr x)"

definition test_done :: "bool \<Rightarrow> session \<Rightarrow> session" where
  "test_done success s = test_end (if success then s else session_failed s)"

definition deinitialize_done :: "bool \<Rightarrow> session \<Rightarrow> session" where
  "deinitialize_done success s = test_done success s"

definition rekey_done :: "bool \<Rightarrow> session \<Rightarrow> session" where
  "rekey_done success s = test_done success s"

definition check_done :: "bool \<Rightarrow> session \<Rightarrow> session" where
  "check_done success s = test_done success s"

definition dump_done :: "bool \<Rightarrow> session \<Rightarrow> session" where
  "dump_done success s = test_done success s"

definition initialize_done :: "bool \<Rightarrow> session \<Rightarrow> session" where
  "initialize_done success s = test_done success s"

definition submit_ack :: "block_request \<Rightarrow> session \<Rightarrow> session" where
  "submit_ack r s =
     (let s1 = (if blk_success r then s else session_failed s)
      in test_end (s1\<lparr>bs_blk_data := map (\<lambda>b. b + 1) (bs_blk_data s1)\<rparr>))"

text \<open>\<open>Generation\<close> is 64 bits wide, as is the offset it is taken from.\<close>

definition create_snapshot_done :: "avl_tree \<Rightarrow> request \<Rightarrow> session \<Rightarrow> exn + session" where
  "create_snapshot_done A r s =
     bind_exn (test_in_progress as_create s) (\<lambda>i.
       Inr (if req_success r
            then test_end (s\<lparr>bs_created := avl_insert A (bs_created s) i (req_offset r)\<rparr>)
            else test_end (session_failed s)))"

definition discard_snapshot_done :: "avl_tree \<Rightarrow> request \<Rightarrow> session \<Rightarrow> exn + session" where
  "discard_snapshot_done A r s =
     bind_exn (test_in_progress as_discard s) (\<lambda>i.
       if req_success r
       then bind_exn (find_by_id (bs_created s) i) (\<lambda>_.
              Inr (test_end (s\<lparr>bs_created := avl_remove A (bs_created s) i\<rparr>)))
       else Inr (test_end (session_failed s)))"

definition extend_vbd_done :: "bool \<Rightarrow> session \<Rightarrow> exn + session" where
  "extend_vbd_done success s =
     bind_exn (test_in_progress as_extend_vbd s) (\<lambda>_. Inr (test_done success s))"

definition extend_ft_done :: "bool \<Rightarrow> session \<Rightarrow> exn + session" where
  "extend_ft_done success s =
     bind_exn (test_in_progress as_extend_ft s) (\<lambda>_. Inr (test_done success s))"

section \<open>Properties\<close>

lemma find_by_id_result:
  assumes "ordered_tree t"
  shows "case find_by_id t ident of Inr g \<Rightarrow> (ident, g) \<in> set (created t)
     | Inl e \<Rightarrow> e = Failed_to_find_created_snapshot \<and> ident \<notin> fst ` set (created t)"
  using assms
proof (induction t)
  case (Snap l i g r)
  show ?case
  proof (cases "i > ident")
    case True
    then have "ident \<notin> fst ` set (created l)" using Snap.prems by (fastforce simp: higher_def)
    with True Snap show ?thesis by (auto split: sum.splits)
  next
    case False
    show ?thesis
    proof (cases "ident = i")
      case neq: False
      with False have "ident \<notin> fst ` set (created r)" using Snap.prems by (fastforce simp: higher_def)
      with False neq Snap show ?thesis by (auto split: sum.splits)
    qed simp
  qed
qed simp

theorem find_by_id_correct:
  assumes "ordered_tree t"
  shows "(\<forall>g. find_by_id t ident = Inr g \<longrightarrow> (ident, g) \<in> set (created t))
    \<and> (find_by_id t ident = Inl Failed_to_find_created_snapshot \<longleftrightarrow> ident \<notin> fst ` set (created t))"
  using find_by_id_result [OF assms, of ident] by (force split: sum.splits)

text \<open>
  Reading a \<open>replay\<close> node appends one test for each of its sub-nodes, in their order, or fails
  with the first sub-node that is no test.
\<close>

lemma sub_node_enqueues:
  "read_replay_sub_node P n s = Inr s' \<Longrightarrow> \<exists>t. \<forall>s0. read_replay_sub_node P n s0 = Inr (enqueue t s0)"
  unfolding read_replay_sub_node_def read_rekey_node_def read_deinitialize_node_def
    read_list_snapshots_node_def read_request_node_def read_create_snapshot_node_def
    read_discard_snapshot_node_def read_extend_vbd_node_def read_extend_ft_node_def
  by (auto split: if_splits elim!: bind_exn_InrE)

lemma read_nodes_enqueues:
  assumes "read_nodes f ns s = Inr s'"
    and "\<And>n s s'. f n s = Inr s' \<Longrightarrow> \<exists>t. \<forall>s0. f n s0 = Inr (enqueue t s0)"
  shows "\<exists>ts. list_all2 (\<lambda>n t. \<forall>s0. f n s0 = Inr (enqueue t s0)) ns ts
     \<and> s' = s\<lparr>bs_queue := bs_queue s @ ts\<rparr>"
  using assms(1)
proof (induction ns arbitrary: s)
  case (Cons n ns)
  then obtain s1 where s1: "f n s = Inr s1" "read_nodes f ns s1 = Inr s'" by (auto elim: bind_exn_InrE)
  with assms(2) obtain t where t: "\<forall>s0. f n s0 = Inr (enqueue t s0)" by blast
  from Cons.IH [OF s1(2)] obtain ts
    where "list_all2 (\<lambda>n t. \<forall>s0. f n s0 = Inr (enqueue t s0)) ns ts" "s' = s1\<lparr>bs_queue := bs_queue s1 @ ts\<rparr>"
    by blast
  moreover have "s1 = enqueue t s" using s1(1) t by simp
  ultimately show ?case using t by (intro exI [of _ "t # ts"]) (simp add: enqueue_def)
qed (auto intro: exI [of _ "[]"])

theorem replay_node_tests:
  assumes "read_replay_node P (Xml name attrs ns) s = Inr s'"
  shows "\<exists>ts. list_all2 (\<lambda>n t. \<forall>s0. read_replay_sub_node P n s0 = Inr (enqueue t s0)) ns ts
     \<and> s' = s\<lparr>bs_queue := bs_queue s @ ts\<rparr>"
  using read_nodes_enqueues [of "read_replay_sub_node P" ns s s'] sub_node_enqueues assms
  by (simp add: read_replay_node_def)

theorem discard_unknown_snapshot:
  assumes "bs_in_progress s = None" "bs_queue s = Test_Discard_Snapshot i # ts"
    and "ordered_tree (bs_created s)" "i \<notin> fst ` set (created (bs_created s))"
  shows "with_discard_snapshot s
     = (s\<lparr>bs_queue := ts, bs_in_progress := None, bs_failed := bs_failed s + 1\<rparr>, None)"
proof -
  have "find_by_id (bs_created s) i = Inl Failed_to_find_created_snapshot"
    using find_by_id_result [OF assms(3), of i] assms(4) by (force split: sum.splits)
  with assms(1,2) show ?thesis
    by (simp add: with_discard_snapshot_def with_test_def test_end_def session_failed_def)
qed

text \<open>
  The steps of a session during which the snapshot \<open>i\<close> is neither created nor discarded: every
  operation that the tester calls, with any answer of the library. The last two rules are the
  exchange of block data and the report of an exit code.
\<close>

inductive session_step :: "avl_tree \<Rightarrow> u64 \<Rightarrow> session \<Rightarrow> session \<Rightarrow> bool" for A i where
  "session_step A i s (fst (with_requests s))"
| "session_step A i s (fst (with_create_snapshot s))"
| "session_step A i s (fst (with_discard_snapshot s))"
| "session_step A i s (fst (with_deinitialize s))"
| "session_step A i s (fst (with_rekey s))"
| "session_step A i s (fst (with_extend_vbd s))"
| "session_step A i s (fst (with_extend_ft s))"
| "session_step A i s (fst (with_check s))"
| "session_step A i s (fst (with_dump s))"
| "session_step A i s (fst (with_initialize s))"
| "session_step A i s (with_list_snapshots s)"
| "session_step A i s (test_done success s)"
| "session_step A i s (submit_ack r s)"
| "extend_vbd_done success s = Inr s' \<Longrightarrow> session_step A i s s'"
| "extend_ft_done success s = Inr s' \<Longrightarrow> session_step A i s s'"
| "create_snapshot_done A r s = Inr s' \<Longrightarrow> bs_in_progress s \<noteq> Some (Test_Create_Snapshot i) \<Longrightarrow>
     session_step A i s s'"
| "discard_snapshot_done A r s = Inr s' \<Longrightarrow> bs_in_progress s \<noteq> Some (Test_Discard_Snapshot i) \<Longrightarrow>
     session_step A i s s'"
| "session_step A i s (s\<lparr>bs_blk_data := block\<rparr>)"
| "session_step A i s (s\<lparr>bs_exits := codes\<rparr>)"

lemma as_snapshot_Some [simp]:
  "as_create t = Some i \<longleftrightarrow> t = Test_Create_Snapshot i"
  "as_discard t = Some i \<longleftrightarrow> t = Test_Discard_Snapshot i"
  by (cases t; auto)+

lemma created_kept [simp]:
  "bs_created (fst (with_test kind s)) = bs_created s"
  "bs_created (fst (with_discard_snapshot s)) = bs_created s"
  "bs_created (with_list_snapshots s) = bs_created s"
  "bs_created (test_done success s) = bs_created s"
  "bs_created (test_end s) = bs_created s"
  "bs_created (session_failed s) = bs_created s"
  "bs_created (submit_ack r s) = bs_created s"
proof -
  show kept: "bs_created (fst (with_test kind s)) = bs_created s"
    for kind :: "test \<Rightarrow> 'b option"
    by (simp add: with_test_def session_exit_def split: list.split option.split)
  show "bs_created (fst (with_discard_snapshot s)) = bs_created s"
    using kept [of as_discard]
    by (auto simp: with_discard_snapshot_def test_end_def session_failed_def
        split: prod.split option.split sum.split)
  show "bs_created (with_list_snapshots s) = bs_created s"
    using kept [of "as_test Test_List_Snapshots"]
    by (auto simp: with_list_snapshots_def test_end_def split: prod.split option.split)
qed (simp_all add: test_done_def test_end_def session_failed_def submit_ack_def Let_def)

text \<open>The snapshot \<open>i\<close> is in the tree once, with the generation \<open>g\<close>.\<close>

definition holds_snapshot :: "u64 \<Rightarrow> u64 \<Rightarrow> snap_tree \<Rightarrow> bool" where
  "holds_snapshot i g t \<longleftrightarrow> ordered_tree t \<and> (\<forall>h. (i, h) \<in> set (created t) \<longleftrightarrow> h = g)"

lemma holds_snapshot_found: "holds_snapshot i g t \<Longrightarrow> find_by_id t i = Inr g"
  using find_by_id_result [of t i] by (force simp: holds_snapshot_def split: sum.splits)

text \<open>What the tester expects of the AVL tree: insertion adds a node, removal takes one away.\<close>

definition avl_laws :: "avl_tree \<Rightarrow> bool" where
  "avl_laws A \<longleftrightarrow>
     (\<forall>t. ordered_tree t \<longrightarrow>
       (\<forall>i g. ordered_tree (avl_insert A t i g)
          \<and> set (created (avl_insert A t i g)) = insert (i, g) (set (created t)))
       \<and> (\<forall>i. ordered_tree (avl_remove A t i)
          \<and> (\<forall>j g. j \<noteq> i \<longrightarrow> (j, g) \<in> set (created (avl_remove A t i)) \<longleftrightarrow> (j, g) \<in> set (created t))))"

lemma session_step_keeps_snapshot:
  assumes avl: "avl_laws A" and step: "session_step A i s s'"
    and held: "holds_snapshot i g (bs_created s)"
  shows "holds_snapshot i g (bs_created s')"
proof -
  have inserted: "holds_snapshot i g (avl_insert A (bs_created s) j h)" if "j \<noteq> i" for j h
    using avl held that unfolding avl_laws_def holds_snapshot_def by auto
  have removed: "holds_snapshot i g (avl_remove A (bs_created s) j)" if "j \<noteq> i" for j
    using avl held that unfolding avl_laws_def holds_snapshot_def by auto
  from step show ?thesis
  proof cases
    case (16 r)
    then show ?thesis
      using held inserted
      by (auto simp: create_snapshot_done_def test_in_progress_def bind_eq_Some_conv
          split: option.splits if_splits elim!: bind_exn_InrE)
  next
    case (17 r)
    then show ?thesis
      using held removed
      by (auto simp: discard_snapshot_done_def test_in_progress_def bind_eq_Some_conv
          split: option.splits if_splits elim!: bind_exn_InrE)
  qed (use held in \<open>auto simp: with_requests_def with_create_snapshot_def with_deinitialize_def with_rekey_def
        with_extend_vbd_def with_extend_ft_def with_check_def with_dump_def with_initialize_def
        extend_vbd_done_def extend_ft_done_def elim!: bind_exn_InrE\<close>)
qed

lemma session_steps_keep_snapshot:
  assumes "avl_laws A" "(session_step A i)\<^sup>*\<^sup>* s s'" "holds_snapshot i g (bs_created s)"
  shows "holds_snapshot i g (bs_created s')"
  using assms(2,3) by induction (use assms(1) session_step_keeps_snapshot in blast)+

text \<open>
  C33. A snapshot that the tester has created under an identifier not in use before is found
  again when it is discarded, at once or after any sequence of operations of the session that
  neither creates nor discards this identifier: the discard becomes the test in progress, the
  generation handed to it is the one the library returned at the creation, and no failure is
  counted. What the tester expects of the AVL tree, that insertion adds a node and removal takes
  the node of the identifier away, is assumed.
\<close>

theorem created_snapshot_is_discarded:
  assumes "avl_laws A" "ordered_tree (bs_created s)" "i \<notin> fst ` set (created (bs_created s))"
    and "bs_in_progress s = Some (Test_Create_Snapshot i)" "req_success r"
  shows "\<exists>s1. create_snapshot_done A r s = Inr s1
     \<and> (\<forall>s' ts. (session_step A i)\<^sup>*\<^sup>* s1 s' \<and> bs_in_progress s' = None
          \<and> bs_queue s' = Test_Discard_Snapshot i # ts \<longrightarrow>
        with_discard_snapshot s'
          = (s'\<lparr>bs_queue := ts, bs_in_progress := Some (Test_Discard_Snapshot i)\<rparr>, Some (req_offset r)))"
proof -
  let ?s1 = "test_end (s\<lparr>bs_created := avl_insert A (bs_created s) i (req_offset r)\<rparr>)"
  have "create_snapshot_done A r s = Inr ?s1"
    using assms(4,5) by (simp add: create_snapshot_done_def test_in_progress_def)
  moreover have "holds_snapshot i (req_offset r) (bs_created ?s1)"
  proof -
    have "(i, h) \<notin> set (created (bs_created s))" for h
      using assms(3) by (metis fst_conv image_eqI)
    then show ?thesis
      using assms(1,2) by (simp add: avl_laws_def holds_snapshot_def test_end_def)
  qed
  then have "find_by_id (bs_created s') i = Inr (req_offset r)" if "(session_step A i)\<^sup>*\<^sup>* ?s1 s'" for s'
    using session_steps_keep_snapshot [OF assms(1) that] holds_snapshot_found by blast
  ultimately show ?thesis
    by (intro exI [of _ ?s1]) (simp add: with_discard_snapshot_def with_test_def)
qed

section \<open>Examples\<close>

definition example_snapshots :: snap_tree where
  "example_snapshots = Snap (Snap No_Snap 7 70 No_Snap) 5 50 (Snap No_Snap 3 30 No_Snap)"

lemma example_snapshots_ordered: "ordered_tree example_snapshots"
  by (simp add: example_snapshots_def higher_def)

theorem find_by_id_correct_witness:
  "find_by_id example_snapshots 3 = Inr 30
   \<and> find_by_id example_snapshots 4 = Inl Failed_to_find_created_snapshot"
  using find_by_id_correct [OF example_snapshots_ordered, of 3]
    find_by_id_correct [OF example_snapshots_ordered, of 4]
  by (simp add: example_snapshots_def)

theorem replay_node_tests_witness:
  "\<exists>s'. read_replay_node
      \<lparr> node_u64 = (\<lambda>v. Some 0), node_u32 = (\<lambda>v. Some 0), node_bool = (\<lambda>v. None) \<rparr>
      (Xml ''replay'' [] [Xml ''rekey'' [] [], Xml ''list-snapshots'' [] []]) session_members = Inr s'
     \<and> length (bs_queue s') = 2"
proof -
  let ?P = "\<lparr> node_u64 = (\<lambda>v. Some 0), node_u32 = (\<lambda>v. Some 0), node_bool = (\<lambda>v. None) \<rparr>"
  obtain s' where s': "read_replay_node ?P
      (Xml ''replay'' [] [Xml ''rekey'' [] [], Xml ''list-snapshots'' [] []]) session_members = Inr s'"
    by (simp add: read_replay_node_def read_replay_sub_node_def has_type_def)
  from replay_node_tests [OF this] s' show ?thesis
    by (auto simp: session_members_def dest!: list_all2_lengthD)
qed

text \<open>Insertion at a leaf, as an unbalanced tree does it.\<close>

fun leaf_insert :: "snap_tree \<Rightarrow> u64 \<Rightarrow> u64 \<Rightarrow> snap_tree" where
  "leaf_insert No_Snap ident g = Snap No_Snap ident g No_Snap"
| "leaf_insert (Snap l i h r) ident g =
     (if higher i ident then Snap l i h (leaf_insert r ident g) else Snap (leaf_insert l ident g) i h r)"

lemma leaf_insert_ordered:
  "ordered_tree t \<Longrightarrow> ordered_tree (leaf_insert t i g)
     \<and> set (created (leaf_insert t i g)) = insert (i, g) (set (created t))"
  by (induction t) (auto simp: higher_def)

text \<open>Removal of a node by building the tree again without it.\<close>

definition leaf_remove :: "snap_tree \<Rightarrow> u64 \<Rightarrow> snap_tree" where
  "leaf_remove t i =
     foldr (\<lambda>(j, g) t. leaf_insert t j g) (filter (\<lambda>(j, g). j \<noteq> i) (created t)) No_Snap"

definition leaf_tree :: avl_tree where
  "leaf_tree = \<lparr> avl_insert = leaf_insert, avl_remove = leaf_remove \<rparr>"

lemma leaf_inserts_ordered:
  "ordered_tree (foldr (\<lambda>(j, g) t. leaf_insert t j g) ns No_Snap)
   \<and> set (created (foldr (\<lambda>(j, g) t. leaf_insert t j g) ns No_Snap)) = set ns"
  by (induction ns) (auto simp: leaf_insert_ordered)

lemma leaf_tree_laws: "avl_laws leaf_tree"
  by (auto simp: avl_laws_def leaf_tree_def leaf_remove_def leaf_insert_ordered leaf_inserts_ordered)

text \<open>Between its creation and its discard another snapshot, number 9, is created.\<close>

theorem created_snapshot_is_discarded_witness:
  "\<exists>s1 s3. create_snapshot_done leaf_tree (make_request CREATE_SNAPSHOT True 0 42 1 0 0)
      (session_members\<lparr>bs_created := example_snapshots, bs_in_progress := Some (Test_Create_Snapshot 4),
         bs_queue := [Test_Create_Snapshot 9, Test_Discard_Snapshot 4]\<rparr>) = Inr s1
     \<and> create_snapshot_done leaf_tree (make_request CREATE_SNAPSHOT True 0 43 1 0 0)
         (fst (with_create_snapshot s1)) = Inr s3
     \<and> snd (with_discard_snapshot s3) = Some 42"
proof -
  let ?s = "session_members\<lparr>bs_created := example_snapshots,
      bs_in_progress := Some (Test_Create_Snapshot 4),
      bs_queue := [Test_Create_Snapshot 9, Test_Discard_Snapshot 4]\<rparr>"
  let ?r = "make_request CREATE_SNAPSHOT True 0 43 1 0 0"
  from created_snapshot_is_discarded [OF leaf_tree_laws, of ?s 4 "make_request CREATE_SNAPSHOT True 0 42 1 0 0"]
  obtain s1 where s1: "create_snapshot_done leaf_tree (make_request CREATE_SNAPSHOT True 0 42 1 0 0) ?s = Inr s1"
    and later: "\<And>s' ts. (session_step leaf_tree 4)\<^sup>*\<^sup>* s1 s' \<Longrightarrow> bs_in_progress s' = None \<Longrightarrow>
      bs_queue s' = Test_Discard_Snapshot 4 # ts \<Longrightarrow> snd (with_discard_snapshot s') = Some 42"
    using example_snapshots_ordered by (auto simp: example_snapshots_def)
  let ?s2 = "fst (with_create_snapshot s1)"
  have s2: "bs_in_progress ?s2 = Some (Test_Create_Snapshot 9)" "bs_queue ?s2 = [Test_Discard_Snapshot 4]"
    using s1 by (auto simp: create_snapshot_done_def test_in_progress_def test_end_def
        with_create_snapshot_def with_test_def)
  obtain s3 where s3: "create_snapshot_done leaf_tree ?r ?s2 = Inr s3"
      "bs_in_progress s3 = None" "bs_queue s3 = [Test_Discard_Snapshot 4]"
    using s2 by (simp add: create_snapshot_done_def test_in_progress_def test_end_def)
  have "(session_step leaf_tree 4)\<^sup>*\<^sup>* s1 s3"
    using session_step.intros(2) [of leaf_tree 4 s1] session_step.intros(16) [OF s3(1), of 4] s2(1)
    by (simp add: converse_rtranclp_into_rtranclp)
  with later s1 s3 show ?thesis by blast
qed

end
