(* ===== verification/Tester_Main.thy ===== *)
theory Tester_Main
  imports Tester_Session Vfs_Wrapper
begin

text \<open>
  The tester's \<open>Main\<close> (\<open>src/app/cbe_tester/main.cc\<close>): the loop that takes one test after the
  other, hands it to the library it concerns, drives the back end and the crypto unit, and
  reports the result to the session.

  \<^item> \<open>tester\<close> is the state of \<open>Main\<close>; \<open>tm_progress\<close> is the local flag \<open>progress\<close> that the code
    passes by reference. \<open>tm_cbe\<close> with \<open>tm_cbe_constructed\<close> is a \<open>Constructible\<close>.
  \<^item> \<open>tester_world\<close> holds what is not the repository's C++ code: the libraries with their
    \<open>submit_client_request\<close>, the packet stream, the AVL tree and the cipher.
  \<^item> The verbose flags only switch log messages on and are left out.
\<close>

section \<open>State\<close>

datatype tester_state = TS_INVALID | TS_CBE | TS_CBE_INIT | TS_CBE_CHECK | TS_CBE_DUMP

text \<open>The library, the crypto unit and the buffers between them.\<close>

record 'l crypto_side =
  cs_cbe :: 'l
  cs_crypto :: crypto
  cs_plain :: block_buffer
  cs_cipher :: block_buffer

record ('l, 'i, 'c, 'd, 's) tester =
  tm_session :: session
  tm_tx :: 's
  tm_cbe_constructed :: bool
  tm_cbe :: 'l
  tm_cbe_init :: 'i
  tm_cbe_check :: 'c
  tm_cbe_dump :: 'd
  tm_blk_req :: request
  tm_blk_buf :: block_buffer
  tm_plain :: block_buffer
  tm_cipher :: block_buffer
  tm_crypto :: crypto
  tm_state :: tester_state
  tm_creating_snapshot :: bool
  tm_discard_snapshot :: bool
  tm_rekey :: bool
  tm_deinitialize :: bool
  tm_extend_vbd :: bool
  tm_extend_vbd_obj :: u32
  tm_extend_ft :: bool
  tm_extend_ft_obj :: u32
  tm_progress :: bool

text \<open>
  \<open>tw_indeterminate\<close> is the value of the uninitialised key identifier in the key-removal loop.
\<close>

record ('l, 'i, 'c, 'd, 's) tester_world =
  tw_lib :: "'l cbe_library"
  tw_new_cbe :: 'l
  tw_init :: "'i check_library"
  tw_init_submit :: "'i \<Rightarrow> request \<Rightarrow> u64 \<Rightarrow> u64 \<Rightarrow> u64 \<Rightarrow> u64 \<Rightarrow> u64 \<Rightarrow> u64 \<Rightarrow> 'i"
  tw_check :: "'c check_library"
  tw_check_submit :: "'c \<Rightarrow> request \<Rightarrow> 'c"
  tw_dump :: "'d check_library"
  tw_dump_submit :: "'d \<Rightarrow> request \<Rightarrow> dump_configuration \<Rightarrow> 'd"
  tw_stream :: "'s packet_stream"
  tw_avl :: avl_tree
  tw_aes :: aes
  tw_indeterminate :: u32

definition new_tester ::
  "('l, 'i, 'c, 'd, 's) tester_world \<Rightarrow> 'i \<Rightarrow> 'c \<Rightarrow> 'd \<Rightarrow> 's \<Rightarrow> crypto \<Rightarrow> session
    \<Rightarrow> ('l, 'i, 'c, 'd, 's) tester" where
  "new_tester E i c d tx crypto s =
     \<lparr> tm_session = s, tm_tx = tx, tm_cbe_constructed = False, tm_cbe = tw_new_cbe E,
       tm_cbe_init = i, tm_cbe_check = c, tm_cbe_dump = d, tm_blk_req = invalid_request,
       tm_blk_buf = new_buffer, tm_plain = new_buffer, tm_cipher = new_buffer, tm_crypto = crypto,
       tm_state = TS_INVALID, tm_creating_snapshot = False, tm_discard_snapshot = False,
       tm_rekey = False, tm_deinitialize = False, tm_extend_vbd = False, tm_extend_vbd_obj = 0,
       tm_extend_ft = False, tm_extend_ft_obj = 0, tm_progress = False \<rparr>"

section \<open>The tools\<close>

text \<open>
  The three methods \<open>_execute_cbe_init\<close>, \<open>_execute_cbe_check\<close> and \<open>_execute_cbe_dump\<close> run their
  library, do its back-end I/O with a block ratio of one, and look for a completed request
  when no block request is outstanding. \<open>tool_run\<close> is this common part: it returns the back end,
  the flag \<open>progress\<close> and the completed request, if any.
\<close>

definition tool_run ::
  "'l check_library \<Rightarrow> 's packet_stream \<Rightarrow> (operation \<Rightarrow> block_op_type option)
    \<Rightarrow> (block_op_type \<Rightarrow> operation \<Rightarrow> bool) \<Rightarrow> ('l, 's) blk \<Rightarrow> bool
    \<Rightarrow> (('l, 's) blk \<times> bool \<times> request option) run" where
  "tool_run T S opcode op_match b progress =
     (case tool_execute T (bk_lib b) (bk_buf b) of (l, buf) \<Rightarrow>
      bind_run (backend_io T S opcode op_match 1
                  (b\<lparr>bk_lib := l, bk_buf := buf\<rparr>, progress \<or> tool_execute_progress T l)) (\<lambda>(b1, p1).
        let r = tool_peek_completed_client_request T (bk_lib b1) in
        if \<not> valid (bk_req b1) \<and> valid r
        then Some (Inr (b1\<lparr>bk_lib := tool_drop_completed_client_request T (bk_lib b1) r\<rparr>, p1, Some r))
        else Some (Inr (b1, p1, None))))"

definition blk_view :: "'x \<Rightarrow> ('l, 'i, 'c, 'd, 's) tester \<Rightarrow> ('x, 's) blk" where
  "blk_view l t = \<lparr> bk_lib = l, bk_tx = tm_tx t, bk_req = tm_blk_req t, bk_buf = tm_blk_buf t \<rparr>"

text \<open>The back end's new state, and the end of the test when the request has completed.\<close>

definition blk_back ::
  "('x, 's) blk \<Rightarrow> bool \<Rightarrow> ('l, 'i, 'c, 'd, 's) tester \<Rightarrow> ('l, 'i, 'c, 'd, 's) tester" where
  "blk_back b progress t =
     t\<lparr>tm_tx := bk_tx b, tm_blk_req := bk_req b, tm_blk_buf := bk_buf b, tm_progress := progress\<rparr>"

definition finish_tool ::
  "(bool \<Rightarrow> session \<Rightarrow> session) \<Rightarrow> request option \<Rightarrow> ('l, 'i, 'c, 'd, 's) tester
    \<Rightarrow> ('l, 'i, 'c, 'd, 's) tester" where
  "finish_tool report completed t =
     (case completed of
        None \<Rightarrow> t
      | Some r \<Rightarrow> t\<lparr>tm_session := report (req_success r) (tm_session t), tm_state := TS_INVALID\<rparr>)"

definition execute_cbe_init ::
  "('l, 'i, 'c, 'd, 's) tester_world \<Rightarrow> ('l, 'i, 'c, 'd, 's) tester \<Rightarrow> ('l, 'i, 'c, 'd, 's) tester run" where
  "execute_cbe_init E t =
     bind_run (tool_run (tw_init E) (tw_stream E) init_opcode init_op_match
                 (blk_view (tm_cbe_init t) t) (tm_progress t)) (\<lambda>(b, p, completed).
       Some (Inr (finish_tool initialize_done completed (blk_back b p (t\<lparr>tm_cbe_init := bk_lib b\<rparr>)))))"

definition execute_cbe_check ::
  "('l, 'i, 'c, 'd, 's) tester_world \<Rightarrow> ('l, 'i, 'c, 'd, 's) tester \<Rightarrow> ('l, 'i, 'c, 'd, 's) tester run" where
  "execute_cbe_check E t =
     bind_run (tool_run (tw_check E) (tw_stream E) check_opcode check_op_match
                 (blk_view (tm_cbe_check t) t) (tm_progress t)) (\<lambda>(b, p, completed).
       Some (Inr (finish_tool check_done completed (blk_back b p (t\<lparr>tm_cbe_check := bk_lib b\<rparr>)))))"

definition execute_cbe_dump ::
  "('l, 'i, 'c, 'd, 's) tester_world \<Rightarrow> ('l, 'i, 'c, 'd, 's) tester \<Rightarrow> ('l, 'i, 'c, 'd, 's) tester run" where
  "execute_cbe_dump E t =
     bind_run (tool_run (tw_dump E) (tw_stream E) check_opcode check_op_match
                 (blk_view (tm_cbe_dump t) t) (tm_progress t)) (\<lambda>(b, p, completed).
       Some (Inr (finish_tool dump_done completed (blk_back b p (t\<lparr>tm_cbe_dump := bk_lib b\<rparr>)))))"

section \<open>The tests of the CBE library\<close>

text \<open>After each completed test the state says whether the next one concerns the CBE.\<close>

definition next_state :: "('l, 'i, 'c, 'd, 's) tester \<Rightarrow> ('l, 'i, 'c, 'd, 's) tester" where
  "next_state t = t\<lparr>tm_state := (if cbe_request_next (tm_session t) then TS_CBE else TS_INVALID)\<rparr>"

definition submit_to_cbe ::
  "('l, 'i, 'c, 'd, 's) tester_world \<Rightarrow> request \<Rightarrow> u64 \<Rightarrow> ('l, 'i, 'c, 'd, 's) tester
    \<Rightarrow> ('l, 'i, 'c, 'd, 's) tester" where
  "submit_to_cbe E r ident t =
     t\<lparr>tm_cbe := submit_client_request (tw_lib E) (tm_cbe t) r (ucast ident), tm_progress := True\<rparr>"

definition cbe_completed :: "('l, 'i, 'c, 'd, 's) tester_world \<Rightarrow> ('l, 'i, 'c, 'd, 's) tester \<Rightarrow> request" where
  "cbe_completed E t = peek_completed_client_request (tw_lib E) (tm_cbe t)"

definition drop_from_cbe ::
  "('l, 'i, 'c, 'd, 's) tester_world \<Rightarrow> request \<Rightarrow> ('l, 'i, 'c, 'd, 's) tester \<Rightarrow> ('l, 'i, 'c, 'd, 's) tester" where
  "drop_from_cbe E r t = t\<lparr>tm_cbe := drop_completed_client_request (tw_lib E) (tm_cbe t) r\<rparr>"

subsection \<open>Block requests\<close>

definition submit_block_request ::
  "('l, 'i, 'c, 'd, 's) tester_world \<Rightarrow> ('l, 'i, 'c, 'd, 's) tester \<Rightarrow> ('l, 'i, 'c, 'd, 's) tester" where
  "submit_block_request E t =
     (case with_requests (tm_session t) of
        (s, None) \<Rightarrow> t\<lparr>tm_session := s\<rparr>
      | (s, Some r) \<Rightarrow>
          (let t1 = t\<lparr>tm_session := s\<rparr> in
           if blk_type r = B_INVALID then t1
           else if \<not> client_request_acceptable (tw_lib E) (tm_cbe t1) then t1
           else (submit_to_cbe E (convert_to r) 0 t1)\<lparr>tm_state := TS_CBE\<rparr>))"

definition acknowledge_request ::
  "('l, 'i, 'c, 'd, 's) tester_world \<Rightarrow> ('l, 'i, 'c, 'd, 's) tester \<Rightarrow> exn + ('l, 'i, 'c, 'd, 's) tester" where
  "acknowledge_request E t =
     (if \<not> tm_rekey t \<and> \<not> tm_deinitialize t \<and> \<not> tm_extend_vbd t \<and> \<not> tm_extend_ft t
         \<and> \<not> tm_creating_snapshot t \<and> \<not> tm_discard_snapshot t
      then
        (let r = cbe_completed E t in
         if \<not> valid r then Inr t
         else bind_exn (convert_from r) (\<lambda>br.
                let t1 = drop_from_cbe E r t
                in Inr ((next_state (t1\<lparr>tm_session := submit_ack br (tm_session t1)\<rparr>))\<lparr>tm_progress := True\<rparr>)))
      else Inr t)"

subsection \<open>Snapshots\<close>

definition start_create_snapshot ::
  "('l, 'i, 'c, 'd, 's) tester_world \<Rightarrow> ('l, 'i, 'c, 'd, 's) tester \<Rightarrow> ('l, 'i, 'c, 'd, 's) tester" where
  "start_create_snapshot E t =
     (if tm_creating_snapshot t then t
      else
        (case with_create_snapshot (tm_session t) of
           (s, None) \<Rightarrow> t\<lparr>tm_session := s\<rparr>
         | (s, Some i) \<Rightarrow>
             (let t1 = t\<lparr>tm_session := s\<rparr> in
              if \<not> client_request_acceptable (tw_lib E) (tm_cbe t1) then t1
              else (submit_to_cbe E (make_request CREATE_SNAPSHOT False 0 0 1 0 0) 0 t1)
                     \<lparr>tm_creating_snapshot := True\<rparr>)))"

definition finish_create_snapshot ::
  "('l, 'i, 'c, 'd, 's) tester_world \<Rightarrow> ('l, 'i, 'c, 'd, 's) tester \<Rightarrow> exn + ('l, 'i, 'c, 'd, 's) tester" where
  "finish_create_snapshot E t =
     (let r = cbe_completed E t in
      if tm_creating_snapshot t \<and> valid r \<and> req_operation r = CREATE_SNAPSHOT
      then bind_exn (create_snapshot_done (tw_avl E) r (tm_session t)) (\<lambda>s.
             Inr ((next_state (drop_from_cbe E r (t\<lparr>tm_session := s, tm_creating_snapshot := False\<rparr>)))
                    \<lparr>tm_progress := True\<rparr>))
      else Inr t)"

definition start_discard_snapshot ::
  "('l, 'i, 'c, 'd, 's) tester_world \<Rightarrow> ('l, 'i, 'c, 'd, 's) tester \<Rightarrow> ('l, 'i, 'c, 'd, 's) tester" where
  "start_discard_snapshot E t =
     (if tm_discard_snapshot t then t
      else
        (case with_discard_snapshot (tm_session t) of
           (s, None) \<Rightarrow> t\<lparr>tm_session := s\<rparr>
         | (s, Some generation) \<Rightarrow>
             (let t1 = t\<lparr>tm_session := s\<rparr> in
              if \<not> client_request_acceptable (tw_lib E) (tm_cbe t1) then t1
              else (submit_to_cbe E (make_request DISCARD_SNAPSHOT False 0 0 1 0 0) generation t1)
                     \<lparr>tm_discard_snapshot := True\<rparr>)))"

definition finish_discard_snapshot ::
  "('l, 'i, 'c, 'd, 's) tester_world \<Rightarrow> ('l, 'i, 'c, 'd, 's) tester \<Rightarrow> exn + ('l, 'i, 'c, 'd, 's) tester" where
  "finish_discard_snapshot E t =
     (let r = cbe_completed E t in
      if tm_discard_snapshot t \<and> valid r \<and> req_operation r = DISCARD_SNAPSHOT
      then bind_exn (discard_snapshot_done (tw_avl E) r (tm_session t)) (\<lambda>s.
             Inr ((next_state (drop_from_cbe E r (t\<lparr>tm_session := s, tm_discard_snapshot := False\<rparr>)))
                    \<lparr>tm_progress := True\<rparr>))
      else Inr t)"

subsection \<open>Deinitialisation, rekeying and extending\<close>

text \<open>These tests throw when the library does not accept the request.\<close>

definition start_deinitialize ::
  "('l, 'i, 'c, 'd, 's) tester_world \<Rightarrow> ('l, 'i, 'c, 'd, 's) tester \<Rightarrow> exn + ('l, 'i, 'c, 'd, 's) tester" where
  "start_deinitialize E t =
     (if tm_deinitialize t then Inr t
      else
        (case with_deinitialize (tm_session t) of
           (s, None) \<Rightarrow> Inr (t\<lparr>tm_session := s\<rparr>)
         | (s, Some _) \<Rightarrow>
             (let t1 = t\<lparr>tm_session := s\<rparr> in
              if \<not> client_request_acceptable (tw_lib E) (tm_cbe t1) then Inl Request_not_acceptable
              else Inr ((submit_to_cbe E (make_request DEINITIALIZE False 0 0 0 0 0) 0 t1)
                          \<lparr>tm_deinitialize := True\<rparr>))))"

definition finish_deinitialize ::
  "('l, 'i, 'c, 'd, 's) tester_world \<Rightarrow> ('l, 'i, 'c, 'd, 's) tester \<Rightarrow> exn + ('l, 'i, 'c, 'd, 's) tester" where
  "finish_deinitialize E t =
     (let r = cbe_completed E t in
      if tm_deinitialize t \<and> valid r
      then if req_operation r \<noteq> DEINITIALIZE then Inl Unexpected_request
           else Inr ((next_state (drop_from_cbe E r
                       (t\<lparr>tm_session := deinitialize_done (req_success r) (tm_session t),
                          tm_deinitialize := False\<rparr>)))\<lparr>tm_progress := True\<rparr>)
      else Inr t)"

definition list_snapshots :: "('l, 'i, 'c, 'd, 's) tester \<Rightarrow> ('l, 'i, 'c, 'd, 's) tester" where
  "list_snapshots t = t\<lparr>tm_session := with_list_snapshots (tm_session t)\<rparr>"

definition start_rekey ::
  "('l, 'i, 'c, 'd, 's) tester_world \<Rightarrow> ('l, 'i, 'c, 'd, 's) tester \<Rightarrow> exn + ('l, 'i, 'c, 'd, 's) tester" where
  "start_rekey E t =
     (if tm_rekey t then Inr t
      else
        (case with_rekey (tm_session t) of
           (s, None) \<Rightarrow> Inr (t\<lparr>tm_session := s\<rparr>)
         | (s, Some _) \<Rightarrow>
             (let t1 = t\<lparr>tm_session := s\<rparr> in
              if \<not> client_request_acceptable (tw_lib E) (tm_cbe t1) then Inl Request_not_acceptable
              else Inr ((submit_to_cbe E (make_request REKEY False 0 0 0 0 0) 0 t1)\<lparr>tm_rekey := True\<rparr>))))"

definition finish_rekey ::
  "('l, 'i, 'c, 'd, 's) tester_world \<Rightarrow> ('l, 'i, 'c, 'd, 's) tester \<Rightarrow> exn + ('l, 'i, 'c, 'd, 's) tester" where
  "finish_rekey E t =
     (let r = cbe_completed E t in
      if tm_rekey t \<and> valid r
      then if req_operation r \<noteq> REKEY then Inl Unexpected_request
           else Inr ((next_state (drop_from_cbe E r
                       (t\<lparr>tm_session := rekey_done (req_success r) (tm_session t),
                          tm_rekey := False\<rparr>)))\<lparr>tm_progress := True\<rparr>)
      else Inr t)"

text \<open>The number of blocks is 32 bits wide in the test and 64 bits wide in the request.\<close>

definition start_extend_vbd ::
  "('l, 'i, 'c, 'd, 's) tester_world \<Rightarrow> ('l, 'i, 'c, 'd, 's) tester \<Rightarrow> exn + ('l, 'i, 'c, 'd, 's) tester" where
  "start_extend_vbd E t =
     (if tm_extend_vbd t then Inr t
      else
        (case with_extend_vbd (tm_session t) of
           (s, None) \<Rightarrow> Inr (t\<lparr>tm_session := s\<rparr>)
         | (s, Some n) \<Rightarrow>
             (let t1 = t\<lparr>tm_session := s\<rparr> in
              if \<not> client_request_acceptable (tw_lib E) (tm_cbe t1) then Inl Request_not_acceptable
              else Inr ((submit_to_cbe E (make_request EXTEND_VBD False 0 0 (ucast n) 0 0) 0 t1)
                          \<lparr>tm_extend_vbd_obj := n, tm_extend_vbd := True\<rparr>))))"

definition finish_extend_vbd ::
  "('l, 'i, 'c, 'd, 's) tester_world \<Rightarrow> ('l, 'i, 'c, 'd, 's) tester \<Rightarrow> exn + ('l, 'i, 'c, 'd, 's) tester" where
  "finish_extend_vbd E t =
     (let r = cbe_completed E t in
      if tm_extend_vbd t \<and> valid r
      then if req_operation r \<noteq> EXTEND_VBD \<or> req_count r \<noteq> ucast (tm_extend_vbd_obj t)
           then Inl Unexpected_request
           else bind_exn (extend_vbd_done (req_success r) (tm_session t)) (\<lambda>s.
                  Inr ((next_state (drop_from_cbe E r
                         (t\<lparr>tm_session := s, tm_extend_vbd_obj := 0, tm_extend_vbd := False\<rparr>)))
                         \<lparr>tm_progress := True\<rparr>))
      else Inr t)"

definition start_extend_ft ::
  "('l, 'i, 'c, 'd, 's) tester_world \<Rightarrow> ('l, 'i, 'c, 'd, 's) tester \<Rightarrow> exn + ('l, 'i, 'c, 'd, 's) tester" where
  "start_extend_ft E t =
     (if tm_extend_ft t then Inr t
      else
        (case with_extend_ft (tm_session t) of
           (s, None) \<Rightarrow> Inr (t\<lparr>tm_session := s\<rparr>)
         | (s, Some n) \<Rightarrow>
             (let t1 = t\<lparr>tm_session := s\<rparr> in
              if \<not> client_request_acceptable (tw_lib E) (tm_cbe t1) then Inl Request_not_acceptable
              else Inr ((submit_to_cbe E (make_request EXTEND_FT False 0 0 (ucast n) 0 0) 0 t1)
                          \<lparr>tm_extend_ft_obj := n, tm_extend_ft := True\<rparr>))))"

definition finish_extend_ft ::
  "('l, 'i, 'c, 'd, 's) tester_world \<Rightarrow> ('l, 'i, 'c, 'd, 's) tester \<Rightarrow> exn + ('l, 'i, 'c, 'd, 's) tester" where
  "finish_extend_ft E t =
     (let r = cbe_completed E t in
      if tm_extend_ft t \<and> valid r
      then if req_operation r \<noteq> EXTEND_FT \<or> req_count r \<noteq> ucast (tm_extend_ft_obj t)
           then Inl Unexpected_request
           else bind_exn (extend_ft_done (req_success r) (tm_session t)) (\<lambda>s.
                  Inr ((next_state (drop_from_cbe E r
                         (t\<lparr>tm_session := s, tm_extend_ft_obj := 0, tm_extend_ft := False\<rparr>)))
                         \<lparr>tm_progress := True\<rparr>))
      else Inr t)"

text \<open>The first half of \<open>_execute_cbe\<close>: the tests, in the order of the code.\<close>

definition handle_tests ::
  "('l, 'i, 'c, 'd, 's) tester_world \<Rightarrow> ('l, 'i, 'c, 'd, 's) tester \<Rightarrow> exn + ('l, 'i, 'c, 'd, 's) tester" where
  "handle_tests E t =
     bind_exn (acknowledge_request E (submit_block_request E t)) (\<lambda>t1.
     bind_exn (finish_create_snapshot E (start_create_snapshot E t1)) (\<lambda>t2.
     bind_exn (finish_discard_snapshot E (start_discard_snapshot E t2)) (\<lambda>t3.
     bind_exn (start_deinitialize E t3) (\<lambda>t4.
     bind_exn (finish_deinitialize E t4) (\<lambda>t5.
     bind_exn (start_rekey E (list_snapshots t5)) (\<lambda>t6.
     bind_exn (finish_rekey E t6) (\<lambda>t7.
     bind_exn (start_extend_vbd E t7) (\<lambda>t8.
     bind_exn (finish_extend_vbd E t8) (\<lambda>t9.
     bind_exn (start_extend_ft E t9) (finish_extend_ft E))))))))))"

section \<open>The library and its data\<close>

definition run_library ::
  "('l, 'i, 'c, 'd, 's) tester_world \<Rightarrow> ('l, 'i, 'c, 'd, 's) tester \<Rightarrow> ('l, 'i, 'c, 'd, 's) tester" where
  "run_library E t =
     (case lib_execute (tw_lib E) (tm_cbe t) (tm_blk_buf t) (tm_plain t) (tm_cipher t) of
        (l, buf, plain, cipher) \<Rightarrow>
          t\<lparr>tm_cbe := l, tm_blk_buf := buf, tm_plain := plain, tm_cipher := cipher,
            tm_progress := tm_progress t \<or> execute_progress (tw_lib E) l\<rparr>)"

definition read_payload ::
  "('l, 'i, 'c, 'd, 's) tester_world \<Rightarrow> ('l, 'i, 'c, 'd, 's) tester \<Rightarrow> exn + ('l, 'i, 'c, 'd, 's) tester" where
  "read_payload E t0 =
     (case client_data_ready (tw_lib E) (tm_cbe t0) of (r, l) \<Rightarrow>
      let t = t0\<lparr>tm_cbe := l\<rparr> in
      if \<not> valid r then Inr t
      else if client_data_index (tw_lib E) (tm_cbe t) r = - 1 then Inr t
      else
        (case obtain_client_data (tw_lib E) (tm_cbe t) r (- 1) of ((data_index_valid, data_index), l2) \<Rightarrow>
         let t2 = t\<lparr>tm_cbe := l2\<rparr> in
         if data_index_valid then
           bind_exn (item (tm_plain t2) data_index) (\<lambda>block.
             Inr (t2\<lparr>tm_progress := True, tm_session := (tm_session t2)\<lparr>bs_blk_data := block\<rparr>\<rparr>))
         else Inr t2))"

definition write_payload ::
  "('l, 'i, 'c, 'd, 's) tester_world \<Rightarrow> ('l, 'i, 'c, 'd, 's) tester \<Rightarrow> ('l, 'i, 'c, 'd, 's) tester" where
  "write_payload E t0 =
     (case client_data_required (tw_lib E) (tm_cbe t0) of (r, l) \<Rightarrow>
      let t = t0\<lparr>tm_cbe := l\<rparr> in
      if \<not> valid r then t
      else if client_data_index (tw_lib E) (tm_cbe t) r = - 1 then t
      else
        (case supply_client_data (tw_lib E) (tm_cbe t) r (bs_blk_data (tm_session t)) of (supplied, l2) \<Rightarrow>
           t\<lparr>tm_cbe := l2, tm_progress := tm_progress t \<or> supplied\<rparr>))"

section \<open>The back end\<close>

text \<open>
  The two loops over the packet stream are those of the tools, on the methods with which the
  CBE library offers its I/O requests.
\<close>

definition cbe_io :: "'l cbe_library \<Rightarrow> 'l check_library" where
  "cbe_io L =
     \<lparr> tool_client_request_acceptable = client_request_acceptable L,
       tool_peek_completed_client_request = peek_completed_client_request L,
       tool_drop_completed_client_request = drop_completed_client_request L,
       tool_execute = (\<lambda>l buf. (l, buf)), tool_execute_progress = execute_progress L,
       tool_io_request_completed = io_request_completed L, tool_has_io_request = lib_has_io_request L,
       tool_io_request_in_progress = io_request_in_progress L \<rparr>"

definition tester_backend ::
  "('l, 'i, 'c, 'd, 's) tester_world \<Rightarrow> ('l, 'i, 'c, 'd, 's) tester \<Rightarrow> ('l, 'i, 'c, 'd, 's) tester run" where
  "tester_backend E t =
     bind_run (backend_io (cbe_io (tw_lib E)) (tw_stream E) init_opcode init_op_match 1
                 (blk_view (tm_cbe t) t, tm_progress t)) (\<lambda>(b, p).
       Some (Inr (blk_back b p (t\<lparr>tm_cbe := bk_lib b\<rparr>))))"

section \<open>The crypto unit\<close>

text \<open>
  The six loops between the CBE library and the crypto unit, each one pass on the library, the
  unit, the buffers and \<open>progress\<close>; \<open>kid\<close> is the uninitialised key identifier.
\<close>

definition add_key_step :: "'l cbe_library \<Rightarrow> 'l crypto_side \<times> bool \<Rightarrow> ('l crypto_side \<times> bool, exn) loop_step" where
  "add_key_step L wp =
     (case wp of (w, progress) \<Rightarrow>
      case crypto_add_key_required L (cs_cbe w) \<lparr> key_value = replicate 32 0, key_ident = 0 \<rparr> of (r, k) \<Rightarrow>
      if \<not> valid r then Break (w, progress)
      else
        (let l1 = crypto_add_key_requested L (cs_cbe w) r in
         case crypto_add_key (cs_crypto w) (key_ident k) (take 32 (key_value k)) of
           Inl e \<Rightarrow> Throw e
         | Inr c \<Rightarrow>
             Continue (w\<lparr>cs_crypto := c, cs_cbe := crypto_add_key_completed L l1 (set_success r True)\<rparr>, True)))"

definition remove_key_step ::
  "'l cbe_library \<Rightarrow> u32 \<Rightarrow> 'l crypto_side \<times> bool \<Rightarrow> ('l crypto_side \<times> bool, exn) loop_step" where
  "remove_key_step L kid0 wp =
     (case wp of (w, progress) \<Rightarrow>
      case crypto_remove_key_required L (cs_cbe w) kid0 of (r, kid) \<Rightarrow>
      if \<not> valid r then Break (w, progress)
      else
        (let l1 = crypto_remove_key_requested L (cs_cbe w) r in
         case crypto_remove_key (cs_crypto w) kid of
           Inl e \<Rightarrow> Throw e
         | Inr c \<Rightarrow>
             Continue (w\<lparr>cs_crypto := c, cs_cbe := crypto_remove_key_completed L l1 (set_success r True)\<rparr>, True)))"

definition encrypt_step :: "'l cbe_library \<Rightarrow> 'l crypto_side \<times> bool \<Rightarrow> ('l crypto_side \<times> bool, exn) loop_step" where
  "encrypt_step L wp =
     (case wp of (w, progress) \<Rightarrow>
      case crypto_cipher_data_required L (cs_cbe w) 0 of (r, data_index) \<Rightarrow>
      if \<not> valid r then Break (w, progress)
      else if \<not> Encryption_Request_Acceptable (cs_crypto w) then Break (w, progress)
      else
        (case bind_exn (item (cs_plain w) data_index)
                (\<lambda>b. submit_encryption_request (cs_crypto w) (set_tag r data_index) b 0) of
           Inl e \<Rightarrow> Throw e
         | Inr (c, ok) \<Rightarrow>
             Continue (w\<lparr>cs_crypto := c, cs_cbe := crypto_cipher_data_requested L (cs_cbe w) data_index\<rparr>, True)))"

definition encrypted_step :: "'l cbe_library \<Rightarrow> 'l crypto_side \<times> bool \<Rightarrow> ('l crypto_side \<times> bool, exn) loop_step" where
  "encrypted_step L wp =
     (case wp of (w, progress) \<Rightarrow>
      let r = peek_completed_encryption_request (cs_crypto w); data_index = req_tag r in
      if \<not> valid r then Break (w, progress)
      else
        (case item (cs_cipher w) data_index of
           Inl e \<Rightarrow> Throw e
         | Inr b \<Rightarrow>
             (case supply_cipher_data (cs_crypto w) r of
                Inl e \<Rightarrow> Throw e
              | Inr (c, None) \<Rightarrow> Break (w\<lparr>cs_crypto := c\<rparr>, progress)
              | Inr (c, Some out) \<Rightarrow>
                  (case set_item (cs_cipher w) data_index out of
                     Inl e \<Rightarrow> Throw e
                   | Inr cipher \<Rightarrow>
                       Continue (w\<lparr>cs_crypto := c, cs_cipher := cipher,
                                   cs_cbe := supply_crypto_cipher_data L (cs_cbe w) data_index
                                               (req_success r)\<rparr>, True)))))"

definition decrypt_step :: "'l cbe_library \<Rightarrow> 'l crypto_side \<times> bool \<Rightarrow> ('l crypto_side \<times> bool, exn) loop_step" where
  "decrypt_step L wp =
     (case wp of (w, progress) \<Rightarrow>
      case crypto_plain_data_required L (cs_cbe w) 0 of (r, data_index) \<Rightarrow>
      if \<not> valid r then Break (w, progress)
      else if \<not> Decryption_Request_Acceptable (cs_crypto w) then Break (w, progress)
      else
        (case bind_exn (item (cs_cipher w) data_index)
                (\<lambda>b. submit_decryption_request (cs_crypto w) (set_tag r data_index) b 0) of
           Inl e \<Rightarrow> Throw e
         | Inr (c, ok) \<Rightarrow>
             Continue (w\<lparr>cs_crypto := c, cs_cbe := crypto_plain_data_requested L (cs_cbe w) data_index\<rparr>, True)))"

definition decrypted_step :: "'l cbe_library \<Rightarrow> 'l crypto_side \<times> bool \<Rightarrow> ('l crypto_side \<times> bool, exn) loop_step" where
  "decrypted_step L wp =
     (case wp of (w, progress) \<Rightarrow>
      let r = peek_completed_decryption_request (cs_crypto w); data_index = req_tag r in
      if \<not> valid r then Break (w, progress)
      else
        (case item (cs_plain w) data_index of
           Inl e \<Rightarrow> Throw e
         | Inr b \<Rightarrow>
             (case supply_plain_data (cs_crypto w) r of
                Inl e \<Rightarrow> Throw e
              | Inr (c, None) \<Rightarrow> Break (w\<lparr>cs_crypto := c\<rparr>, progress)
              | Inr (c, Some out) \<Rightarrow>
                  (case set_item (cs_plain w) data_index out of
                     Inl e \<Rightarrow> Throw e
                   | Inr plain \<Rightarrow>
                       Continue (w\<lparr>cs_crypto := c, cs_plain := plain,
                                   cs_cbe := supply_crypto_plain_data L (cs_cbe w) data_index
                                               (req_success r)\<rparr>, True)))))"

definition crypto_loops ::
  "'l cbe_library \<Rightarrow> aes \<Rightarrow> u32 \<Rightarrow> 'l crypto_side \<times> bool \<Rightarrow> ('l crypto_side \<times> bool) run" where
  "crypto_loops L A kid wp =
     (case wp of (w, progress) \<Rightarrow>
      bind_run (Some (crypto_execute A (cs_crypto w))) (\<lambda>(c, p0).
      bind_run (run_loop (add_key_step L) (w\<lparr>cs_crypto := c\<rparr>, progress \<or> p0)) (\<lambda>s1.
      bind_run (run_loop (remove_key_step L kid) s1) (\<lambda>s2.
      bind_run (run_loop (encrypt_step L) s2) (\<lambda>s3.
      bind_run (run_loop (encrypted_step L) s3) (\<lambda>s4.
      bind_run (run_loop (decrypt_step L) s4) (\<lambda>s5.
        run_loop (decrypted_step L) s5)))))))"

definition tester_crypto ::
  "('l, 'i, 'c, 'd, 's) tester_world \<Rightarrow> ('l, 'i, 'c, 'd, 's) tester \<Rightarrow> ('l, 'i, 'c, 'd, 's) tester run" where
  "tester_crypto E t =
     bind_run (crypto_loops (tw_lib E) (tw_aes E) (tw_indeterminate E)
                 (\<lparr> cs_cbe = tm_cbe t, cs_crypto = tm_crypto t, cs_plain = tm_plain t,
                    cs_cipher = tm_cipher t \<rparr>, tm_progress t)) (\<lambda>(w, p).
       Some (Inr (t\<lparr>tm_cbe := cs_cbe w, tm_crypto := cs_crypto w, tm_plain := cs_plain w,
                    tm_cipher := cs_cipher w, tm_progress := p\<rparr>)))"

section \<open>The main loop\<close>

text \<open>\<open>_execute_cbe\<close> dereferences \<open>_cbe\<close>, which throws while it is not constructed.\<close>

definition execute_cbe ::
  "('l, 'i, 'c, 'd, 's) tester_world \<Rightarrow> ('l, 'i, 'c, 'd, 's) tester \<Rightarrow> ('l, 'i, 'c, 'd, 's) tester run" where
  "execute_cbe E t =
     (if \<not> tm_cbe_constructed t then Some (Inl Deref_unconstructed_object)
      else
        bind_run (Some (handle_tests E t)) (\<lambda>t1.
        bind_run (Some (read_payload E (run_library E t1))) (\<lambda>t2.
        bind_run (tester_backend E (write_payload E t2)) (\<lambda>t3.
        bind_run (tester_crypto E t3) (\<lambda>t4.
          Some (Inr (if valid (tm_blk_req t4) then t4 else next_state t4)))))))"

definition tester_exit :: "int \<Rightarrow> ('l, 'i, 'c, 'd, 's) tester \<Rightarrow> ('l, 'i, 'c, 'd, 's) tester" where
  "tester_exit code t =
     t\<lparr>tm_session := (tm_session t)\<lparr>bs_exits := bs_exits (tm_session t) @ [code]\<rparr>\<rparr>"

definition start_initialize ::
  "('l, 'i, 'c, 'd, 's) tester_world \<Rightarrow> ('l, 'i, 'c, 'd, 's) tester \<Rightarrow> ('l, 'i, 'c, 'd, 's) tester" where
  "start_initialize E t =
     (if tm_state t \<noteq> TS_INVALID then t
      else
        (case with_initialize (tm_session t) of
           (s, None) \<Rightarrow> t\<lparr>tm_session := s\<rparr>
         | (s, Some cfg) \<Rightarrow>
             (let t1 = t\<lparr>tm_session := s\<rparr>;
                  t2 = (if tool_client_request_acceptable (tw_init E) (tm_cbe_init t1) then t1
                        else tester_exit (- 1) t1)
              in t2\<lparr>tm_cbe_init := tw_init_submit E (tm_cbe_init t2) tool_request
                      (vbd_nr_of_lvls cfg - 1) (vbd_nr_of_children cfg) (vbd_nr_of_leafs cfg)
                      (ft_nr_of_lvls cfg - 1) (ft_nr_of_children cfg) (ft_nr_of_leafs cfg),
                    tm_state := TS_CBE_INIT, tm_progress := True\<rparr>)))"

definition start_check ::
  "('l, 'i, 'c, 'd, 's) tester_world \<Rightarrow> ('l, 'i, 'c, 'd, 's) tester \<Rightarrow> ('l, 'i, 'c, 'd, 's) tester" where
  "start_check E t =
     (if tm_state t \<noteq> TS_INVALID then t
      else
        (case with_check (tm_session t) of
           (s, None) \<Rightarrow> t\<lparr>tm_session := s\<rparr>
         | (s, Some _) \<Rightarrow>
             (let t1 = t\<lparr>tm_session := s\<rparr>;
                  t2 = (if tool_client_request_acceptable (tw_check E) (tm_cbe_check t1) then t1
                        else tester_exit (- 1) t1)
              in t2\<lparr>tm_cbe_check := tw_check_submit E (tm_cbe_check t2) tool_request,
                    tm_state := TS_CBE_CHECK, tm_progress := True\<rparr>)))"

definition start_dump ::
  "('l, 'i, 'c, 'd, 's) tester_world \<Rightarrow> ('l, 'i, 'c, 'd, 's) tester \<Rightarrow> ('l, 'i, 'c, 'd, 's) tester" where
  "start_dump E t =
     (if tm_state t \<noteq> TS_INVALID then t
      else
        (case with_dump (tm_session t) of
           (s, None) \<Rightarrow> t\<lparr>tm_session := s\<rparr>
         | (s, Some cfg) \<Rightarrow>
             (let t1 = t\<lparr>tm_session := s\<rparr>;
                  t2 = (if tool_client_request_acceptable (tw_dump E) (tm_cbe_dump t1) then t1
                        else tester_exit (- 1) t1)
              in t2\<lparr>tm_cbe_dump := tw_dump_submit E (tm_cbe_dump t2) tool_request cfg,
                    tm_state := TS_CBE_DUMP, tm_progress := True\<rparr>)))"

text \<open>The CBE library is destructed while a tool runs and constructed anew afterwards.\<close>

definition destruct_cbe :: "('l, 'i, 'c, 'd, 's) tester \<Rightarrow> ('l, 'i, 'c, 'd, 's) tester" where
  "destruct_cbe t = t\<lparr>tm_cbe_constructed := False\<rparr>"

definition construct_cbe ::
  "('l, 'i, 'c, 'd, 's) tester_world \<Rightarrow> ('l, 'i, 'c, 'd, 's) tester \<Rightarrow> ('l, 'i, 'c, 'd, 's) tester" where
  "construct_cbe E t =
     (if tm_cbe_constructed t then t else t\<lparr>tm_cbe_constructed := True, tm_cbe := tw_new_cbe E\<rparr>)"

definition execute_state ::
  "('l, 'i, 'c, 'd, 's) tester_world \<Rightarrow> ('l, 'i, 'c, 'd, 's) tester \<Rightarrow> ('l, 'i, 'c, 'd, 's) tester run" where
  "execute_state E t =
     (case tm_state t of
        TS_CBE_INIT \<Rightarrow> execute_cbe_init E (destruct_cbe t)
      | TS_CBE_CHECK \<Rightarrow> execute_cbe_check E (destruct_cbe t)
      | TS_CBE_DUMP \<Rightarrow> execute_cbe_dump E (destruct_cbe t)
      | TS_CBE \<Rightarrow> execute_cbe E (construct_cbe E t)
      | TS_INVALID \<Rightarrow> execute_cbe E (construct_cbe E t))"

definition execute_pass ::
  "('l, 'i, 'c, 'd, 's) tester_world \<Rightarrow> ('l, 'i, 'c, 'd, 's) tester \<Rightarrow> (('l, 'i, 'c, 'd, 's) tester \<times> bool) run" where
  "execute_pass E t =
     bind_run (execute_state E (start_dump E (start_check E (start_initialize E (t\<lparr>tm_progress := False\<rparr>)))))
       (\<lambda>t1. Some (Inr (t1, tm_progress t1)))"

definition tester_execute ::
  "('l, 'i, 'c, 'd, 's) tester_world \<Rightarrow> ('l, 'i, 'c, 'd, 's) tester \<Rightarrow> ('l, 'i, 'c, 'd, 's) tester run" where
  "tester_execute E t =
     bind_run (run_while (execute_pass E) t) (\<lambda>t1.
       Some (Inr (t1\<lparr>tm_tx := ps_wakeup (tw_stream E) (tm_tx t1)\<rparr>)))"

end
