(* ===== verification/Tester_Crypto.thy ===== *)
theory Tester_Crypto
  imports Tester_Main
begin

text \<open>
  The tester and the VFS plugin drive the crypto unit by the same code, written twice. The
  simulation along \<open>crypto_side_of\<close>, the part of the plugin's state that the code touches,
  shows that the two handlers agree on every state: they return the same states, throw the same
  exceptions and fail to end together.
\<close>

definition crypto_side_of :: "('l, 'f) wrapper \<Rightarrow> 'l crypto_side" where
  "crypto_side_of w =
     \<lparr> cs_cbe = w_cbe w, cs_crypto = w_crypto w, cs_plain = w_plain_data w, cs_cipher = w_cipher_data w \<rparr>"

abbreviation with_progress :: "('l, 'f) wrapper \<times> bool \<Rightarrow> 'l crypto_side \<times> bool" where
  "with_progress \<equiv> map_prod crypto_side_of id"

named_theorems side_simps \<open>the two handlers, unfolded\<close>

declare crypto_side_of_def [side_simps] Let_def [side_simps]

lemma add_key_side: "add_key_step (world_lib E) (with_progress s) = map_loop_step with_progress id (add_key_pass E s)"
  by (auto simp: add_key_step_def add_key_pass_def side_simps split: prod.splits sum.splits)

lemma remove_key_side:
  "remove_key_step (world_lib E) (world_indeterminate E) (with_progress s)
     = map_loop_step with_progress id (remove_key_pass E s)"
  by (auto simp: remove_key_step_def remove_key_pass_def side_simps split: prod.splits sum.splits)

lemma encrypt_side: "encrypt_step (world_lib E) (with_progress s) = map_loop_step with_progress id (encrypt_pass E s)"
  by (auto simp: encrypt_step_def encrypt_pass_def side_simps split: prod.splits sum.splits)

lemma decrypt_side: "decrypt_step (world_lib E) (with_progress s) = map_loop_step with_progress id (decrypt_pass E s)"
  by (auto simp: decrypt_step_def decrypt_pass_def side_simps split: prod.splits sum.splits)

lemma encrypted_side:
  "encrypted_step (world_lib E) (with_progress s) = map_loop_step with_progress id (encrypted_pass E s)"
  by (auto simp: encrypted_step_def encrypted_pass_def side_simps split: prod.splits sum.splits option.splits)

lemma decrypted_side:
  "decrypted_step (world_lib E) (with_progress s) = map_loop_step with_progress id (decrypted_pass E s)"
  by (auto simp: decrypted_step_def decrypted_pass_def side_simps split: prod.splits sum.splits option.splits)

lemma side_loops:
  "run_loop (add_key_step (world_lib E)) (with_progress s)
     = map_option (map_sum id with_progress) (run_loop (add_key_pass E) s)"
  "run_loop (remove_key_step (world_lib E) (world_indeterminate E)) (with_progress s)
     = map_option (map_sum id with_progress) (run_loop (remove_key_pass E) s)"
  "run_loop (encrypt_step (world_lib E)) (with_progress s)
     = map_option (map_sum id with_progress) (run_loop (encrypt_pass E) s)"
  "run_loop (encrypted_step (world_lib E)) (with_progress s)
     = map_option (map_sum id with_progress) (run_loop (encrypted_pass E) s)"
  "run_loop (decrypt_step (world_lib E)) (with_progress s)
     = map_option (map_sum id with_progress) (run_loop (decrypt_pass E) s)"
  "run_loop (decrypted_step (world_lib E)) (with_progress s)
     = map_option (map_sum id with_progress) (run_loop (decrypted_pass E) s)"
  by (rule run_loop_image;
      rule add_key_side remove_key_side encrypt_side encrypted_side decrypt_side decrypted_side)+

text \<open>
  C17. The crypto loops of the tester and of the VFS plugin are two copies of the same code: on
  every state of library, crypto unit and buffers they return the same result, the same
  exception, or both do not return.
\<close>

theorem crypto_handlers_agree:
  "crypto_loops (world_lib E) (world_aes E) (world_indeterminate E) (crypto_side_of w, False)
     = map_option (map_sum id with_progress) (handle_crypto E w)"
proof (cases "crypto_execute (world_aes E) (w_crypto w)")
  case (Inl e)
  then show ?thesis by (simp add: crypto_loops_def handle_crypto_def crypto_side_of_def)
next
  case (Inr cp)
  obtain c p where cp: "cp = (c, p)" by (cases cp)
  have start: "((crypto_side_of w)\<lparr>cs_crypto := c\<rparr>, p) = with_progress (w\<lparr>w_crypto := c\<rparr>, p)"
    by (simp add: crypto_side_of_def)
  have sel: "cs_crypto (crypto_side_of w) = w_crypto w" by (simp add: crypto_side_of_def)
  show ?thesis
    unfolding crypto_loops_def handle_crypto_def prod.case sel Inr cp bind_run_simps simp_thms start
    by (subst side_loops, rule bind_run_image)+ (rule side_loops)
qed

end
