(* ===== verification/Tester_Safety.thy ===== *)
theory Tester_Safety
  imports Tester_Main Wrapper_Safety
begin

text \<open>
  The tester's bookkeeping: whenever one of its flags says that a request is with the CBE
  library, the test in progress is of the flag's kind, and while a tool runs, the test in
  progress is the tool's. So no operation reads a member of a test that is not there, and the
  search for a snapshot that is being discarded succeeds.
\<close>

section \<open>The invariant\<close>

definition flags_inv :: "('l, 'i, 'c, 'd, 's) tester \<Rightarrow> bool" where
  "flags_inv t \<longleftrightarrow>
     (let p = bs_in_progress (tm_session t) in
      (tm_creating_snapshot t \<longrightarrow> (\<exists>i. p = Some (Test_Create_Snapshot i)))
      \<and> (tm_discard_snapshot t \<longrightarrow>
           (\<exists>i g. p = Some (Test_Discard_Snapshot i) \<and> find_by_id (bs_created (tm_session t)) i = Inr g))
      \<and> (tm_rekey t \<longrightarrow> p = Some Test_Rekey)
      \<and> (tm_deinitialize t \<longrightarrow> p = Some Test_Deinitialize)
      \<and> (tm_extend_vbd t \<longrightarrow> p = Some (Test_Extend_Vbd (tm_extend_vbd_obj t)))
      \<and> (tm_extend_ft t \<longrightarrow> p = Some (Test_Extend_Ft (tm_extend_ft_obj t))))"

definition tool_inv :: "('l, 'i, 'c, 'd, 's) tester \<Rightarrow> bool" where
  "tool_inv t \<longleftrightarrow>
     (let p = bs_in_progress (tm_session t) in
      (tm_state t = TS_CBE_INIT \<longrightarrow> (\<exists>cfg. p = Some (Test_Initialize cfg)))
      \<and> (tm_state t = TS_CBE_CHECK \<longrightarrow> p = Some Test_Check)
      \<and> (tm_state t = TS_CBE_DUMP \<longrightarrow> (\<exists>cfg. p = Some (Test_Dump cfg))))"

definition tester_inv :: "('l, 'i, 'c, 'd, 's) tester \<Rightarrow> bool" where
  "tester_inv t \<longleftrightarrow> flags_inv t \<and> tool_inv t"

text \<open>The exceptions that are not a mistake of the tester's bookkeeping.\<close>

definition outside_error :: "exn \<Rightarrow> bool" where
  "outside_error e \<longleftrightarrow> e \<noteq> Deref_unconstructed_object \<and> e \<noteq> Failed_to_find_created_snapshot"

definition safe_step :: "exn + ('l, 'i, 'c, 'd, 's) tester \<Rightarrow> bool" where
  "safe_step res \<longleftrightarrow> (case res of Inl e \<Rightarrow> outside_error e | Inr t \<Rightarrow> flags_inv t)"

lemma safe_step_simps [simp]:
  "safe_step (Inr t) \<longleftrightarrow> flags_inv t"
  "safe_step (Inl e) \<longleftrightarrow> outside_error e"
  by (simp_all add: safe_step_def)

lemma safe_step_bind:
  assumes "safe_step m" "\<And>t. flags_inv t \<Longrightarrow> safe_step (f t)"
  shows "safe_step (bind_exn m f)"
  using assms by (cases m) simp_all

lemma outside_errors [simp]:
  "outside_error Request_not_acceptable" "outside_error Unexpected_request"
  "outside_error Operation_type_not_convertable" "outside_error Bad_index"
  "outside_error Program_Error" "outside_error Constraint_Error" "outside_error Invalid_io_request"
  by (simp_all add: outside_error_def)

section \<open>The tests of the CBE library\<close>

lemma as_kinds:
  "as_create t = Some i \<longleftrightarrow> t = Test_Create_Snapshot i"
  "as_discard t = Some i \<longleftrightarrow> t = Test_Discard_Snapshot i"
  "as_extend_vbd t = Some n \<longleftrightarrow> t = Test_Extend_Vbd n"
  "as_extend_ft t = Some n \<longleftrightarrow> t = Test_Extend_Ft n"
  "as_request t = Some r \<longleftrightarrow> t = Test_Request r"
  "as_initialize t = Some cfg \<longleftrightarrow> t = Test_Initialize cfg"
  "as_dump t = Some dcfg \<longleftrightarrow> t = Test_Dump dcfg"
  "as_test u t = Some x \<longleftrightarrow> t = u"
  by (cases t; auto simp: as_test_def)+

text \<open>
  A test is taken only when none is in progress, and then it is the test in progress; otherwise
  nothing changes but the exit codes.
\<close>

lemma with_test_result:
  assumes "with_test kind s = (s', res)"
  shows "bs_created s' = bs_created s
    \<and> (case res of None \<Rightarrow> bs_in_progress s' = bs_in_progress s
       | Some x \<Rightarrow> bs_in_progress s = None \<and> (\<exists>t. bs_in_progress s' = Some t \<and> kind t = Some x))"
  using assms
  by (cases "bs_in_progress s"; cases "bs_queue s"; cases "kind (hd (bs_queue s))")
    (auto simp: with_test_def session_exit_def split: option.splits)

lemma flags_inv_frame:
  assumes "flags_inv t" "bs_in_progress (tm_session t') = bs_in_progress (tm_session t)"
    and "bs_created (tm_session t') = bs_created (tm_session t)"
    and "tm_creating_snapshot t' = tm_creating_snapshot t" "tm_discard_snapshot t' = tm_discard_snapshot t"
    and "tm_rekey t' = tm_rekey t" "tm_deinitialize t' = tm_deinitialize t"
    and "tm_extend_vbd t' = tm_extend_vbd t" "tm_extend_vbd_obj t' = tm_extend_vbd_obj t"
    and "tm_extend_ft t' = tm_extend_ft t" "tm_extend_ft_obj t' = tm_extend_ft_obj t"
  shows "flags_inv t'"
  using assms by (simp add: flags_inv_def)

definition no_flags :: "('l, 'i, 'c, 'd, 's) tester \<Rightarrow> bool" where
  "no_flags t \<longleftrightarrow>
     \<not> tm_creating_snapshot t \<and> \<not> tm_discard_snapshot t \<and> \<not> tm_rekey t \<and> \<not> tm_deinitialize t
     \<and> \<not> tm_extend_vbd t \<and> \<not> tm_extend_ft t"

lemma idle_flags: "flags_inv t \<Longrightarrow> bs_in_progress (tm_session t) = None \<Longrightarrow> no_flags t"
  by (simp add: flags_inv_def no_flags_def)

lemma no_flags_inv: "no_flags t \<Longrightarrow> flags_inv t"
  by (simp add: flags_inv_def no_flags_def)

lemma submit_to_cbe_sel [simp]:
  "tm_session (submit_to_cbe E r n t) = tm_session t"
  "tm_creating_snapshot (submit_to_cbe E r n t) = tm_creating_snapshot t"
  "tm_discard_snapshot (submit_to_cbe E r n t) = tm_discard_snapshot t"
  "tm_rekey (submit_to_cbe E r n t) = tm_rekey t"
  "tm_deinitialize (submit_to_cbe E r n t) = tm_deinitialize t"
  "tm_extend_vbd (submit_to_cbe E r n t) = tm_extend_vbd t"
  "tm_extend_vbd_obj (submit_to_cbe E r n t) = tm_extend_vbd_obj t"
  "tm_extend_ft (submit_to_cbe E r n t) = tm_extend_ft t"
  "tm_extend_ft_obj (submit_to_cbe E r n t) = tm_extend_ft_obj t"
  by (simp_all add: submit_to_cbe_def)

lemma drop_next_sel [simp]:
  "tm_session (next_state (drop_from_cbe E r t)) = tm_session t"
  "tm_creating_snapshot (next_state (drop_from_cbe E r t)) = tm_creating_snapshot t"
  "tm_discard_snapshot (next_state (drop_from_cbe E r t)) = tm_discard_snapshot t"
  "tm_rekey (next_state (drop_from_cbe E r t)) = tm_rekey t"
  "tm_deinitialize (next_state (drop_from_cbe E r t)) = tm_deinitialize t"
  "tm_extend_vbd (next_state (drop_from_cbe E r t)) = tm_extend_vbd t"
  "tm_extend_vbd_obj (next_state (drop_from_cbe E r t)) = tm_extend_vbd_obj t"
  "tm_extend_ft (next_state (drop_from_cbe E r t)) = tm_extend_ft t"
  "tm_extend_ft_obj (next_state (drop_from_cbe E r t)) = tm_extend_ft_obj t"
  by (simp_all add: next_state_def drop_from_cbe_def)

lemma session_done_sel [simp]:
  "bs_in_progress (test_end s) = None" "bs_created (test_end s) = bs_created s"
  "bs_in_progress (session_failed s) = bs_in_progress s" "bs_created (session_failed s) = bs_created s"
  "bs_in_progress (test_done ok s) = None" "bs_created (test_done ok s) = bs_created s"
  "bs_in_progress (submit_ack r s) = None" "bs_created (submit_ack r s) = bs_created s"
  by (simp_all add: test_end_def session_failed_def test_done_def submit_ack_def Let_def)

lemma submit_block_request_safe:
  assumes "flags_inv t" shows "flags_inv (submit_block_request E t)"
proof -
  obtain s res where w: "with_requests (tm_session t) = (s, res)" by fastforce
  note r = with_test_result [OF w [unfolded with_requests_def]]
  show ?thesis
  proof (cases res)
    case None
    with w r show ?thesis
      by (simp add: submit_block_request_def) (rule flags_inv_frame [OF assms]; simp)
  next
    case (Some br)
    then have "no_flags t" using r idle_flags [OF assms] by simp
    with w Some show ?thesis
      by (intro no_flags_inv) (simp add: submit_block_request_def no_flags_def Let_def)
  qed
qed

lemma convert_from_error: "convert_from r = Inl e \<Longrightarrow> e = Operation_type_not_convertable"
  by (cases "req_operation r") (auto simp: convert_from_def)

lemma acknowledge_request_safe:
  assumes "flags_inv t" shows "safe_step (acknowledge_request E t)"
proof (cases "no_flags t \<and> valid (cbe_completed E t)")
  case False
  then have "acknowledge_request E t = Inr t"
    by (auto simp: acknowledge_request_def no_flags_def Let_def)
  with assms show ?thesis by simp
next
  case True
  show ?thesis
  proof (cases "convert_from (cbe_completed E t)")
    case (Inl e)
    with True convert_from_error [OF Inl] show ?thesis
      by (simp add: acknowledge_request_def no_flags_def Let_def)
  next
    case (Inr br)
    with True show ?thesis
      by (simp add: acknowledge_request_def no_flags_def Let_def)
        (intro no_flags_inv, simp add: no_flags_def next_state_def drop_from_cbe_def)
  qed
qed

lemma start_create_snapshot_safe:
  assumes "flags_inv t" shows "flags_inv (start_create_snapshot E t)"
proof (cases "tm_creating_snapshot t")
  case True
  with assms show ?thesis by (simp add: start_create_snapshot_def)
next
  case False
  obtain s res where w: "with_create_snapshot (tm_session t) = (s, res)" by fastforce
  note r = with_test_result [OF w [unfolded with_create_snapshot_def]]
  show ?thesis
  proof (cases res)
    case None
    with False w r show ?thesis
      by (simp add: start_create_snapshot_def) (rule flags_inv_frame [OF assms]; simp)
  next
    case (Some i)
    with r have "no_flags t" "bs_in_progress s = Some (Test_Create_Snapshot i)"
      using idle_flags [OF assms] by (auto simp: as_kinds)
    with False w Some show ?thesis
      by (simp add: start_create_snapshot_def no_flags_def flags_inv_def Let_def)
  qed
qed

lemma start_discard_snapshot_safe:
  assumes "flags_inv t" shows "flags_inv (start_discard_snapshot E t)"
proof (cases "tm_discard_snapshot t")
  case True
  with assms show ?thesis by (simp add: start_discard_snapshot_def)
next
  case False
  obtain s res where w: "with_test as_discard (tm_session t) = (s, res)" by fastforce
  note r = with_test_result [OF w]
  show ?thesis
  proof (cases res)
    case None
    with False w r show ?thesis
      by (simp add: start_discard_snapshot_def with_discard_snapshot_def)
        (rule flags_inv_frame [OF assms]; simp)
  next
    case (Some i)
    with r have idle: "no_flags t" "bs_in_progress s = Some (Test_Discard_Snapshot i)"
      using idle_flags [OF assms] by (auto simp: as_kinds)
    show ?thesis
    proof (cases "find_by_id (bs_created s) i")
      case (Inl e)
      with False w Some idle show ?thesis
        by (intro no_flags_inv) (simp add: start_discard_snapshot_def with_discard_snapshot_def no_flags_def)
    next
      case (Inr g)
      with False w Some idle show ?thesis
        by (simp add: start_discard_snapshot_def with_discard_snapshot_def no_flags_def flags_inv_def Let_def)
    qed
  qed
qed

text \<open>The four tests that throw when the library does not accept the request.\<close>

lemma start_deinitialize_safe:
  assumes "flags_inv t" shows "safe_step (start_deinitialize E t)"
proof (cases "tm_deinitialize t")
  case True
  with assms show ?thesis by (simp add: start_deinitialize_def)
next
  case False
  obtain s res where w: "with_deinitialize (tm_session t) = (s, res)" by fastforce
  note r = with_test_result [OF w [unfolded with_deinitialize_def]]
  show ?thesis
  proof (cases res)
    case None
    with False w r show ?thesis
      by (simp add: start_deinitialize_def) (rule flags_inv_frame [OF assms]; simp)
  next
    case (Some x)
    with r have "no_flags t" "bs_in_progress s = Some Test_Deinitialize"
      using idle_flags [OF assms] by (auto simp: as_kinds)
    with False w Some show ?thesis
      by (simp add: start_deinitialize_def no_flags_def flags_inv_def Let_def)
  qed
qed

lemma start_rekey_safe:
  assumes "flags_inv t" shows "safe_step (start_rekey E t)"
proof (cases "tm_rekey t")
  case True
  with assms show ?thesis by (simp add: start_rekey_def)
next
  case False
  obtain s res where w: "with_rekey (tm_session t) = (s, res)" by fastforce
  note r = with_test_result [OF w [unfolded with_rekey_def]]
  show ?thesis
  proof (cases res)
    case None
    with False w r show ?thesis
      by (simp add: start_rekey_def) (rule flags_inv_frame [OF assms]; simp)
  next
    case (Some x)
    with r have "no_flags t" "bs_in_progress s = Some Test_Rekey"
      using idle_flags [OF assms] by (auto simp: as_kinds)
    with False w Some show ?thesis
      by (simp add: start_rekey_def no_flags_def flags_inv_def Let_def)
  qed
qed

lemma start_extend_vbd_safe:
  assumes "flags_inv t" shows "safe_step (start_extend_vbd E t)"
proof (cases "tm_extend_vbd t")
  case True
  with assms show ?thesis by (simp add: start_extend_vbd_def)
next
  case False
  obtain s res where w: "with_extend_vbd (tm_session t) = (s, res)" by fastforce
  note r = with_test_result [OF w [unfolded with_extend_vbd_def]]
  show ?thesis
  proof (cases res)
    case None
    with False w r show ?thesis
      by (simp add: start_extend_vbd_def) (rule flags_inv_frame [OF assms]; simp)
  next
    case (Some n)
    with r have "no_flags t" "bs_in_progress s = Some (Test_Extend_Vbd n)"
      using idle_flags [OF assms] by (auto simp: as_kinds)
    with False w Some show ?thesis
      by (simp add: start_extend_vbd_def no_flags_def flags_inv_def Let_def)
  qed
qed

lemma start_extend_ft_safe:
  assumes "flags_inv t" shows "safe_step (start_extend_ft E t)"
proof (cases "tm_extend_ft t")
  case True
  with assms show ?thesis by (simp add: start_extend_ft_def)
next
  case False
  obtain s res where w: "with_extend_ft (tm_session t) = (s, res)" by fastforce
  note r = with_test_result [OF w [unfolded with_extend_ft_def]]
  show ?thesis
  proof (cases res)
    case None
    with False w r show ?thesis
      by (simp add: start_extend_ft_def) (rule flags_inv_frame [OF assms]; simp)
  next
    case (Some n)
    with r have "no_flags t" "bs_in_progress s = Some (Test_Extend_Ft n)"
      using idle_flags [OF assms] by (auto simp: as_kinds)
    with False w Some show ?thesis
      by (simp add: start_extend_ft_def no_flags_def flags_inv_def Let_def)
  qed
qed

text \<open>When a flag is set, it is the only one.\<close>

lemma one_flag:
  assumes "flags_inv t"
  shows "tm_creating_snapshot t \<Longrightarrow> no_flags (t\<lparr>tm_creating_snapshot := False\<rparr>)"
    "tm_discard_snapshot t \<Longrightarrow> no_flags (t\<lparr>tm_discard_snapshot := False\<rparr>)"
    "tm_deinitialize t \<Longrightarrow> no_flags (t\<lparr>tm_deinitialize := False\<rparr>)"
    "tm_rekey t \<Longrightarrow> no_flags (t\<lparr>tm_rekey := False\<rparr>)"
    "tm_extend_vbd t \<Longrightarrow> no_flags (t\<lparr>tm_extend_vbd := False\<rparr>)"
    "tm_extend_ft t \<Longrightarrow> no_flags (t\<lparr>tm_extend_ft := False\<rparr>)"
  using assms by (auto simp: flags_inv_def no_flags_def Let_def)

lemma finish_create_snapshot_safe:
  assumes "flags_inv t" shows "safe_step (finish_create_snapshot E t)"
proof (cases "tm_creating_snapshot t")
  case True
  then obtain i where "test_in_progress as_create (tm_session t) = Inr i"
    using assms by (auto simp: flags_inv_def test_in_progress_def Let_def)
  with assms one_flag(1) [OF assms True] show ?thesis
    by (auto simp: finish_create_snapshot_def create_snapshot_done_def Let_def no_flags_def
        intro!: no_flags_inv)
next
  case False
  with assms show ?thesis by (simp add: finish_create_snapshot_def)
qed

lemma finish_discard_snapshot_safe:
  assumes "flags_inv t" shows "safe_step (finish_discard_snapshot E t)"
proof (cases "tm_discard_snapshot t")
  case True
  then obtain i g where "test_in_progress as_discard (tm_session t) = Inr i"
      "find_by_id (bs_created (tm_session t)) i = Inr g"
    using assms by (auto simp: flags_inv_def test_in_progress_def Let_def)
  with assms one_flag(2) [OF assms True] show ?thesis
    by (auto simp: finish_discard_snapshot_def discard_snapshot_done_def Let_def no_flags_def
        intro!: no_flags_inv)
next
  case False
  with assms show ?thesis by (simp add: finish_discard_snapshot_def)
qed

lemma finish_deinitialize_safe:
  assumes "flags_inv t" shows "safe_step (finish_deinitialize E t)"
  using assms one_flag(3) [OF assms]
  by (auto simp: finish_deinitialize_def Let_def no_flags_def intro!: no_flags_inv)

lemma finish_rekey_safe:
  assumes "flags_inv t" shows "safe_step (finish_rekey E t)"
  using assms one_flag(4) [OF assms]
  by (auto simp: finish_rekey_def Let_def no_flags_def intro!: no_flags_inv)

lemma finish_extend_vbd_safe:
  assumes "flags_inv t" shows "safe_step (finish_extend_vbd E t)"
proof (cases "tm_extend_vbd t")
  case True
  then obtain n where "test_in_progress as_extend_vbd (tm_session t) = Inr n"
    using assms by (auto simp: flags_inv_def test_in_progress_def Let_def)
  with assms one_flag(5) [OF assms True] show ?thesis
    by (auto simp: finish_extend_vbd_def extend_vbd_done_def Let_def no_flags_def intro!: no_flags_inv)
next
  case False
  with assms show ?thesis by (simp add: finish_extend_vbd_def)
qed

lemma finish_extend_ft_safe:
  assumes "flags_inv t" shows "safe_step (finish_extend_ft E t)"
proof (cases "tm_extend_ft t")
  case True
  then obtain n where "test_in_progress as_extend_ft (tm_session t) = Inr n"
    using assms by (auto simp: flags_inv_def test_in_progress_def Let_def)
  with assms one_flag(6) [OF assms True] show ?thesis
    by (auto simp: finish_extend_ft_def extend_ft_done_def Let_def no_flags_def intro!: no_flags_inv)
next
  case False
  with assms show ?thesis by (simp add: finish_extend_ft_def)
qed

lemma list_snapshots_safe:
  assumes "flags_inv t" shows "flags_inv (list_snapshots t)"
proof -
  obtain s res where w: "with_test (as_test Test_List_Snapshots) (tm_session t) = (s, res)" by fastforce
  note r = with_test_result [OF w]
  show ?thesis
  proof (cases res)
    case None
    with w r show ?thesis
      by (simp add: list_snapshots_def with_list_snapshots_def) (rule flags_inv_frame [OF assms]; simp)
  next
    case (Some x)
    with r have "no_flags t" using idle_flags [OF assms] by simp
    with w Some show ?thesis
      by (intro no_flags_inv) (simp add: list_snapshots_def with_list_snapshots_def no_flags_def)
  qed
qed

lemma handle_tests_safe: "flags_inv t \<Longrightarrow> safe_step (handle_tests E t)"
  unfolding handle_tests_def
  by (intro safe_step_bind acknowledge_request_safe submit_block_request_safe
      finish_create_snapshot_safe start_create_snapshot_safe finish_discard_snapshot_safe
      start_discard_snapshot_safe start_deinitialize_safe finish_deinitialize_safe start_rekey_safe
      list_snapshots_safe finish_rekey_safe start_extend_vbd_safe finish_extend_vbd_safe
      start_extend_ft_safe finish_extend_ft_safe)

section \<open>The library, the back end and the crypto unit\<close>

lemma run_loop_error:
  fixes body :: "'x \<Rightarrow> ('x, exn) loop_step"
  assumes "run_loop body s = Some (Inl e)" "\<And>s e. body s = Throw e \<Longrightarrow> P e"
  shows "P e"
  using run_loop_rule [OF assms(1), of "\<lambda>_. True" "\<lambda>r. case r of Inl e \<Rightarrow> P e | Inr _ \<Rightarrow> True"] assms(2)
  by simp

lemma bind_run_error:
  assumes "bind_run m f = Some (Inl e)" "\<And>e. m = Some (Inl e) \<Longrightarrow> P e"
    "\<And>x. f x = Some (Inl e) \<Longrightarrow> P e"
  shows "P e"
  using assms by (auto simp: bind_run_def split: option.splits sum.splits)

lemma set_item_error: "set_item b i x = Inl e \<Longrightarrow> e = Bad_index"
  by (simp add: set_item_def split: if_splits)

lemma submit_pass_error: "submit_pass T S opcode ratio s = Throw e \<Longrightarrow> outside_error e"
  by (cases s) (auto simp: submit_pass_def Let_def dest: item_error
      split: if_splits prod.splits option.splits sum.splits)

lemma ack_pass_error: "ack_pass T S op_match ratio s = Throw e \<Longrightarrow> outside_error e"
  by (cases s) (auto simp: ack_pass_def Let_def dest: set_item_error
      split: if_splits prod.splits option.splits sum.splits)

lemma backend_io_error: "backend_io T S opcode op_match ratio s = Some (Inl e) \<Longrightarrow> outside_error e"
  unfolding backend_io_def
  by (elim bind_run_error run_loop_error submit_pass_error ack_pass_error)

lemma crypto_step_errors:
  "add_key_step L s = Throw e \<Longrightarrow> outside_error e"
  "remove_key_step L kid s = Throw e \<Longrightarrow> outside_error e"
  "encrypt_step L s = Throw e \<Longrightarrow> outside_error e"
  "encrypted_step L s = Throw e \<Longrightarrow> outside_error e"
  "decrypt_step L s = Throw e \<Longrightarrow> outside_error e"
  "decrypted_step L s = Throw e \<Longrightarrow> outside_error e"
proof -
  show "add_key_step L s = Throw e \<Longrightarrow> outside_error e" "remove_key_step L kid s = Throw e \<Longrightarrow> outside_error e"
    by (cases s; auto simp: add_key_step_def remove_key_step_def Let_def dest: crypto_key_error
        split: prod.splits sum.splits if_splits)+
  show "encrypt_step L s = Throw e \<Longrightarrow> outside_error e" "decrypt_step L s = Throw e \<Longrightarrow> outside_error e"
    by (cases s; auto simp: encrypt_step_def decrypt_step_def Let_def bind_exn_def
        dest: submit_crypto_error item_error split: prod.splits sum.splits if_splits)+
  show "encrypted_step L s = Throw e \<Longrightarrow> outside_error e" "decrypted_step L s = Throw e \<Longrightarrow> outside_error e"
    by (cases s; auto simp: encrypted_step_def decrypted_step_def Let_def
        dest: item_error set_item_error supply_crypto_error split: prod.splits sum.splits option.splits if_splits)+
qed

lemmas crypto_loop_errors = run_loop_error [where P = outside_error, OF _ crypto_step_errors(1)]
  run_loop_error [where P = outside_error, OF _ crypto_step_errors(2)]
  run_loop_error [where P = outside_error, OF _ crypto_step_errors(3)]
  run_loop_error [where P = outside_error, OF _ crypto_step_errors(4)]
  run_loop_error [where P = outside_error, OF _ crypto_step_errors(5)]
  run_loop_error [where P = outside_error, OF _ crypto_step_errors(6)]

lemma crypto_loops_error:
  assumes "crypto_loops L A kid (w, p) = Some (Inl e)"
  shows "outside_error e"
proof (cases "crypto_execute A (cs_crypto w)")
  case (Inl e')
  with assms crypto_execute_error [OF Inl] show ?thesis by (simp add: crypto_loops_def)
next
  case (Inr cp)
  obtain c p0 where cp: "cp = (c, p0)" by (cases cp)
  show ?thesis
    using assms unfolding crypto_loops_def prod.case Inr cp bind_run_simps
    by (elim bind_run_error [where P = outside_error] crypto_loop_errors)
qed

section \<open>The phases\<close>

text \<open>\<open>_execute_cbe\<close> runs in the states \<open>CBE\<close> and \<open>INVALID\<close> and keeps to them.\<close>

definition cbe_phase :: "('l, 'i, 'c, 'd, 's) tester \<Rightarrow> bool" where
  "cbe_phase t \<longleftrightarrow> tm_state t = TS_CBE \<or> tm_state t = TS_INVALID"

definition phase_step :: "exn + ('l, 'i, 'c, 'd, 's) tester \<Rightarrow> bool" where
  "phase_step res \<longleftrightarrow> (case res of Inl e \<Rightarrow> True | Inr t \<Rightarrow> cbe_phase t)"

lemma phase_step_simps [simp]: "phase_step (Inr t) \<longleftrightarrow> cbe_phase t" "phase_step (Inl e)"
  by (simp_all add: phase_step_def)

lemma phase_step_bind:
  "phase_step m \<Longrightarrow> (\<And>t. cbe_phase t \<Longrightarrow> phase_step (f t)) \<Longrightarrow> phase_step (bind_exn m f)"
  by (cases m) simp_all

lemma cbe_phase_next [simp]: "cbe_phase ((next_state t)\<lparr>tm_progress := p\<rparr>)" "cbe_phase (next_state t)"
  by (simp_all add: cbe_phase_def next_state_def)

lemma cbe_phase_submit [simp]: "cbe_phase (submit_to_cbe E r n t) = cbe_phase t"
  by (simp add: cbe_phase_def submit_to_cbe_def)

lemma cbe_phase_update [simp]:
  "cbe_phase (t\<lparr>tm_session := s\<rparr>) = cbe_phase t"
  "cbe_phase (t\<lparr>tm_creating_snapshot := b\<rparr>) = cbe_phase t"
  "cbe_phase (t\<lparr>tm_discard_snapshot := b\<rparr>) = cbe_phase t"
  "cbe_phase (t\<lparr>tm_deinitialize := b\<rparr>) = cbe_phase t"
  "cbe_phase (t\<lparr>tm_rekey := b\<rparr>) = cbe_phase t"
  "cbe_phase (t\<lparr>tm_extend_vbd_obj := n, tm_extend_vbd := b\<rparr>) = cbe_phase t"
  "cbe_phase (t\<lparr>tm_extend_ft_obj := n, tm_extend_ft := b\<rparr>) = cbe_phase t"
  "cbe_phase (t\<lparr>tm_state := TS_CBE\<rparr>)"
  by (simp_all add: cbe_phase_def)

lemma start_phases:
  assumes "cbe_phase t"
  shows "cbe_phase (submit_block_request E t)" "cbe_phase (start_create_snapshot E t)"
    "cbe_phase (start_discard_snapshot E t)" "cbe_phase (list_snapshots t)"
    "phase_step (start_deinitialize E t)" "phase_step (start_rekey E t)"
    "phase_step (start_extend_vbd E t)" "phase_step (start_extend_ft E t)"
  using assms
  by (simp_all add: submit_block_request_def start_create_snapshot_def start_discard_snapshot_def
      list_snapshots_def start_deinitialize_def start_rekey_def start_extend_vbd_def
      start_extend_ft_def Let_def split: prod.split option.split)

lemma finish_phases:
  assumes "cbe_phase t"
  shows "phase_step (acknowledge_request E t)" "phase_step (finish_create_snapshot E t)"
    "phase_step (finish_discard_snapshot E t)" "phase_step (finish_deinitialize E t)"
    "phase_step (finish_rekey E t)" "phase_step (finish_extend_vbd E t)"
    "phase_step (finish_extend_ft E t)"
  using assms
  by (simp_all add: acknowledge_request_def finish_create_snapshot_def finish_discard_snapshot_def
      finish_deinitialize_def finish_rekey_def finish_extend_vbd_def finish_extend_ft_def Let_def
      bind_exn_def split: sum.split)

lemma handle_tests_phase: "cbe_phase t \<Longrightarrow> phase_step (handle_tests E t)"
  unfolding handle_tests_def by (intro phase_step_bind finish_phases start_phases)

section \<open>The whole loop\<close>

definition safe_run :: "('l, 'i, 'c, 'd, 's) tester run \<Rightarrow> bool" where
  "safe_run m \<longleftrightarrow>
     (case m of None \<Rightarrow> True | Some (Inl e) \<Rightarrow> outside_error e | Some (Inr t) \<Rightarrow> tester_inv t)"

lemma cbe_phase_tool_inv: "cbe_phase t \<Longrightarrow> tool_inv t"
  by (auto simp: cbe_phase_def tool_inv_def)

text \<open>What the library, the back end and the crypto unit leave alone.\<close>

definition same_tests :: "('l, 'i, 'c, 'd, 's) tester \<Rightarrow> ('l, 'i, 'c, 'd, 's) tester \<Rightarrow> bool" where
  "same_tests t t' \<longleftrightarrow>
     (flags_inv t \<longrightarrow> flags_inv t') \<and> (cbe_phase t \<longrightarrow> cbe_phase t')
     \<and> bs_in_progress (tm_session t') = bs_in_progress (tm_session t)
     \<and> bs_queue (tm_session t') = bs_queue (tm_session t) \<and> tm_cbe_constructed t' = tm_cbe_constructed t"

lemma same_tests_trans: "same_tests t t' \<Longrightarrow> same_tests t' t'' \<Longrightarrow> same_tests t t''"
  by (auto simp: same_tests_def)

lemma run_library_same: "same_tests t (run_library E t)"
  unfolding same_tests_def
  by (auto simp: run_library_def cbe_phase_def split: prod.split intro: flags_inv_frame)

lemma read_payload_same:
  "case read_payload E t of Inl e \<Rightarrow> outside_error e | Inr t' \<Rightarrow> same_tests t t'"
proof -
  obtain r l where r: "client_data_ready (tw_lib E) (tm_cbe t) = (r, l)" by fastforce
  obtain v i l2 where o: "obtain_client_data (tw_lib E) l r (- 1) = ((v, i), l2)" by (metis surj_pair)
  show ?thesis
    by (cases "item (tm_plain t) i")
      (auto simp: read_payload_def r o Let_def same_tests_def cbe_phase_def
        dest: item_error intro: flags_inv_frame)
qed

lemma write_payload_same: "same_tests t (write_payload E t)"
  unfolding same_tests_def
  by (auto simp: write_payload_def cbe_phase_def Let_def split: prod.split intro: flags_inv_frame)

lemma tester_backend_same:
  "tester_backend E t = Some (Inl e) \<Longrightarrow> outside_error e"
  "tester_backend E t = Some (Inr t') \<Longrightarrow> same_tests t t'"
proof -
  show "tester_backend E t = Some (Inl e) \<Longrightarrow> outside_error e"
    unfolding tester_backend_def by (auto elim!: bind_run_error dest: backend_io_error)
  show "tester_backend E t = Some (Inr t') \<Longrightarrow> same_tests t t'"
    unfolding tester_backend_def
    by (auto elim!: bind_run_InrE simp: blk_back_def same_tests_def cbe_phase_def intro: flags_inv_frame)
qed

lemma tester_crypto_same:
  "tester_crypto E t = Some (Inl e) \<Longrightarrow> outside_error e"
  "tester_crypto E t = Some (Inr t') \<Longrightarrow> same_tests t t'"
proof -
  show "tester_crypto E t = Some (Inl e) \<Longrightarrow> outside_error e"
    unfolding tester_crypto_def by (auto elim!: bind_run_error dest: crypto_loops_error)
  show "tester_crypto E t = Some (Inr t') \<Longrightarrow> same_tests t t'"
    unfolding tester_crypto_def
    by (auto elim!: bind_run_InrE simp: same_tests_def cbe_phase_def intro: flags_inv_frame)
qed

lemma execute_cbe_safe:
  assumes "flags_inv t" "cbe_phase t" "tm_cbe_constructed t"
  shows "safe_run (execute_cbe E t)"
proof (cases "handle_tests E t")
  case (Inl e)
  with handle_tests_safe [OF assms(1), of E] assms(3) show ?thesis
    by (simp add: execute_cbe_def safe_run_def)
next
  case (Inr t1)
  with handle_tests_safe [OF assms(1), of E] handle_tests_phase [OF assms(2), of E]
  have t1: "flags_inv t1" "cbe_phase t1" by simp_all
  note pay = read_payload_same [of "run_library E t1" E]
  show ?thesis
  proof (cases "read_payload E (run_library E t1)")
    case (Inl e)
    with Inr assms(3) pay show ?thesis by (simp add: execute_cbe_def safe_run_def)
  next
    case (Inr t2)
    let ?t2 = "write_payload E t2"
    have t2: "same_tests t1 ?t2"
      using same_tests_trans [OF run_library_same same_tests_trans [OF _ write_payload_same]] pay Inr
      by simp
    have done_safe: "safe_run (Some (Inr (if valid (tm_blk_req t4) then t4 else next_state t4)))"
      if "same_tests ?t2 t4" for t4
    proof -
      have "flags_inv t4" "cbe_phase t4" using that t1 t2 by (simp_all add: same_tests_def)
      moreover have "flags_inv (next_state t4)"
        by (rule flags_inv_frame [OF \<open>flags_inv t4\<close>]) (simp_all add: next_state_def)
      ultimately show ?thesis by (simp add: safe_run_def tester_inv_def cbe_phase_tool_inv)
    qed
    consider "tester_backend E ?t2 = None" | e where "tester_backend E ?t2 = Some (Inl e)"
      | t3 where "tester_backend E ?t2 = Some (Inr t3)" by (metis not_None_eq sum.exhaust)
    then show ?thesis
    proof cases
      case (3 t3)
      note same3 = tester_backend_same(2) [OF 3]
      consider "tester_crypto E t3 = None" | e where "tester_crypto E t3 = Some (Inl e)"
        | t4 where "tester_crypto E t3 = Some (Inr t4)" by (metis not_None_eq sum.exhaust)
      then show ?thesis
      proof cases
        case (3 t4)
        with done_safe [OF same_tests_trans [OF same3 tester_crypto_same(2) [OF 3]]]
          \<open>tester_backend E ?t2 = Some (Inr t3)\<close> Inr \<open>handle_tests E t = Inr t1\<close> assms(3)
        show ?thesis by (simp add: execute_cbe_def)
      qed (use 3 Inr \<open>handle_tests E t = Inr t1\<close> assms(3) tester_crypto_same(1) in
          \<open>auto simp: execute_cbe_def safe_run_def\<close>)
    qed (use Inr \<open>handle_tests E t = Inr t1\<close> assms(3) tester_backend_same(1) in
        \<open>auto simp: execute_cbe_def safe_run_def\<close>)
  qed
qed

text \<open>The tools: their test is in progress, so no flag is set.\<close>

lemma finish_tool_safe:
  assumes "no_flags t" "tool_inv t"
    and "\<And>ok s. bs_in_progress (report ok s) = None"
  shows "tester_inv (finish_tool report completed (blk_back b p t))"
proof -
  have ioback: "no_flags (blk_back b p t)" "tool_inv (blk_back b p t)"
    using assms(1,2) by (simp_all add: blk_back_def no_flags_def tool_inv_def)
  show ?thesis
  proof (cases completed)
    case None
    with ioback show ?thesis by (simp add: finish_tool_def tester_inv_def no_flags_inv)
  next
    case (Some r)
    have "no_flags (finish_tool report completed (blk_back b p t))"
      using ioback(1) Some by (simp add: finish_tool_def no_flags_def)
    moreover have "tm_state (finish_tool report completed (blk_back b p t)) = TS_INVALID"
      using Some by (simp add: finish_tool_def)
    ultimately show ?thesis by (simp add: tester_inv_def no_flags_inv tool_inv_def)
  qed
qed

lemma tool_run_error:
  assumes "tool_run T S opcode op_match b p = Some (Inl e)"
  shows "outside_error e"
proof -
  obtain l buf where ex: "tool_execute T (bk_lib b) (bk_buf b) = (l, buf)" by fastforce
  show ?thesis
    using assms unfolding tool_run_def ex prod.case
    by (rule bind_run_error [where P = outside_error])
      (erule backend_io_error, simp add: Let_def split: prod.splits if_splits)
qed

lemma tool_test_no_flags:
  assumes "flags_inv t" "bs_in_progress (tm_session t) = Some x"
    and "x = Test_Check \<or> as_initialize x \<noteq> None \<or> as_dump x \<noteq> None"
  shows "no_flags t"
  using assms by (cases x) (simp_all add: flags_inv_def no_flags_def)

lemma tool_phase_no_flags:
  assumes "tester_inv t" "tm_state t = TS_CBE_INIT \<or> tm_state t = TS_CBE_CHECK \<or> tm_state t = TS_CBE_DUMP"
  shows "no_flags t"
proof -
  obtain x where "bs_in_progress (tm_session t) = Some x"
      "x = Test_Check \<or> as_initialize x \<noteq> None \<or> as_dump x \<noteq> None"
    using assms by (auto simp: tester_inv_def tool_inv_def)
  from tool_test_no_flags [OF _ this] assms(1) show ?thesis by (simp add: tester_inv_def)
qed

lemma tool_done_reports:
  "bs_in_progress (initialize_done ok s) = None" "bs_in_progress (check_done ok s) = None"
  "bs_in_progress (dump_done ok s) = None"
  by (simp_all add: initialize_done_def check_done_def dump_done_def)

lemma safe_run_bind:
  assumes "\<And>e. m = Some (Inl e) \<Longrightarrow> outside_error e" "\<And>x. safe_run (f x)"
  shows "safe_run (bind_run m f)"
proof (cases m)
  case (Some r)
  with assms show ?thesis by (cases r) (simp_all add: safe_run_def)
qed (simp add: safe_run_def)

lemma execute_tools_safe:
  assumes "no_flags t" "tool_inv t"
  shows "safe_run (execute_cbe_init E t)" "safe_run (execute_cbe_check E t)"
    "safe_run (execute_cbe_dump E t)"
proof -
  have frame: "no_flags (t\<lparr>tm_cbe_init := i\<rparr>)" "tool_inv (t\<lparr>tm_cbe_init := i\<rparr>)"
    "no_flags (t\<lparr>tm_cbe_check := c\<rparr>)" "tool_inv (t\<lparr>tm_cbe_check := c\<rparr>)"
    "no_flags (t\<lparr>tm_cbe_dump := d\<rparr>)" "tool_inv (t\<lparr>tm_cbe_dump := d\<rparr>)" for i c d
    using assms by (simp_all add: no_flags_def tool_inv_def)
  have done_safe: "safe_run (case x of (b, p, completed) \<Rightarrow> Some (Inr (finish_tool report completed (blk_back b p (f b)))))"
    if flags: "\<And>b. no_flags (f b)" and tool: "\<And>b. tool_inv (f b)"
      and report: "\<And>ok s. bs_in_progress (report ok s) = None" for x report f
    by (simp add: safe_run_def split: prod.split) (intro allI impI finish_tool_safe flags tool report)
  show "safe_run (execute_cbe_init E t)" "safe_run (execute_cbe_check E t)"
    "safe_run (execute_cbe_dump E t)"
    unfolding execute_cbe_init_def execute_cbe_check_def execute_cbe_dump_def
    by (rule safe_run_bind, erule tool_run_error, rule done_safe; rule frame tool_done_reports)+
qed

lemma start_tools_safe:
  assumes "tester_inv t"
  shows "tester_inv (start_initialize E t)" "tester_inv (start_check E t)" "tester_inv (start_dump E t)"
proof -
  have taken: "tester_inv t'"
    if "bs_in_progress (tm_session t) = None" "tm_state t = TS_INVALID"
      "tm_creating_snapshot t' = tm_creating_snapshot t" "tm_discard_snapshot t' = tm_discard_snapshot t"
      "tm_rekey t' = tm_rekey t" "tm_deinitialize t' = tm_deinitialize t"
      "tm_extend_vbd t' = tm_extend_vbd t" "tm_extend_ft t' = tm_extend_ft t" "tool_inv t'" for t'
  proof -
    have "no_flags t" using assms that(1) by (intro idle_flags) (simp_all add: tester_inv_def)
    with that show ?thesis by (simp add: tester_inv_def no_flags_inv no_flags_def)
  qed
  have kept: "tester_inv (t\<lparr>tm_session := s\<rparr>)"
    if "bs_in_progress s = bs_in_progress (tm_session t)" "bs_created s = bs_created (tm_session t)" for s
    using assms that by (simp add: tester_inv_def flags_inv_def tool_inv_def)
  obtain s res where i: "with_initialize (tm_session t) = (s, res)" by fastforce
  show "tester_inv (start_initialize E t)"
    using with_test_result [OF i [unfolded with_initialize_def]] i assms
    by (cases res)
      (auto simp: start_initialize_def Let_def tester_exit_def tool_inv_def as_kinds intro!: taken kept)
  obtain s' res' where c: "with_check (tm_session t) = (s', res')" by fastforce
  show "tester_inv (start_check E t)"
    using with_test_result [OF c [unfolded with_check_def]] c assms
    by (cases res')
      (auto simp: start_check_def Let_def tester_exit_def tool_inv_def as_kinds intro!: taken kept)
  obtain s'' res'' where d: "with_dump (tm_session t) = (s'', res'')" by fastforce
  show "tester_inv (start_dump E t)"
    using with_test_result [OF d [unfolded with_dump_def]] d assms
    by (cases res'')
      (auto simp: start_dump_def Let_def tester_exit_def tool_inv_def as_kinds intro!: taken kept)
qed

lemma execute_state_safe:
  assumes "tester_inv t" shows "safe_run (execute_state E t)"
proof -
  have cbe: "safe_run (execute_cbe E (construct_cbe E t))" if "cbe_phase t"
    using assms that
    by (intro execute_cbe_safe)
      (auto simp: construct_cbe_def cbe_phase_def tester_inv_def intro: flags_inv_frame)
  have tool: "no_flags (destruct_cbe t)" "tool_inv (destruct_cbe t)"
    if "tm_state t = TS_CBE_INIT \<or> tm_state t = TS_CBE_CHECK \<or> tm_state t = TS_CBE_DUMP"
    using assms tool_phase_no_flags [OF assms that]
    by (simp_all add: destruct_cbe_def no_flags_def tester_inv_def tool_inv_def)
  show ?thesis
    using cbe tool by (cases "tm_state t") (simp_all add: execute_state_def cbe_phase_def execute_tools_safe)
qed

text \<open>
  C20. The tester's main loop keeps its invariant (each flag for a test in flight matches the
  kind of the test in progress, and the tool states hold a test of their kind) and never
  dereferences a member that is not constructed nor fails to find a snapshot whose discard it
  started.
\<close>

theorem tester_execute_safe:
  assumes "tester_inv t" "tester_execute E t = Some res"
  shows "case res of Inr t' \<Rightarrow> tester_inv t'
     | Inl e \<Rightarrow> e \<noteq> Deref_unconstructed_object \<and> e \<noteq> Failed_to_find_created_snapshot"
proof -
  have pass: "safe_run (execute_state E (start_dump E (start_check E (start_initialize E (t\<lparr>tm_progress := False\<rparr>)))))"
    if "tester_inv t" for t
    using that
    by (intro execute_state_safe start_tools_safe) (simp add: tester_inv_def flags_inv_def tool_inv_def)
  have loop: "case r of Inr t' \<Rightarrow> tester_inv t' | Inl e \<Rightarrow> outside_error e"
    if "run_while (execute_pass E) t = Some r" for r
    by (rule run_while_rule [where I = tester_inv, OF that assms(1)])
      (use pass in \<open>fastforce simp: execute_pass_def safe_run_def bind_run_def split: option.splits sum.splits\<close>)+
  show ?thesis
    using assms(2) loop
    by (auto simp: tester_execute_def bind_run_def outside_error_def tester_inv_def flags_inv_def tool_inv_def
        split: option.splits sum.splits)
qed

section \<open>A request the library does not accept\<close>

lemma session_same [simp]: "t\<lparr>tm_session := tm_session t\<rparr> = (t :: ('l, 'i, 'c, 'd, 's) tester)"
  by (cases t) simp

lemma with_busy: "bs_in_progress s = Some x \<Longrightarrow> with_test kind s = (s, None)"
  by (simp add: with_test_def)

lemma busy_steps:
  assumes "bs_in_progress (tm_session t) = Some x" "no_flags t" "\<not> valid (cbe_completed E t)"
  shows "submit_block_request E t = t" "acknowledge_request E t = Inr t"
    "start_create_snapshot E t = t" "finish_create_snapshot E t = Inr t"
    "start_discard_snapshot E t = t" "finish_discard_snapshot E t = Inr t"
    "start_deinitialize E t = Inr t" "finish_deinitialize E t = Inr t" "list_snapshots t = t"
    "start_rekey E t = Inr t" "finish_rekey E t = Inr t"
    "start_extend_vbd E t = Inr t" "finish_extend_vbd E t = Inr t"
    "start_extend_ft E t = Inr t" "finish_extend_ft E t = Inr t"
  using assms(2,3)
  by (simp_all add: submit_block_request_def acknowledge_request_def start_create_snapshot_def
      finish_create_snapshot_def start_discard_snapshot_def finish_discard_snapshot_def
      start_deinitialize_def finish_deinitialize_def list_snapshots_def start_rekey_def
      finish_rekey_def start_extend_vbd_def finish_extend_vbd_def start_extend_ft_def
      finish_extend_ft_def with_requests_def with_create_snapshot_def with_discard_snapshot_def
      with_deinitialize_def with_list_snapshots_def with_rekey_def with_extend_vbd_def
      with_extend_ft_def with_busy [OF assms(1)] no_flags_def Let_def)

lemma handle_tests_busy:
  assumes "bs_in_progress (tm_session t) = Some x" "no_flags t" "\<not> valid (cbe_completed E t)"
  shows "handle_tests E t = Inr t"
  by (simp add: handle_tests_def busy_steps [OF assms])

lemma request_flags: "bs_in_progress (tm_session t) = Some (Test_Request r) \<Longrightarrow> flags_inv t \<longleftrightarrow> no_flags t"
  by (auto simp: flags_inv_def no_flags_def)

text \<open>A tester whose test in progress is a request of the block session, in front of the tests \<open>ts\<close>.\<close>

definition blocked :: "block_request \<Rightarrow> test list \<Rightarrow> ('l, 'i, 'c, 'd, 's) tester \<Rightarrow> bool" where
  "blocked r ts t \<longleftrightarrow>
     bs_in_progress (tm_session t) = Some (Test_Request r) \<and> bs_queue (tm_session t) = ts
     \<and> flags_inv t \<and> cbe_phase t \<and> tm_cbe_constructed t"

lemma blocked_tests:
  assumes "blocked r ts u" "\<not> valid (cbe_completed E u)"
  shows "handle_tests E u = Inr u"
  using handle_tests_busy [of u "Test_Request r" E] request_flags [of u r] assms by (simp add: blocked_def)

lemma execute_cbe_blocked:
  assumes "blocked r ts u" "\<not> valid (cbe_completed E u)" "execute_cbe E u = Some (Inr u')"
  shows "blocked r ts u'"
proof -
  obtain t2 t3 t4 where steps: "read_payload E (run_library E u) = Inr t2"
    "tester_backend E (write_payload E t2) = Some (Inr t3)" "tester_crypto E t3 = Some (Inr t4)"
    and u': "u' = (if valid (tm_blk_req t4) then t4 else next_state t4)"
    using assms(3) blocked_tests [OF assms(1,2)] assms(1)
    by (auto simp: execute_cbe_def blocked_def elim!: bind_run_InrE)
  have "same_tests u t4"
    using same_tests_trans [OF run_library_same same_tests_trans [OF _ same_tests_trans [OF write_payload_same
          same_tests_trans [OF tester_backend_same(2) [OF steps(2)] tester_crypto_same(2) [OF steps(3)]]]]]
      read_payload_same [of "run_library E u" E] steps(1) by simp
  moreover have "flags_inv t4 \<Longrightarrow> flags_inv (next_state t4)"
    by (rule flags_inv_frame) (simp_all add: next_state_def)
  ultimately show ?thesis using assms(1) u' by (auto simp: blocked_def same_tests_def next_state_def cbe_phase_def)
qed

lemma execute_pass_blocked:
  assumes "blocked r ts u" "\<not> valid (cbe_completed E u)" "execute_pass E u = Some (Inr (u', p))"
  shows "blocked r ts u'"
proof -
  let ?u = "u\<lparr>tm_progress := False\<rparr>"
  have busy: "bs_in_progress (tm_session ?u) = Some (Test_Request r)" using assms(1) by (simp add: blocked_def)
  have "start_dump E (start_check E (start_initialize E ?u)) = ?u"
    by (simp add: start_initialize_def start_check_def start_dump_def with_initialize_def with_check_def
        with_dump_def with_busy [OF busy [simplified]])
  moreover have "execute_state E ?u = execute_cbe E ?u"
    using assms(1) by (auto simp: execute_state_def construct_cbe_def blocked_def cbe_phase_def)
  ultimately have "execute_cbe E ?u = Some (Inr u')"
    using assms(3) by (auto simp: execute_pass_def elim!: bind_run_InrE)
  moreover have "blocked r ts ?u"
    using assms(1) flags_inv_frame [of u ?u] by (simp add: blocked_def cbe_phase_def)
  ultimately show ?thesis using execute_cbe_blocked [of r ts ?u E u'] assms(2) by (simp add: cbe_completed_def)
qed

text \<open>
  C34. A block request that the library does not accept at the moment is taken out of the queue
  all the same and not submitted: it becomes the test in progress. From then on, as long as the
  library reports no completed request, the tests submit nothing and change nothing in any pass
  of the main loop, in whatever state the library and the rest of the tester are, also when the
  library accepts requests again, and each pass leaves the test and the queue as they are.
\<close>

theorem unaccepted_request_blocks:
  assumes "bs_in_progress (tm_session t) = None" "bs_queue (tm_session t) = Test_Request r # ts"
    and "blk_type r \<noteq> B_INVALID" "\<not> client_request_acceptable (tw_lib E) (tm_cbe t)"
    and "\<not> valid (cbe_completed E t)" "flags_inv t" "cbe_phase t" "tm_cbe_constructed t"
  shows "\<exists>t'. handle_tests E t = Inr t' \<and> tm_cbe t' = tm_cbe t \<and> blocked r ts t'
     \<and> (\<forall>u. blocked r ts u \<and> \<not> valid (cbe_completed E u) \<longrightarrow> handle_tests E u = Inr u
          \<and> (\<forall>u' p. execute_pass E u = Some (Inr (u', p)) \<longrightarrow> blocked r ts u'))"
proof -
  let ?t = "t\<lparr>tm_session := (tm_session t)\<lparr>bs_queue := ts, bs_in_progress := Some (Test_Request r)\<rparr>\<rparr>"
  have no: "no_flags t" using idle_flags [OF assms(6,1)] .
  then have flags: "no_flags ?t" "\<not> valid (cbe_completed E ?t)"
    "bs_in_progress (tm_session ?t) = Some (Test_Request r)"
    using assms(5) by (simp_all add: no_flags_def cbe_completed_def)
  note steps = busy_steps [OF flags(3,1,2)]
  have "submit_block_request E t = ?t"
    using assms(1-4) by (simp add: submit_block_request_def with_requests_def with_test_def)
  then have "handle_tests E t = Inr ?t" by (simp add: handle_tests_def steps)
  moreover have "blocked r ts ?t"
    using request_flags [of ?t r] flags assms(7,8) by (simp add: blocked_def cbe_phase_def)
  ultimately show ?thesis using blocked_tests execute_pass_blocked by (intro exI [of _ ?t]) auto
qed

section \<open>Examples\<close>

text \<open>A tester over libraries that have nothing to do and an idle packet stream.\<close>

definition sample_tool :: "unit check_library" where
  "sample_tool =
     \<lparr> tool_client_request_acceptable = (\<lambda>_. True),
       tool_peek_completed_client_request = (\<lambda>_. invalid_request),
       tool_drop_completed_client_request = (\<lambda>l r. l), tool_execute = (\<lambda>l buf. (l, buf)),
       tool_execute_progress = (\<lambda>_. False), tool_io_request_completed = (\<lambda>l i ok. l),
       tool_has_io_request = (\<lambda>l r i. (r, i)), tool_io_request_in_progress = (\<lambda>l i. l) \<rparr>"

definition sample_stream :: "unit packet_stream" where
  "sample_stream =
     \<lparr> ps_ready_to_submit = (\<lambda>_. False), ps_alloc = (\<lambda>s n. None), ps_submit = (\<lambda>s p. s),
       ps_ack_avail = (\<lambda>_. False),
       ps_get_acked = (\<lambda>s. (\<lparr> pk_operation = B_INVALID, pk_block_number = 0, pk_count = 0,
                              pk_succeeded = False, pk_content = [] \<rparr>, s)),
       ps_release = (\<lambda>s p. s), ps_wakeup = (\<lambda>s. s) \<rparr>"

definition sample_world :: "(unit, unit, unit, unit, unit) tester_world" where
  "sample_world =
     \<lparr> tw_lib = null_library\<lparr>client_request_acceptable := (\<lambda>_. False)\<rparr>, tw_new_cbe = (),
       tw_init = sample_tool, tw_init_submit = (\<lambda>l r a b c d e f. l),
       tw_check = sample_tool, tw_check_submit = (\<lambda>l r. l),
       tw_dump = sample_tool, tw_dump_submit = (\<lambda>l r cfg. l), tw_stream = sample_stream,
       tw_avl = \<lparr> avl_insert = (\<lambda>t i g. t), avl_remove = (\<lambda>t i. t) \<rparr>,
       tw_aes = sample_aes, tw_indeterminate = 0 \<rparr>"

definition sample_tester :: "test list \<Rightarrow> (unit, unit, unit, unit, unit) tester" where
  "sample_tester ts =
     new_tester sample_world () () () () sample_crypto (session_members\<lparr>bs_queue := ts\<rparr>)"

lemma sample_tester_inv: "tester_inv (sample_tester ts)" "flags_inv (sample_tester ts)"
  by (simp_all add: tester_inv_def flags_inv_def tool_inv_def sample_tester_def new_tester_def
      session_members_def)

theorem unaccepted_request_blocks_witness:
  "\<exists>t'. handle_tests sample_world
        ((sample_tester [Test_Request \<lparr> blk_type = B_READ, blk_block_number = 0, blk_count = 1,
           blk_success = False, blk_offset = 0, blk_tag = 0 \<rparr>, Test_Check])\<lparr>tm_cbe_constructed := True\<rparr>) = Inr t'
     \<and> bs_queue (tm_session t') = [Test_Check] \<and> handle_tests sample_world t' = Inr t'"
proof -
  let ?r = "\<lparr> blk_type = B_READ, blk_block_number = 0, blk_count = 1, blk_success = False,
              blk_offset = 0, blk_tag = 0 \<rparr>"
  let ?t = "(sample_tester [Test_Request ?r, Test_Check])\<lparr>tm_cbe_constructed := True\<rparr>"
  have t: "bs_in_progress (tm_session ?t) = None" "bs_queue (tm_session ?t) = [Test_Request ?r, Test_Check]"
    "\<not> client_request_acceptable (tw_lib sample_world) (tm_cbe ?t)"
    "\<not> valid (cbe_completed sample_world u)" "cbe_phase ?t" "tm_cbe_constructed ?t" for u
    by (simp_all add: sample_tester_def new_tester_def session_members_def sample_world_def
        cbe_completed_def null_library_def cbe_phase_def)
  have "flags_inv ?t" by (rule flags_inv_frame [OF sample_tester_inv(2)]) simp_all
  from unaccepted_request_blocks [OF t(1,2) _ t(3,4) this t(5,6)] t(4) show ?thesis
    unfolding blocked_def by auto
qed

lemma sample_tester_runs:
  "\<exists>t'. tester_execute sample_world (sample_tester []) = Some (Inr t') \<and> tm_state t' = TS_INVALID"
proof -
  have "\<exists>t'. execute_pass sample_world (sample_tester []) = Some (Inr (t', False)) \<and> tm_state t' = TS_INVALID"
    by (simp add: execute_pass_def execute_state_def start_initialize_def start_check_def start_dump_def
        construct_cbe_def with_initialize_def with_check_def with_dump_def with_test_def session_exit_def
        execute_cbe_def handle_tests_def submit_block_request_def with_requests_def
        acknowledge_request_def start_create_snapshot_def finish_create_snapshot_def
        with_create_snapshot_def start_discard_snapshot_def finish_discard_snapshot_def
        with_discard_snapshot_def start_deinitialize_def finish_deinitialize_def
        with_deinitialize_def list_snapshots_def with_list_snapshots_def start_rekey_def
        finish_rekey_def with_rekey_def start_extend_vbd_def finish_extend_vbd_def
        with_extend_vbd_def start_extend_ft_def finish_extend_ft_def with_extend_ft_def
        cbe_completed_def run_library_def read_payload_def write_payload_def tester_backend_def
        blk_view_def blk_back_def backend_io_def submit_pass_def ack_pass_def cbe_io_def
        tester_crypto_def crypto_loops_def add_key_step_def remove_key_step_def encrypt_step_def
        encrypted_step_def decrypt_step_def decrypted_step_def next_state_def cbe_request_next_def
        client_data_ready_def client_data_required_def crypto_add_key_required_def
        crypto_remove_key_required_def crypto_cipher_data_required_def crypto_plain_data_required_def
        crypto_execute_def Crypto_Execute_def peek_completed_encryption_request_def
        peek_completed_decryption_request_def Peek_Completed_Encryption_Request_def
        Peek_Completed_Decryption_Request_def sample_crypto_def Invalid_Job_def
        sample_tester_def new_tester_def session_members_def sample_world_def sample_stream_def
        null_library_def run_loop.simps Let_def from_spark_def spark_invalid_object_def)
  then show ?thesis by (auto simp: tester_execute_def run_while_stop)
qed

theorem tester_execute_safe_witness:
  "\<exists>t'. tester_execute sample_world (sample_tester []) = Some (Inr t') \<and> tester_inv t'"
proof -
  obtain t' where "tester_execute sample_world (sample_tester []) = Some (Inr t')"
    using sample_tester_runs by blast
  with tester_execute_safe [OF sample_tester_inv(1) this] show ?thesis by simp
qed

end
