(* ===== verification/Tester_Util.thy ===== *)
theory Tester_Util
  imports Blk_Backend
begin

text \<open>
  The utilities of the tester (\<open>src/app/cbe_tester/util.h\<close>).

  \<^item> \<open>Number_of_bytes\<close>: \<open>print_bytes\<close> prints a number with the largest of the suffixes G, M and K
    that divides it, \<open>ascii_to\<close> reads it back. Genode's printing and reading of plain numbers are
    the arguments \<open>show_number\<close> and \<open>to_unsigned\<close>; \<open>reads_numbers\<close> says that the one reads what the
    other prints, up to the first character that is no digit.
  \<^item> \<open>Block_io\<close>: one synchronous access to a block connection. \<open>block_io\<close> is its constructor,
    \<open>block_io_end\<close> its destructor. \<open>accounts\<close> says that the packet stream counts the packets that
    have been allocated and not released.
\<close>

section \<open>Numbers with suffixes\<close>

definition KB :: u64 where "KB = 1024"
definition MB :: u64 where "MB = KB * 1024"
definition GB :: u64 where "GB = MB * 1024"

lemma unit_values: "KB = 1024" "MB = 1048576" "GB = 1073741824"
  by (simp_all add: KB_def MB_def GB_def)

definition print_bytes :: "(u64 \<Rightarrow> string) \<Rightarrow> u64 \<Rightarrow> string" where
  "print_bytes show_number n =
     (if n = 0 then show_number 0
      else if n mod GB = 0 then show_number (n div GB) @ ''G''
      else if n mod MB = 0 then show_number (n div MB) @ ''M''
      else if n mod KB = 0 then show_number (n div KB) @ ''K''
      else show_number n)"

text \<open>
  The cases of the switch fall through from G to M to K. Behind the last character of a string
  stands the terminating zero.
\<close>

definition char_at :: "string \<Rightarrow> nat \<Rightarrow> char" where
  "char_at s i = (if i < length s then s ! i else CHR 0x00)"

definition scale_suffix :: "char \<Rightarrow> u64 \<times> nat \<Rightarrow> u64 \<times> nat" where
  "scale_suffix c ri =
     (case ri of (res, i) \<Rightarrow>
        if c = CHR ''G'' then (res * 1024 * 1024 * 1024, i + 1)
        else if c = CHR ''M'' then (res * 1024 * 1024, i + 1)
        else if c = CHR ''K'' then (res * 1024, i + 1)
        else (res, i))"

text \<open>The value read and the number of characters consumed.\<close>

definition ascii_to :: "(string \<Rightarrow> u64 \<times> nat) \<Rightarrow> string \<Rightarrow> u64 \<times> nat" where
  "ascii_to to_unsigned s =
     (case to_unsigned s of (res, i) \<Rightarrow>
        if 0 < i then scale_suffix (char_at s i) (res, i) else (res, i))"

definition is_digit :: "char \<Rightarrow> bool" where
  "is_digit c \<longleftrightarrow> c \<in> set ''0123456789''"

definition reads_numbers :: "(string \<Rightarrow> u64 \<times> nat) \<Rightarrow> (u64 \<Rightarrow> string) \<Rightarrow> bool" where
  "reads_numbers to_unsigned show_number \<longleftrightarrow>
     (\<forall>n. show_number n \<noteq> []
        \<and> (\<forall>rest. (rest = [] \<or> hd rest \<in> set ''GMK'') \<longrightarrow>
            to_unsigned (show_number n @ rest) = (n, length (show_number n))))"

lemma char_at_append: "char_at (s @ c # t) (length s) = c" "char_at s (length s) = CHR 0x00"
  by (simp_all add: char_at_def)

lemma ascii_to_number:
  assumes "reads_numbers to_unsigned show_number"
  shows "ascii_to to_unsigned (show_number n) = (n, length (show_number n))"
    and "c \<in> set ''GMK'' \<Longrightarrow> ascii_to to_unsigned (show_number n @ [c])
       = scale_suffix c (n, length (show_number n))"
proof -
  have reads: "to_unsigned (show_number n @ rest) = (n, length (show_number n))"
    if "rest = [] \<or> hd rest \<in> set ''GMK''" for rest
    using assms that unfolding reads_numbers_def by blast
  have pos: "0 < length (show_number n)" using assms by (simp add: reads_numbers_def)
  show "ascii_to to_unsigned (show_number n) = (n, length (show_number n))"
    using reads [of "[]"] pos by (simp add: ascii_to_def char_at_append scale_suffix_def)
  show "ascii_to to_unsigned (show_number n @ [c]) = scale_suffix c (n, length (show_number n))"
    if "c \<in> set ''GMK''"
    using reads [of "[c]"] that pos by (simp add: ascii_to_def char_at_append)
qed

lemma multiple: "(n :: u64) mod d = 0 \<Longrightarrow> n div d * d = n"
  using word_mod_div_equality [of n d] by simp

text \<open>
  C19. Every 64-bit number, printed with the largest suffix that divides it, is read back as the
  same number, and all of the text is consumed.
\<close>

theorem number_of_bytes_round_trip:
  assumes "reads_numbers to_unsigned show_number"
  shows "ascii_to to_unsigned (print_bytes show_number n) = (n, length (print_bytes show_number n))"
proof -
  note read = ascii_to_number [OF assms]
  have parts: "n mod GB = 0 \<Longrightarrow> 1073741824 * (n div GB) = n"
    "n mod MB = 0 \<Longrightarrow> 1048576 * (n div MB) = n" "n mod KB = 0 \<Longrightarrow> n div KB * 1024 = n"
    using multiple [of n GB] multiple [of n MB] multiple [of n KB] by (simp_all add: unit_values mult.commute)
  show ?thesis by (simp add: print_bytes_def read scale_suffix_def parts)
qed

text \<open>Plain decimal numbers, as an example.\<close>

fun decimal_digits :: "nat \<Rightarrow> string" where
  "decimal_digits n =
     (if n < 10 then [''0123456789'' ! n] else decimal_digits (n div 10) @ [''0123456789'' ! (n mod 10)])"

declare decimal_digits.simps [simp del]

definition digit_value :: "char \<Rightarrow> nat" where
  "digit_value c = of_char c - 48"

definition decimal_value :: "string \<Rightarrow> nat" where
  "decimal_value s = foldl (\<lambda>a c. a * 10 + digit_value c) 0 s"

definition decimal_to_unsigned :: "string \<Rightarrow> u64 \<times> nat" where
  "decimal_to_unsigned s =
     (let digits = takeWhile is_digit s in (of_nat (decimal_value digits), length digits))"

lemma digit:
  assumes "d < 10"
  shows "is_digit (''0123456789'' ! d)" "digit_value (''0123456789'' ! d) = d"
proof -
  have "list_all (\<lambda>d. is_digit (''0123456789'' ! d) \<and> digit_value (''0123456789'' ! d) = d) [0..<10]"
    by code_simp
  with assms show "is_digit (''0123456789'' ! d)" "digit_value (''0123456789'' ! d) = d"
    by (simp_all add: list_all_iff)
qed

lemma decimal_digits: "list_all is_digit (decimal_digits n) \<and> decimal_value (decimal_digits n) = n \<and> decimal_digits n \<noteq> []"
proof (induction n rule: decimal_digits.induct)
  case (1 n)
  show ?case
  proof (cases "n < 10")
    case True
    then show ?thesis by (simp add: decimal_digits.simps [of n] decimal_value_def digit)
  next
    case False
    have "decimal_value (decimal_digits n) = n div 10 * 10 + n mod 10"
      using 1 [OF False] False by (simp add: decimal_digits.simps [of n] decimal_value_def digit)
    with 1 [OF False] False show ?thesis by (simp add: decimal_digits.simps [of n] digit)
  qed
qed

lemma decimal_reads: "reads_numbers decimal_to_unsigned (\<lambda>n. decimal_digits (unat n))"
proof -
  have stop: "takeWhile is_digit rest = []" if "rest = [] \<or> hd rest \<in> set ''GMK''" for rest
    using that by (cases rest) (auto simp: is_digit_def)
  have "takeWhile is_digit (decimal_digits n @ rest) = decimal_digits n"
    if "rest = [] \<or> hd rest \<in> set ''GMK''" for n rest
    using decimal_digits [of n] stop [OF that] by (simp add: list_all_iff takeWhile_append2)
  then show ?thesis
    by (simp add: reads_numbers_def decimal_to_unsigned_def Let_def decimal_digits)
qed

theorem number_of_bytes_round_trip_witness:
  "print_bytes (\<lambda>n. decimal_digits (unat n)) 3145728 = ''3M''
     \<and> ascii_to decimal_to_unsigned ''3M'' = (3145728, 2)"
proof -
  have shown: "print_bytes (\<lambda>n. decimal_digits (unat n)) 3145728 = ''3M''"
    by (simp add: print_bytes_def unit_values decimal_digits.simps)
  from number_of_bytes_round_trip [OF decimal_reads, of 3145728] shown show ?thesis by simp
qed

section \<open>Synchronous block access\<close>

text \<open>\<open>data\<close> is the buffer, if one is given, of which \<open>len\<close> bytes are copied into the packet.\<close>

definition block_io ::
  "'s packet_stream \<Rightarrow> u64 \<Rightarrow> u64 \<Rightarrow> u64 \<Rightarrow> bool \<Rightarrow> bytes option \<Rightarrow> u64 \<Rightarrow> 's \<Rightarrow> 's \<times> (exn + packet)" where
  "block_io S block_size lba count write data len s =
     (case ps_alloc S s (block_size * count) of
        None \<Rightarrow> (s, Inl Packet_alloc_failed)
      | Some s1 \<Rightarrow>
          (let p = \<lparr> pk_operation = (if write then B_WRITE else B_READ), pk_block_number = lba,
                     pk_count = count, pk_succeeded = False, pk_content = [] \<rparr> in
           if write \<and> (data = None \<or> len = 0) then (s1, Inl Io_error)
           else
             (let s2 = ps_submit S s1
                (if write then p\<lparr>pk_content := take (unat len) (the data)\<rparr> else p) in
              case ps_get_acked S s2 of (p', s3) \<Rightarrow>
                if \<not> pk_succeeded p' then (ps_release S s3 p', Inl Io_error) else (s3, Inr p'))))"

definition block_io_end :: "'s packet_stream \<Rightarrow> packet \<Rightarrow> 's \<Rightarrow> 's" where
  "block_io_end S p s = ps_release S s p"

definition accounts :: "'s packet_stream \<Rightarrow> ('s \<Rightarrow> nat) \<Rightarrow> bool" where
  "accounts S out \<longleftrightarrow>
     (\<forall>s n s'. ps_alloc S s n = Some s' \<longrightarrow> out s' = out s + 1)
     \<and> (\<forall>s p. out (ps_submit S s p) = out s)
     \<and> (\<forall>s p s'. ps_get_acked S s = (p, s') \<longrightarrow> out s' = out s)
     \<and> (\<forall>s p. out (ps_release S s p) = out s - 1)"

text \<open>
  C18. A synchronous block access gives back its packet on every path, by its destructor after
  success and by the constructor after a failed transfer, with one exception: a write without
  data throws and keeps the packet allocated.
\<close>

theorem block_io_packets:
  assumes "accounts S out" "block_io S block_size lba count write data len s = (s', res)"
  shows "case res of
      Inr p \<Rightarrow> pk_succeeded p \<and> out (block_io_end S p s') = out s
    | Inl e \<Rightarrow> out s' = out s + (if e = Io_error \<and> write \<and> (data = None \<or> len = 0) then 1 else 0)"
proof (cases "ps_alloc S s (block_size * count)")
  case None
  with assms(2) show ?thesis by (auto simp: block_io_def)
next
  case (Some s1)
  have out: "out s1 = out s + 1" "\<And>p. out (ps_submit S s1 p) = out s + 1"
    "\<And>t p t'. ps_get_acked S t = (p, t') \<Longrightarrow> out t' = out t"
    "\<And>t p. out (ps_release S t p) = out t - 1"
    using assms(1) Some by (simp_all add: accounts_def)
  from assms(2) Some out(1,2,4) show ?thesis
    by (auto simp: block_io_def Let_def block_io_end_def split: prod.splits if_splits dest!: out(3))
qed

text \<open>A stream that answers every packet at once, with its number of packets as the state.\<close>

definition prompt_stream :: "nat packet_stream" where
  "prompt_stream =
     \<lparr> ps_ready_to_submit = (\<lambda>s. True), ps_alloc = (\<lambda>s n. Some (s + 1)), ps_submit = (\<lambda>s p. s),
       ps_ack_avail = (\<lambda>s. True),
       ps_get_acked = (\<lambda>s. (\<lparr> pk_operation = B_READ, pk_block_number = 5, pk_count = 1,
                              pk_succeeded = True, pk_content = [7] \<rparr>, s)),
       ps_release = (\<lambda>s p. s - 1), ps_wakeup = (\<lambda>s. s) \<rparr>"

theorem block_io_packets_witness:
  "(\<exists>p s'. block_io prompt_stream 4096 5 1 False None 0 0 = (s', Inr p)
      \<and> block_io_end prompt_stream p s' = 0)
     \<and> block_io prompt_stream 4096 5 1 True None 0 0 = (1, Inl Io_error)"
proof -
  have counts: "accounts prompt_stream id" by (auto simp: accounts_def prompt_stream_def)
  obtain s' res where run: "block_io prompt_stream 4096 5 1 False None 0 0 = (s', res)"
    by (cases "block_io prompt_stream 4096 5 1 False None 0 0")
  have "res \<noteq> Inl e" for e using run by (auto simp: block_io_def prompt_stream_def Let_def)
  then obtain p where "res = Inr p" by (cases res) auto
  with block_io_packets [OF counts run] run
  have "block_io prompt_stream 4096 5 1 False None 0 0 = (s', Inr p) \<and> block_io_end prompt_stream p s' = 0"
    by simp
  then show ?thesis by (auto simp: block_io_def prompt_stream_def Let_def)
qed

end
