(* ===== verification/Spark_Records.thy ===== *)
theory Spark_Records
  imports Spark_Boundary Apps
begin

text \<open>
  The other records that cross the language boundary: the configuration of a dump, which the tool
  hands to the SPARK library, and the keys and snapshot identifiers, which the library hands out.
  As for requests, one side lays the bytes out and the other reads them by its own declaration.
\<close>

section \<open>The configuration of a dump\<close>

text \<open>The packed class \<open>Cbe_dump::Configuration\<close>.\<close>

definition dump_configuration_bytes :: "dump_configuration \<Rightarrow> bytes" where
  "dump_configuration_bytes c =
     [cxx_bool (dc_unused_nodes c)] @ le_bytes 4 (dc_max_superblocks c) @ le_bytes 4 (dc_max_snapshots c)
     @ [cxx_bool (dc_vbd c), cxx_bool (dc_vbd_pba_filter_enabled c)] @ le_bytes 8 (dc_vbd_pba_filter c)
     @ [cxx_bool (dc_vbd_vba_filter_enabled c)] @ le_bytes 8 (dc_vbd_vba_filter c)
     @ [cxx_bool (dc_free_tree c), cxx_bool (dc_meta_tree c), cxx_bool (dc_hashes c)]"

text \<open>The packed \<open>CXX_Dump_Configuration_Type\<close>.\<close>

record cxx_dump_configuration =
  cdc_unused_nodes :: u8
  cdc_max_superblocks :: u32
  cdc_max_snapshots :: u32
  cdc_vbd :: u8
  cdc_vbd_pba_filter_enabled :: u8
  cdc_vbd_pba_filter :: u64
  cdc_vbd_vba_filter_enabled :: u8
  cdc_vbd_vba_filter :: u64
  cdc_free_tree :: u8
  cdc_meta_tree :: u8
  cdc_hashes :: u8

definition cxx_dump_configuration_of_bytes :: "bytes \<Rightarrow> cxx_dump_configuration" where
  "cxx_dump_configuration_of_bytes bs =
     \<lparr> cdc_unused_nodes = le_read (take 1 bs),
       cdc_max_superblocks = le_read (take 4 (drop 1 bs)),
       cdc_max_snapshots = le_read (take 4 (drop 5 bs)),
       cdc_vbd = le_read (take 1 (drop 9 bs)),
       cdc_vbd_pba_filter_enabled = le_read (take 1 (drop 10 bs)),
       cdc_vbd_pba_filter = le_read (take 8 (drop 11 bs)),
       cdc_vbd_vba_filter_enabled = le_read (take 1 (drop 19 bs)),
       cdc_vbd_vba_filter = le_read (take 8 (drop 20 bs)),
       cdc_free_tree = le_read (take 1 (drop 28 bs)),
       cdc_meta_tree = le_read (take 1 (drop 29 bs)),
       cdc_hashes = le_read (take 1 (drop 30 bs)) \<rparr>"

text \<open>
  The SPARK record has the fields of the C++ class; a virtual block address has the range
  \<open>0 .. Tree_Max_Number_Of_Leafs\<close>.
\<close>

definition vba_to_spark :: "u64 \<Rightarrow> exn + u64" where
  "vba_to_spark n = (if Tree_Max_Number_Of_Leafs < n then Inl Constraint_Error else Inr n)"

definition cxx_dump_configuration_to_spark :: "cxx_dump_configuration \<Rightarrow> exn + dump_configuration" where
  "cxx_dump_configuration_to_spark c =
     bind_exn (cxx_bool_to_spark (cdc_unused_nodes c)) (\<lambda>unused.
     bind_exn (cxx_bool_to_spark (cdc_vbd c)) (\<lambda>vbd.
     bind_exn (cxx_bool_to_spark (cdc_vbd_pba_filter_enabled c)) (\<lambda>pba.
     bind_exn (cxx_bool_to_spark (cdc_vbd_vba_filter_enabled c)) (\<lambda>vba.
     bind_exn (vba_to_spark (cdc_vbd_vba_filter c)) (\<lambda>vba_filter.
     bind_exn (cxx_bool_to_spark (cdc_free_tree c)) (\<lambda>free.
     bind_exn (cxx_bool_to_spark (cdc_meta_tree c)) (\<lambda>meta.
     bind_exn (cxx_bool_to_spark (cdc_hashes c)) (\<lambda>hashes.
       Inr \<lparr> dc_unused_nodes = unused, dc_max_superblocks = cdc_max_superblocks c,
             dc_max_snapshots = cdc_max_snapshots c, dc_vbd = vbd, dc_vbd_pba_filter_enabled = pba,
             dc_vbd_pba_filter = cdc_vbd_pba_filter c, dc_vbd_vba_filter_enabled = vba,
             dc_vbd_vba_filter = vba_filter, dc_free_tree = free, dc_meta_tree = meta,
             dc_hashes = hashes \<rparr>))))))))"

section \<open>Keys and snapshot identifiers\<close>

record spark_key =
  skey_value :: bytes
  skey_ident :: u32

text \<open>\<open>CXX_Key_From_SPARK\<close> copies the value byte by byte; the record is laid out without gaps.\<close>

definition cxx_key_from_spark :: "spark_key \<Rightarrow> key" where
  "cxx_key_from_spark k = \<lparr> key_value = map (\<lambda>i. skey_value k ! i) [0..<32], key_ident = skey_ident k \<rparr>"

definition cxx_key_bytes :: "key \<Rightarrow> bytes" where
  "cxx_key_bytes k = key_value k @ le_bytes 4 (key_ident k)"

text \<open>The packed \<open>Cbe::Key\<close>.\<close>

definition key_of_bytes :: "bytes \<Rightarrow> key" where
  "key_of_bytes bs = \<lparr> key_value = take 32 bs, key_ident = le_read (take 4 (drop 32 bs)) \<rparr>"

text \<open>The array of generations, and \<open>Active_snapshot_ids\<close>.\<close>

definition snapshot_ids_bytes :: "u64 list \<Rightarrow> bytes" where
  "snapshot_ids_bytes ids = concat (map (le_bytes 8) ids)"

definition snapshot_ids_of_bytes :: "bytes \<Rightarrow> u64 list" where
  "snapshot_ids_of_bytes bs = map (\<lambda>i. le_read (take 8 (drop (8 * i) bs))) [0..<NR_OF_SNAPSHOTS]"

section \<open>Properties\<close>

lemma le_read_bool [simp]: "le_read [cxx_bool b] = cxx_bool b"
  by (simp add: cxx_bool_def)

lemma cxx_dump_configuration_of_dump_configuration_bytes:
  "cxx_dump_configuration_of_bytes (dump_configuration_bytes c) =
     \<lparr> cdc_unused_nodes = cxx_bool (dc_unused_nodes c), cdc_max_superblocks = dc_max_superblocks c,
       cdc_max_snapshots = dc_max_snapshots c, cdc_vbd = cxx_bool (dc_vbd c),
       cdc_vbd_pba_filter_enabled = cxx_bool (dc_vbd_pba_filter_enabled c),
       cdc_vbd_pba_filter = dc_vbd_pba_filter c,
       cdc_vbd_vba_filter_enabled = cxx_bool (dc_vbd_vba_filter_enabled c),
       cdc_vbd_vba_filter = dc_vbd_vba_filter c, cdc_free_tree = cxx_bool (dc_free_tree c),
       cdc_meta_tree = cxx_bool (dc_meta_tree c), cdc_hashes = cxx_bool (dc_hashes c) \<rparr>"
  by (simp add: cxx_dump_configuration_of_bytes_def dump_configuration_bytes_def)

text \<open>
  C38. The configuration of a dump, laid out as the packed bytes of Cbe_dump::Configuration, is
  read by the SPARK side as the same configuration, except that a filter on virtual block
  addresses above 2^30 raises Constraint_Error.
\<close>

theorem dump_configuration_crosses_boundary:
  "cxx_dump_configuration_to_spark (cxx_dump_configuration_of_bytes (dump_configuration_bytes c))
     = (if 2 ^ 30 < dc_vbd_vba_filter c then Inl Constraint_Error else Inr c)"
  by (simp add: cxx_dump_configuration_of_dump_configuration_bytes cxx_dump_configuration_to_spark_def
      vba_to_spark_def Tree_Max_Number_Of_Leafs_eq)

theorem key_crosses_boundary:
  assumes "length (skey_value k) = 32"
  shows "key_of_bytes (cxx_key_bytes (cxx_key_from_spark k)) = \<lparr> key_value = skey_value k, key_ident = skey_ident k \<rparr>"
proof -
  have "map (\<lambda>i. skey_value k ! i) [0..<32] = skey_value k"
    using assms map_nth [of "skey_value k"] by simp
  with assms show ?thesis by (simp add: key_of_bytes_def cxx_key_bytes_def cxx_key_from_spark_def)
qed

lemma snapshot_ids_drop: "drop (8 * i) (snapshot_ids_bytes ids) = snapshot_ids_bytes (drop i ids)"
proof (induction i arbitrary: ids)
  case (Suc i)
  then show ?case by (cases ids) (simp_all add: snapshot_ids_bytes_def)
qed simp

theorem snapshot_ids_cross_boundary:
  assumes "length ids = NR_OF_SNAPSHOTS"
  shows "snapshot_ids_of_bytes (snapshot_ids_bytes ids) = ids"
proof (rule nth_equalityI)
  show "length (snapshot_ids_of_bytes (snapshot_ids_bytes ids)) = length ids"
    using assms by (simp add: snapshot_ids_of_bytes_def)
  fix i
  assume "i < length (snapshot_ids_of_bytes (snapshot_ids_bytes ids))"
  then have i: "i < NR_OF_SNAPSHOTS" by (simp add: snapshot_ids_of_bytes_def)
  then have "drop i ids = (ids ! i) # drop (Suc i) ids" using assms by (simp add: Cons_nth_drop_Suc)
  then show "snapshot_ids_of_bytes (snapshot_ids_bytes ids) ! i = ids ! i"
    using i by (simp add: snapshot_ids_of_bytes_def snapshot_ids_drop) (simp add: snapshot_ids_bytes_def)
qed

end
