(* ===== verification/Spec2Isabelle.thy ===== *)
theory Spec2Isabelle
  imports Wrapper_Data Plugin_Buffers Plugin_Device Wrapper_Transfer Vfs_Replay Tester_Crypto Tester_Safety Tester_Util
    Spark_Records
begin

text \<open>
  Verification development for the C++ part of the Consistent Block Encrypter (CBE).

  The CBE is a block-device encrypter for Genode. Its core is a library in SPARK that keeps a
  virtual block device with snapshots on a physical one. The library does no I/O and no
  cryptography of its own: it is a state machine that client code drives by asking what it needs
  next. The C++ code is that client code. The plugin \<open>src/lib/vfs/cbe/vfs.cc\<close> offers the device as
  files, the tester \<open>src/app/cbe_tester/main.cc\<close> offers it as a block session and runs tests on it,
  and the tools \<open>cbe_init\<close>, \<open>cbe_check\<close> and \<open>cbe_dump\<close> drive three smaller libraries. All share the
  interface \<open>include/cbe/library.h\<close>, the data types of \<open>include/cbe/types.h\<close> and the crypto unit
  \<open>include/cbe/external_crypto.h\<close>.

  \<^bold>\<open>Conventions.\<close> A class is a record of its members, a method a function on it that returns the
  changed record. Machine integers are words. An exception is a value of \<open>exn\<close>, so an operation that
  may throw returns \<open>exn + 'a\<close>. A loop whose end depends on code outside the repository is a
  \<open>partial_function\<close>, \<open>run_loop\<close> or \<open>run_while\<close>, of result type \<open>run\<close>, where \<open>None\<close> means that it
  does not return; claims that such loops return are proved by a measure, not assumed. What is not in
  the repository is an argument: the methods of the SPARK library (\<open>cbe_library\<close>, \<open>check_library\<close>),
  Genode's VFS file (\<open>vfs_file\<close>), packet stream (\<open>packet_stream\<close>), AVL tree (\<open>avl_tree\<close>) and parsers
  (\<open>parsers\<close>), and the block cipher (\<open>aes\<close>).

  \<^bold>\<open>Theories and what they model.\<close>

  \<^item> \<open>Cbe_Prelude\<close>: machine types, exceptions, the loop combinators with their rules for invariants,
    termination and divergence, byte memory.
  \<^item> \<open>Cbe_Types\<close> (\<open>types.h\<close>, \<open>spark_object.h\<close>, \<open>sha256_4k.h\<close>), \<open>Cbe_Library\<close> (\<open>library.h\<close>, the tool
    libraries): requests, buffers with checked index, the interface of the library.
  \<^item> \<open>Spark_Boundary\<close>, \<open>Spark_Records\<close> (\<open>src/lib/cbe_cxx_common\<close>): the packed records that the two
    languages exchange. Each side reads the bytes by its own declaration; the theorems say what comes
    out on the other side, and when the range checks of the SPARK types raise an exception.
  \<^item> \<open>Crypto_Unit\<close> (\<open>external_crypto.h\<close>, \<open>external-crypto.adb\<close>): key slots and job slots. The locale
    \<open>crypto_direction\<close> is the contract of a client of one direction over an abstract view of the jobs;
    it is interpreted for encryption and for decryption.
  \<^item> \<open>Io_Job\<close> (\<open>io_job.h\<close>): the back-end job of the plugin, a transfer in pieces. The locale
    \<open>transfer_job\<close> is the contract of such a transfer; it is interpreted for reading and writing here,
    and again in \<open>Vfs_Replay\<close> (\<open>src/app/vfs_replay/component.cc\<close>) for the requests of the replay tool.
  \<^item> \<open>Vfs_Wrapper\<close> (\<open>Vfs_cbe::Wrapper\<close>): the object that drives the library for all files of the
    plugin. \<open>submit_frontend_request\<close> accepts an access, \<open>handle_cbe_frontend\<close>, \<open>handle_cbe_backend\<close> and
    \<open>handle_crypto\<close> move it on, \<open>handle_frontend_request\<close> loops over them while there is progress. An
    access that is not aligned goes through a helper read and, if it writes, a helper write.
  \<^item> \<open>Vfs_Files\<close>, \<open>Vfs_Snapshots\<close>, \<open>Vfs_Plugin\<close>: the data and control files, the directory of the
    snapshots with its registry, the factories and the creation of the plugin.
  \<^item> \<open>Blk_Backend\<close>, \<open>Apps\<close>: the two packet loops of the tools (locale \<open>op_codes\<close>), their main loops,
    configurations and line buffer.
  \<^item> \<open>Tester_Session\<close>, \<open>Tester_Main\<close>, \<open>Tester_Util\<close>: the queue of tests, the main loop of the tester with
    its states, the utilities of \<open>util.h\<close>.

  \<^bold>\<open>What the lemmas show.\<close>

  \<^item> \<open>Wrapper_Safety\<close>: the invariant \<open>frontend_inv\<close> of the front-end request, the helper requests and the
    number of requests the library holds; every handler keeps it, under \<open>library_contract\<close>.
  \<^item> \<open>Wrapper_Phases\<close>: an abstract machine of seven working phases for a request, and the proof that the
    handlers and the files refine its steps. Each step raises a rank, so none is repeated.
  \<^item> \<open>Wrapper_Progress\<close>: the loops return. The measure \<open>work_left\<close> is lexicographic: the rank of the
    phase, the library's own bound on its work (\<open>library_finite\<close>), the back-end job with its bytes, the
    crypto jobs. \<open>in_step\<close> is the invariant that ties the job and the crypto slots to the library.
  \<^item> \<open>Wrapper_Data\<close>, \<open>Wrapper_Transfer\<close>: what happens to the data. An unaligned write changes exactly the
    client's bytes in its block, a block read is the block of the device, a block is encrypted under its
    key and number, and the blocks of an aligned read arrive each at its place in any order of delivery.
  \<^item> \<open>Plugin_Runs\<close>, \<open>Plugin_Buffers\<close>: all interleavings of operations on the plugin (\<open>plugin_reach\<close>). The
    locale \<open>plugin_contract\<close> is what an invariant needs so that all operations keep it, and
    \<open>plugin_total\<close> adds that the operations return. They are interpreted for the invariant of the
    requests, for it with \<open>in_step\<close> and for it with the typing of the buffers.
  \<^item> \<open>Block_File\<close>, \<open>Device_View\<close>, \<open>Recorded_Runs\<close>, \<open>Device_Access\<close>, \<open>Plugin_Device\<close>: the data file is an
    array of bytes. \<open>file_read\<close> and \<open>file_write\<close> specify the two accesses. \<open>exchange\<close> are the calls that
    move the blocks of a client request between the front end and the library; \<open>recorded\<close> is any library
    with a log of them, and \<open>recorded_run\<close> says that every run of the plugin is a run with the log whose
    log is erased (\<open>bare\<close>). \<open>served\<close> says of a log that its calls are those of a block device, and
    \<open>device_blocks\<close> what the device then holds. \<open>moved\<close> says for each phase of an access which blocks the
    log has moved and what they did to client memory and device. The properties are about whole accesses:
    submission, polls, signals, background requests, the call that reports the end.
  \<^item> \<open>Tester_Safety\<close>, \<open>Tester_Crypto\<close>, \<open>Tester_Session\<close>: the invariant of the tester's flags and tools, a
    request that is not accepted blocks the tests for good, the crypto handlers of tester and plugin are
    the same function on their parts of the state, and a created snapshot is found until it is discarded.
  \<^item> \<open>Vfs_Plugin\<close>, \<open>Vfs_Replay\<close>: also two loops that do not make it to the end, the driver loop over a
    read at the end of the backing file and the replay of a read that the file answers in part.

  \<^bold>\<open>Bounds.\<close> \<open>backend_passes\<close> and \<open>execute_until\<close> take the number of calls as fuel: a job of n bytes on a
  device that moves at least one byte per call needs at most n of them, so 4096 are enough for a block,
  and the theorems about them state that the job is then complete. Nothing else uses fuel.

  \<^bold>\<open>Assumptions.\<close> \<open>library_contract\<close>: the library completes, and asks data for, only requests it was given.
  \<open>library_finite\<close>: what it hands over uses up a bound on its work, it has at most one block in
  each direction at the crypto unit, and an outstanding request stays so until it is answered.
  \<open>blocks_library\<close>: its I/O requests are for one block, and it leaves the sizes of the buffers alone.
  \<open>file_bounded\<close>, \<open>file_moves\<close>: the VFS moves at most what it was asked for, and at least one byte when it
  reports success. \<open>avl_laws\<close>: Genode's AVL tree inserts and removes a node and keeps the others. The
  examples at the end of the theories satisfy them, \<open>disk_library\<close> those of the first theories all at
  once. The methods of the library do not throw in the model, and client memory does not overlap the
  wrapper.

  The properties of \<open>Plugin_Device\<close> assume nothing of the library beyond \<open>library_contract\<close>, nor anything
  of the back end and the cipher. They are about the runs whose log is \<open>served\<close>: in such a run the library
  may ask for a block as often as it likes (the SPARK library asks for a block of a write a second time
  when the write allocates), in any order, and completes the request, successfully, when each of its
  blocks has been moved. A run in which a completion fails is not one of them; \<open>data_read_hides_failure\<close>
  and \<open>failed_request_ends_frontend\<close> say what the plugin does then. \<open>ram_library\<close> is an example that asks
  for each block of a write twice.

  \<^bold>\<open>Not modelled.\<close>

  \<^item> The SPARK library and the libraries of the tools (\<open>src/lib/cbe\<close>, \<open>cbe_init\<close>, \<open>cbe_check\<close>, \<open>cbe_dump\<close>,
    \<open>sha256_4k\<close>): another language and another development. Of it only requests and the records at the
    boundary and the crypto unit, which has a C++ interface of its own, are here.
  \<^item> Genode: threads, signals, sessions, allocators, AVL trees, XML and number parsing are arguments or,
    where they only carry a call, left out. The mutex of the wrapper makes its operations atomic, which
    is why \<open>plugin_reach\<close> interleaves whole operations. Log messages are left out where they have no
    effect; \<open>print\<close> methods are lists of the items they print.
  \<^item> \<open>include/cbe/util.h\<close> (class \<open>Cbe::Time\<close>): its methods are not defined in the repository's C++ code.
  \<^item> \<open>Component::construct\<close>, constructors and destructors that only pass arguments on, accessors of members,
    and the C entry points that forward to Genode. What the map leaves uncovered in the C++ files is this
    and comments and declarations, so there is nothing left there to model.
\<close>

end
